(* ===== verification/Prelude.thy ===== *)
theory Prelude
  imports Main "HOL-Library.AList" "HOL-Library.Sublist"
begin

text \<open>
  Shared vocabulary of the development: sequencing of fallible steps (the
  \<^verbatim>\<open>if err != nil { return err }\<close> idiom of the Go sources), the collections of rewrite rules
  that the component theories extend, and lemmas on lists and association lists that
  several components use.
\<close>

named_theorems frame_simps
  \<open>which parts of the world an operation leaves alone\<close>

named_theorems os_simps
  \<open>the file-system calls evaluated on a concrete or partly known world\<close>

subsection \<open>Sequencing of fallible steps\<close>

text \<open>
  A Go function that calls several fallible functions one after the other and returns the
  first error. Each step takes the state and returns an optional error and the new state;
  effects made before the error are kept.
\<close>

fun run_steps :: "('s \<Rightarrow> 'e option \<times> 's) list \<Rightarrow> 's \<Rightarrow> 'e option \<times> 's" where
  "run_steps [] s = (None, s)"
| "run_steps (f # fs) s =
     (case f s of (Some e, s') \<Rightarrow> (Some e, s') | (None, s') \<Rightarrow> run_steps fs s')"

lemma run_steps_None_Cons [simp]:
  "run_steps (f # fs) s = (None, t) \<longleftrightarrow> (\<exists>u. f s = (None, u) \<and> run_steps fs u = (None, t))"
  by (auto split: prod.splits option.splits)

text \<open>The equation for a step is used where the step is known, never by default.\<close>

declare run_steps.simps(2) [simp del]

lemmas run_steps_Cons = run_steps.simps(2)

lemma run_steps_append:
  "run_steps (fs @ gs) s =
     (case run_steps fs s of (Some e, s') \<Rightarrow> (Some e, s') | (None, s') \<Rightarrow> run_steps gs s')"
  by (induction fs arbitrary: s) (auto simp: run_steps_Cons split: prod.splits option.splits)

text \<open>What every step preserves, the sequence preserves, whether or not it stops early.\<close>

lemma run_steps_preserves:
  assumes "\<And>f s. f \<in> set fs \<Longrightarrow> P s \<Longrightarrow> P (snd (f s))" and "P s"
  shows "P (snd (run_steps fs s))"
  using assms
proof (induction fs arbitrary: s)
  case Nil
  then show ?case by simp
next
  case (Cons f fs)
  from Cons.prems have Pf: "P (snd (f s))" by simp
  obtain e u where fs: "f s = (e, u)" by (cases "f s")
  show ?case
  proof (cases e)
    case None
    from fs Pf have "P u" by simp
    then have "P (snd (run_steps fs u))"
      by (rule Cons.IH [rotated]) (simp add: Cons.prems)
    with fs None show ?thesis by (simp add: run_steps_Cons)
  next
    case (Some a)
    with fs Pf show ?thesis by (simp add: run_steps_Cons)
  qed
qed

text \<open>A relation between the state before and after that is reflexive and transitive.\<close>

lemma run_steps_rel:
  assumes "\<And>f s. f \<in> set fs \<Longrightarrow> R s (snd (f s))"
    and "\<And>s. R s s" and "\<And>s t u. R s t \<Longrightarrow> R t u \<Longrightarrow> R s u"
  shows "R s (snd (run_steps fs s))"
  by (rule run_steps_preserves [where P = "R s"]) (use assms in blast)+

text \<open>An error of the sequence is the error of one of its steps.\<close>

lemma run_steps_Some:
  assumes "run_steps fs s = (Some e, t)"
  obtains pre f post u where "fs = pre @ f # post" and "run_steps pre s = (None, u)"
    and "f u = (Some e, t)"
  using assms
proof (induction fs arbitrary: s thesis)
  case Nil
  then show ?case by simp
next
  case (Cons f fs)
  show ?case
  proof (cases "f s")
    case (Pair e' u)
    show ?thesis
    proof (cases e')
      case None
      with Pair Cons.prems(2) have "run_steps fs u = (Some e, t)" by (simp add: run_steps_Cons)
      then obtain pre g post v where "fs = pre @ g # post" "run_steps pre u = (None, v)"
        "g v = (Some e, t)"
        by (rule Cons.IH [rotated]) blast
      with Pair None show ?thesis
        by (intro Cons.prems(1) [of "f # pre" g post v]) (auto simp: run_steps_Cons)
    next
      case (Some a)
      with Pair Cons.prems show ?thesis
        by (intro Cons.prems(1) [of "[]" f fs s]) (auto simp: run_steps_Cons)
    qed
  qed
qed

subsection \<open>Lists\<close>

lemma filter_keys_map_of:
  "map_of (filter (\<lambda>(k, _). Q k) al) k = (if Q k then map_of al k else None)"
  by (induction al) auto

lemma length_filter_lt_iff:
  "length (filter P xs) = length xs \<longleftrightarrow> (\<forall>x \<in> set xs. P x)"
  by (metis filter_id_conv filter_True length_filter_less less_irrefl)

lemma sum_list_map_length_concat: "sum_list (map length xss) = length (concat xss)"
  by (simp add: length_concat)

subsection \<open>Association lists as Go maps\<close>

text \<open>
  A Go map is an association list with distinct keys, so that an iteration order can be
  chosen; \<^verbatim>\<open>m[k] = v\<close> is \<open>AList.update\<close>. Go iterates in an unspecified order: where the
  source ranges over a map, the model ranges over a rearrangement of the list chosen by a
  parameter.
\<close>

type_synonym 'a gomap = "(string \<times> 'a) list"

definition gomap_ok :: "'a gomap \<Rightarrow> bool" where
  "gomap_ok m \<longleftrightarrow> distinct (map fst m)"

definition rearrangement :: "('a list \<Rightarrow> 'a list) \<Rightarrow> bool" where
  "rearrangement it \<longleftrightarrow> (\<forall>xs. length (it xs) = length xs \<and> set (it xs) = set xs)"

lemma gomap_ok_Nil [simp]: "gomap_ok []"
  by (simp add: gomap_ok_def)

lemma gomap_ok_update [simp]: "gomap_ok m \<Longrightarrow> gomap_ok (AList.update k v m)"
  by (simp add: gomap_ok_def distinct_update)

lemma gomap_ok_updates: "gomap_ok m \<Longrightarrow> gomap_ok (fold (\<lambda>(k, v). AList.update k v) kvs m)"
  by (induction kvs arbitrary: m) auto

lemma map_of_updates:
  "map_of (fold (\<lambda>(k, v). AList.update k v) kvs m) = map_of m ++ map_of (rev kvs)"
  by (induction kvs arbitrary: m)
    (auto simp: update_conv' map_add_def fun_eq_iff split: option.splits)

lemma rearrangement_id: "rearrangement id"
  by (simp add: rearrangement_def)

lemma rearrangement_rev: "rearrangement rev"
  by (simp add: rearrangement_def)

text \<open>A rearrangement of a map with distinct keys is the same map.\<close>

lemma rearranged_map:
  assumes "rearrangement it" and "gomap_ok m"
  shows "gomap_ok (it m)" and "map_of (it m) = map_of m"
proof -
  from assms(1) have len: "length (it m) = length m" and set: "set (it m) = set m"
    by (auto simp: rearrangement_def)
  from assms(2) have "card (fst ` set m) = length m"
    by (metis distinct_card gomap_ok_def length_map list.set_map)
  then have "card (set (map fst (it m))) = length (map fst (it m))"
    using len set by simp
  then show ok: "gomap_ok (it m)"
    unfolding gomap_ok_def by (rule card_distinct)
  show "map_of (it m) = map_of m"
    using ok assms(2) set by (simp add: map_of_inject_set gomap_ok_def)
qed

end
