(* ===== verification/Go_Base.thy ===== *)
theory Go_Base
  imports Prelude "HOL-Library.Char_ord"
begin

text \<open>
  The Go values the program computes with: error values with their \<^verbatim>\<open>Error()\<close> texts, decimal
  formatting, the functions of \<^verbatim>\<open>strings\<close> the sources call and the line scanner of \<^verbatim>\<open>bufio\<close>.
  A Go string is a list of bytes, and \<open>char\<close> is a byte.
\<close>

abbreviation (input) nl :: char where "nl \<equiv> CHR 0x0A"
abbreviation (input) cr :: char where "cr \<equiv> CHR 0x0D"
abbreviation (input) sp :: char where "sp \<equiv> CHR '' ''"

subsection \<open>Decimal formatting\<close>

definition digit_chars :: string where
  "digit_chars = ''0123456789''"

fun nat_decimal :: "nat \<Rightarrow> string" where
  "nat_decimal n =
     (if n < 10 then [digit_chars ! n]
      else nat_decimal (n div 10) @ [digit_chars ! (n mod 10)])"

declare nat_decimal.simps [simp del]

definition decimal :: "int \<Rightarrow> string" where
  "decimal i = (if i < 0 then ''-'' @ nat_decimal (nat (- i)) else nat_decimal (nat i))"

lemma nat_decimal_digits: "set (nat_decimal n) \<subseteq> set digit_chars"
proof (induction n rule: nat_decimal.induct)
  case (1 n)
  have digit: "digit_chars ! d \<in> set digit_chars" if "d < 10" for d
    using that by (intro nth_mem) (simp add: digit_chars_def)
  show ?case
  proof (cases "n < 10")
    case True
    with digit show ?thesis by (subst nat_decimal.simps) auto
  next
    case False
    have "n mod 10 < 10" by simp
    with False "1.IH" digit show ?thesis by (subst nat_decimal.simps) auto
  qed
qed

lemma digit_chars_distinct: "distinct digit_chars" "length digit_chars = 10"
  by (simp_all add: digit_chars_def)

lemma nat_decimal_inject: "nat_decimal m = nat_decimal n \<Longrightarrow> m = n"
proof (induction m arbitrary: n rule: nat_decimal.induct)
  case (1 m)
  have digit: "a = b" if "digit_chars ! a = digit_chars ! b" "a < 10" "b < 10" for a b
    using that digit_chars_distinct nth_eq_iff_index_eq by metis
  have ne: "nat_decimal k \<noteq> []" for k by (subst nat_decimal.simps) simp
  have d: "nat_decimal k = (if k < 10 then [] else nat_decimal (k div 10)) @ [digit_chars ! (k mod 10)]" for k
    by (subst nat_decimal.simps) simp
  from 1(2) have e: "(if m < 10 then [] else nat_decimal (m div 10)) = (if n < 10 then [] else nat_decimal (n div 10))"
    "digit_chars ! (m mod 10) = digit_chars ! (n mod 10)"
    unfolding d [of m] d [of n] by simp_all
  from digit [OF e(2)] have r: "m mod 10 = n mod 10" by simp
  have "m div 10 = n div 10"
    using e(1) ne [of "n div 10"] ne [of "m div 10"] 1(1) [of "n div 10"] by (simp split: if_splits)
  with r show ?case by (metis div_mult_mod_eq)
qed

lemma nat_decimal_not_Nil [simp]: "nat_decimal n \<noteq> []"
  by (subst nat_decimal.simps) simp

lemma decimal_chars: "set (decimal i) \<subseteq> insert CHR ''-'' (set digit_chars)"
  using nat_decimal_digits [of "nat i"] nat_decimal_digits [of "nat (- i)"]
  by (simp add: decimal_def) blast

lemma digit_chars_plain: "CHR ''/'' \<notin> set digit_chars" "nl \<notin> set digit_chars"
  "CHR ''.'' \<notin> set digit_chars" "CHR ''-'' \<notin> set digit_chars"
  by (simp_all add: digit_chars_def)

subsection \<open>Error values\<close>

text \<open>
  \<open>ErrorString\<close> is the result of \<^verbatim>\<open>errors.New\<close> and \<^verbatim>\<open>fmt.Errorf\<close>; \<open>PathError\<close> is the error of
  the file calls of \<^verbatim>\<open>os\<close>; \<open>ExitError\<close> that of a child process, with its state as text;
  \<open>WithStack\<close> and \<open>WithMessage\<close> are the wrappers of \<^verbatim>\<open>github.com/pkg/errors\<close> (\<open>Wrap\<close> is one of
  each); \<open>MultiError\<close> is the type of \<^verbatim>\<open>client/client.go\<close>. A Go value of type \<^verbatim>\<open>error\<close> is
  \<open>go_error option\<close>, \<open>None\<close> being \<^verbatim>\<open>nil\<close>.
\<close>

datatype go_error =
    ErrorString string
  | PathError string string go_error
  | ExitError string
  | WithStack go_error
  | WithMessage string go_error
  | MultiError "go_error list"

type_synonym err = "go_error option"

text \<open>\<^verbatim>\<open>MultiError.Error\<close>: a heading when there are several, then one line per error.\<close>

definition MultiError_Error :: "string list \<Rightarrow> string" where
  "MultiError_Error msgs =
     (if length msgs > 1 then ''multiple errors:'' else [])
     @ concat (map (\<lambda>m. [nl] @ m) msgs)"

fun Error :: "go_error \<Rightarrow> string" where
  "Error (ErrorString s) = s"
| "Error (PathError op p e) = op @ '' '' @ p @ '': '' @ Error e"
| "Error (ExitError s) = s"
| "Error (WithStack e) = Error e"
| "Error (WithMessage m e) = m @ '': '' @ Error e"
| "Error (MultiError es) = MultiError_Error (map Error es)"

text \<open>\<^verbatim>\<open>errors.WithStack(nil)\<close> and \<^verbatim>\<open>errors.Wrap(nil, _)\<close> are \<^verbatim>\<open>nil\<close>.\<close>

definition withStack :: "err \<Rightarrow> err" where
  "withStack e = map_option WithStack e"

definition Wrap :: "err \<Rightarrow> string \<Rightarrow> err" where
  "Wrap e msg = map_option (\<lambda>x. WithStack (WithMessage msg x)) e"

lemma withStack_None_iff [simp]: "withStack e = None \<longleftrightarrow> e = None"
  by (simp add: withStack_def)

definition ENOENT :: go_error where "ENOENT = ErrorString ''no such file or directory''"
definition EEXIST :: go_error where "EEXIST = ErrorString ''file exists''"
definition EISDIR :: go_error where "EISDIR = ErrorString ''is a directory''"
definition ENOTDIR :: go_error where "ENOTDIR = ErrorString ''not a directory''"
definition EINVAL :: go_error where "EINVAL = ErrorString ''invalid argument''"
definition ErrUnexpectedEOF :: go_error where
  "ErrUnexpectedEOF = ErrorString ''unexpected EOF''"
definition ErrBadPattern :: go_error where
  "ErrBadPattern = ErrorString ''syntax error in pattern''"

lemmas errno_defs = ENOENT_def EEXIST_def EISDIR_def ENOTDIR_def EINVAL_def
  ErrUnexpectedEOF_def ErrBadPattern_def

text \<open>
  How a call of a Go function can end: it returns, it ends the process through \<^verbatim>\<open>os.Exit\<close>, or
  it panics.
\<close>

datatype 'a run = Returned 'a | OsExit nat | Panicked go_error

definition index_out_of_range :: go_error where
  "index_out_of_range = ErrorString ''runtime error: index out of range''"

subsection \<open>Functions of strings\<close>

text \<open>\<^verbatim>\<open>strings.HasPrefix\<close>, and the first occurrence of a separator byte.\<close>

definition HasPrefix :: "string \<Rightarrow> string \<Rightarrow> bool" where
  "HasPrefix s p \<longleftrightarrow> take (length p) s = p"

fun cut :: "char \<Rightarrow> string \<Rightarrow> (string \<times> string) option" where
  "cut c [] = None"
| "cut c (x # xs) =
     (if x = c then Some ([], xs) else map_option (\<lambda>(a, b). (x # a, b)) (cut c xs))"

text \<open>\<^verbatim>\<open>strings.Contains(s, c)\<close> and \<^verbatim>\<open>strings.SplitN(s, c, 2)\<close> for a one-byte \<open>c\<close>.\<close>

definition Contains1 :: "string \<Rightarrow> char \<Rightarrow> bool" where
  "Contains1 s c \<longleftrightarrow> c \<in> set s"

definition SplitN2 :: "string \<Rightarrow> char \<Rightarrow> string list" where
  "SplitN2 s c = (case cut c s of None \<Rightarrow> [s] | Some (a, b) \<Rightarrow> [a, b])"

lemma cut_append [simp]: "c \<notin> set a \<Longrightarrow> cut c (a @ c # b) = Some (a, b)"
  by (induction a) auto

lemma cut_None_iff: "cut c s = None \<longleftrightarrow> c \<notin> set s"
  by (induction s) auto

lemma cut_SomeD: "cut c s = Some (a, b) \<Longrightarrow> s = a @ c # b \<and> c \<notin> set a"
  by (induction s arbitrary: a b) (auto split: if_splits)

lemma SplitN2_Contains: "Contains1 s c \<Longrightarrow> length (SplitN2 s c) = 2"
  by (auto simp: SplitN2_def Contains1_def cut_None_iff split: option.splits)

subsection \<open>strings.TrimSpace\<close>

text \<open>
  Leading and trailing white space as Unicode defines it, in UTF-8: the ASCII blanks,
  U+0085, U+00A0, U+1680, U+2000 to U+200A, U+2028, U+2029, U+202F, U+205F and U+3000.
\<close>

definition space_seqs :: "string list" where
  "space_seqs =
     [[CHR 0x09], [CHR 0x0A], [CHR 0x0B], [CHR 0x0C], [CHR 0x0D], [CHR 0x20],
      [CHR 0xC2, CHR 0x85], [CHR 0xC2, CHR 0xA0], [CHR 0xE1, CHR 0x9A, CHR 0x80],
      [CHR 0xE2, CHR 0x80, CHR 0x80], [CHR 0xE2, CHR 0x80, CHR 0x81],
      [CHR 0xE2, CHR 0x80, CHR 0x82], [CHR 0xE2, CHR 0x80, CHR 0x83],
      [CHR 0xE2, CHR 0x80, CHR 0x84], [CHR 0xE2, CHR 0x80, CHR 0x85],
      [CHR 0xE2, CHR 0x80, CHR 0x86], [CHR 0xE2, CHR 0x80, CHR 0x87],
      [CHR 0xE2, CHR 0x80, CHR 0x88], [CHR 0xE2, CHR 0x80, CHR 0x89],
      [CHR 0xE2, CHR 0x80, CHR 0x8A], [CHR 0xE2, CHR 0x80, CHR 0xA8],
      [CHR 0xE2, CHR 0x80, CHR 0xA9], [CHR 0xE2, CHR 0x80, CHR 0xAF],
      [CHR 0xE2, CHR 0x81, CHR 0x9F], [CHR 0xE3, CHR 0x80, CHR 0x80]]"

fun strip_one :: "string list \<Rightarrow> string \<Rightarrow> string option" where
  "strip_one [] s = None"
| "strip_one (q # qs) s =
     (if q \<noteq> [] \<and> HasPrefix s q then Some (drop (length q) s) else strip_one qs s)"

lemma strip_one_shorter: "strip_one qs s = Some r \<Longrightarrow> length r < length s"
proof (induction qs)
  case (Cons q qs)
  show ?case
  proof (cases "q \<noteq> [] \<and> HasPrefix s q")
    case True
    then have "length q \<le> length s"
      unfolding HasPrefix_def by (metis append_take_drop_id length_append le_add1)
    moreover from True have "0 < length q" by simp
    moreover from True Cons.prems have "length r = length s - length q" by auto
    ultimately show ?thesis by arith
  next
    case False
    with Cons show ?thesis by auto
  qed
qed simp

function trim_with :: "string list \<Rightarrow> string \<Rightarrow> string" where
  "trim_with qs s = (case strip_one qs s of None \<Rightarrow> s | Some r \<Rightarrow> trim_with qs r)"
  by pat_completeness auto
termination
  by (relation "measure (\<lambda>(qs, s). length s)") (auto dest: strip_one_shorter)

declare trim_with.simps [simp del]

definition trim_left :: "string \<Rightarrow> string" where
  "trim_left s = trim_with space_seqs s"

definition trim_right :: "string \<Rightarrow> string" where
  "trim_right s = rev (trim_with (map rev space_seqs) (rev s))"

definition TrimSpace :: "string \<Rightarrow> string" where
  "TrimSpace s = trim_right (trim_left s)"

text \<open>A string with no white space at either end, which trimming leaves alone.\<close>

definition trimmed :: "string \<Rightarrow> bool" where
  "trimmed s \<longleftrightarrow> strip_one space_seqs s = None \<and> strip_one (map rev space_seqs) (rev s) = None"

lemma strip_one_None_iff: "strip_one qs s = None \<longleftrightarrow> (\<forall>q \<in> set qs. q \<noteq> [] \<longrightarrow> \<not> HasPrefix s q)"
  by (induction qs) auto

lemma trim_with_stop: "strip_one qs s = None \<Longrightarrow> trim_with qs s = s"
  by (simp add: trim_with.simps [of qs s])

lemma trim_with_done: "strip_one qs (trim_with qs s) = None"
  by (induction qs s rule: trim_with.induct) (subst trim_with.simps, auto split: option.split)

lemma TrimSpace_trimmed: "trimmed s \<Longrightarrow> TrimSpace s = s"
  by (simp add: trimmed_def TrimSpace_def trim_left_def trim_right_def trim_with_stop)

lemma trim_with_suffix: "\<exists>p. s = p @ trim_with qs s"
proof (induction qs s rule: trim_with.induct)
  case (1 qs s)
  show ?case
  proof (cases "strip_one qs s")
    case None
    then show ?thesis by (simp add: trim_with_stop)
  next
    case (Some r)
    from 1 [OF this] obtain p where p: "r = p @ trim_with qs r" by blast
    have "\<exists>p'. s = p' @ r" using Some
      by (induction qs) (auto split: if_splits intro: append_take_drop_id [symmetric])
    with p show ?thesis by (metis Some append.assoc option.simps(5) trim_with.simps)
  qed
qed

lemma set_TrimSpace: "set (TrimSpace s) \<subseteq> set s"
proof -
  obtain p where "s = p @ trim_left s" unfolding trim_left_def using trim_with_suffix by blast
  then have l: "set (trim_left s) \<subseteq> set s" by (metis set_append sup_ge2)
  obtain q where "rev (trim_left s) = q @ trim_with (map rev space_seqs) (rev (trim_left s))"
    using trim_with_suffix by blast
  then have "set (trim_with (map rev space_seqs) (rev (trim_left s))) \<subseteq> set (trim_left s)"
    by (metis set_append set_rev sup_ge2)
  with l show ?thesis by (simp add: TrimSpace_def trim_right_def)
qed

text \<open>One blank in front of, or behind, a trimmed string is trimmed away.\<close>

lemma strip_one_blank: "strip_one space_seqs (sp # s) = Some s"
  by (simp add: space_seqs_def HasPrefix_def)

lemma strip_one_blank_rev: "strip_one (map rev space_seqs) (sp # s) = Some s"
  by (simp add: space_seqs_def HasPrefix_def)

lemma TrimSpace_blank_left: "trimmed s \<Longrightarrow> TrimSpace (sp # s) = s"
  by (simp add: trimmed_def TrimSpace_def trim_left_def trim_right_def trim_with_stop
      trim_with.simps [of space_seqs "sp # s"] strip_one_blank)

lemma HasPrefix_snoc:
  assumes "HasPrefix (s @ [c]) q" and "q = [] \<or> last q \<noteq> c"
  shows "HasPrefix s q"
proof (cases "length q \<le> length s")
  case True
  with assms(1) show ?thesis by (simp add: HasPrefix_def)
next
  case False
  with assms(1) have "q = s @ [c]"
    unfolding HasPrefix_def by (metis length_append_singleton not_less_eq_eq take_all)
  with assms(2) show ?thesis by simp
qed

lemma space_seqs_last: "q \<in> set space_seqs \<Longrightarrow> q = [sp] \<or> last q \<noteq> sp"
  by (auto simp: space_seqs_def)

lemma strip_one_snoc_blank:
  assumes "s \<noteq> []" and "strip_one space_seqs s = None"
  shows "strip_one space_seqs (s @ [sp]) = None"
  unfolding strip_one_None_iff
proof (intro ballI impI notI)
  fix q
  assume q: "q \<in> set space_seqs" "q \<noteq> []" "HasPrefix (s @ [sp]) q"
  from space_seqs_last [OF q(1)] show False
  proof
    assume "q = [sp]"
    with q(3) assms(1) have "HasPrefix s q" by (cases s) (auto simp: HasPrefix_def)
    with assms(2) q show False by (auto simp: strip_one_None_iff)
  next
    assume "last q \<noteq> sp"
    with q have "HasPrefix s q" by (blast intro: HasPrefix_snoc)
    with assms(2) q show False by (auto simp: strip_one_None_iff)
  qed
qed

lemma TrimSpace_blank_right:
  assumes "trimmed s"
  shows "TrimSpace (s @ [sp]) = s"
proof (cases "s = []")
  case True
  with assms show ?thesis using TrimSpace_blank_left [of "[]"] by simp
next
  case False
  with assms have "trim_left (s @ [sp]) = s @ [sp]"
    by (simp add: trim_left_def trim_with_stop strip_one_snoc_blank trimmed_def)
  with assms show ?thesis
    by (simp add: TrimSpace_def trim_right_def trimmed_def trim_with_stop
        trim_with.simps [of "map rev space_seqs" "sp # rev s"] strip_one_blank_rev)
qed

subsection \<open>bufio.Scanner over lines\<close>

text \<open>
  \<^verbatim>\<open>bufio.NewScanner\<close> with its default split function and its default limit: a line is
  returned without its newline and one carriage return before it; the last line need not
  end in a newline; a line that does not fit in the buffer of \<open>MaxScanTokenSize\<close> bytes
  (with its newline) stops the scan, which is the flag \<open>False\<close> (\<^verbatim>\<open>scanner.Err()\<close> is then
  \<^verbatim>\<open>bufio.ErrTooLong\<close>).
\<close>

definition MaxScanTokenSize :: nat where
  "MaxScanTokenSize = 65536"

definition too_long :: "string \<Rightarrow> bool" where
  "too_long l \<longleftrightarrow> MaxScanTokenSize \<le> length l"

lemma too_long_code [code]: "too_long l \<longleftrightarrow> (65536 :: int) \<le> int (length l)"
  by (simp add: too_long_def MaxScanTokenSize_def)

definition dropCR :: "string \<Rightarrow> string" where
  "dropCR l = (if l \<noteq> [] \<and> last l = cr then butlast l else l)"

function scan_lines :: "string \<Rightarrow> string list \<times> bool" where
  "scan_lines s =
     (if s = [] then ([], True)
      else let l = takeWhile (\<lambda>c. c \<noteq> nl) s; r = dropWhile (\<lambda>c. c \<noteq> nl) s in
        if too_long l then ([], False)
        else if r = [] then ([dropCR l], True)
        else let (ls, ok) = scan_lines (tl r) in (dropCR l # ls, ok))"
  by pat_completeness auto
termination
proof (relation "measure length", goal_cases)
  case 1
  show ?case by simp
next
  case (2 s l r)
  have "length r \<le> length s" using 2 by (simp add: length_dropWhile_le)
  with 2(5) show ?case by (cases r) auto
qed

declare scan_lines.simps [simp del]

lemma scan_lines_Nil [simp]: "scan_lines [] = ([], True)"
  by (subst scan_lines.simps) simp

text \<open>One complete line in front of the rest, as the writer of lines produces it.\<close>

lemma scan_lines_line:
  assumes "nl \<notin> set l" and "length l < MaxScanTokenSize"
  shows "scan_lines (l @ nl # s) = (dropCR l # fst (scan_lines s), snd (scan_lines s))"
proof -
  have "takeWhile (\<lambda>c. c \<noteq> nl) (l @ nl # s) = l" "dropWhile (\<lambda>c. c \<noteq> nl) (l @ nl # s) = nl # s"
    using assms(1) by (induction l) auto
  with assms(2) show ?thesis
    by (subst scan_lines.simps) (simp add: Let_def too_long_def split: prod.split)
qed

lemma scan_lines_lines:
  assumes "\<forall>l \<in> set ls. nl \<notin> set l \<and> length l < MaxScanTokenSize"
  shows "scan_lines (concat (map (\<lambda>l. l @ [nl]) ls)) = (map dropCR ls, True)"
  using assms by (induction ls) (auto simp: scan_lines_line)

text \<open>A line that is too long hides everything from it on.\<close>

lemma scan_lines_too_long:
  assumes "nl \<notin> set l" and "MaxScanTokenSize \<le> length l"
  shows "scan_lines (l @ s) = ([], False)"
proof -
  from assms(1) have "takeWhile (\<lambda>c. c \<noteq> nl) (l @ s) = l @ takeWhile (\<lambda>c. c \<noteq> nl) s"
    by (intro takeWhile_append2) blast
  moreover from assms(2) have "l @ s \<noteq> []" by (auto simp: MaxScanTokenSize_def)
  ultimately show ?thesis using assms(2)
    by (subst scan_lines.simps) (simp add: Let_def too_long_def)
qed

end
