(* ===== verification/Go_Path.thy ===== *)
theory Go_Path
  imports Go_Base
begin

text \<open>
  Paths as \<^verbatim>\<open>path\<close> and \<^verbatim>\<open>path/filepath\<close> process them: \<^verbatim>\<open>Clean\<close>, \<^verbatim>\<open>Join\<close>, and the list of
  components a path names. Symbolic links are not modelled; the working directory is the
  root of the modelled tree.
\<close>

subsection \<open>Paths\<close>

fun split_on :: "char \<Rightarrow> string \<Rightarrow> string list" where
  "split_on c [] = [[]]"
| "split_on c (x # xs) =
     (if x = c then [] # split_on c xs
      else case split_on c xs of [] \<Rightarrow> [[x]] | y # ys \<Rightarrow> (x # y) # ys)"

fun join_with :: "char \<Rightarrow> string list \<Rightarrow> string" where
  "join_with c [] = []"
| "join_with c [x] = x"
| "join_with c (x # y # ys) = x @ c # join_with c (y # ys)"

definition dot :: string where "dot = ''.''"

definition dotdot :: string where "dotdot = ''..''"

lemma dots_distinct [simp]: "dot \<noteq> []" "dotdot \<noteq> []" "dot \<noteq> dotdot" "dotdot \<noteq> dot"
  by (simp_all add: dot_def dotdot_def)

text \<open>
  The lexical processing of \<^verbatim>\<open>path.Clean\<close> on the list of components, with a stack of the
  components kept so far; \<open>pop_comp\<close> is what \<^verbatim>\<open>..\<close> does to the stack.
\<close>

fun pop_comp :: "bool \<Rightarrow> string list \<Rightarrow> string list" where
  "pop_comp r [] = (if r then [] else [dotdot])"
| "pop_comp r (a # as) = (if a = dotdot then dotdot # a # as else as)"

fun clean_comps :: "bool \<Rightarrow> string list \<Rightarrow> string list \<Rightarrow> string list" where
  "clean_comps r acc [] = rev acc"
| "clean_comps r acc (c # cs) =
     clean_comps r (if c = [] \<or> c = dot then acc
                    else if c = dotdot then pop_comp r acc else c # acc) cs"

definition rooted :: "string \<Rightarrow> bool" where
  "rooted p \<longleftrightarrow> HasPrefix p ''/''"

definition path_Clean :: "string \<Rightarrow> string" where
  "path_Clean p =
     (let cs = clean_comps (rooted p) [] (split_on CHR ''/'' p)
      in if rooted p then ''/'' @ join_with CHR ''/'' cs
         else if cs = [] then dot else join_with CHR ''/'' cs)"

text \<open>\<^verbatim>\<open>path.Join\<close> (and \<^verbatim>\<open>filepath.Join\<close>) of two elements: empty elements are ignored.\<close>

definition path_Join :: "string \<Rightarrow> string \<Rightarrow> string" where
  "path_Join a b =
     (if a = [] \<and> b = [] then []
      else if a = [] then path_Clean b
      else if b = [] then path_Clean a
      else path_Clean (a @ ''/'' @ b))"

text \<open>The file a path names, as the list of components from the root.\<close>

definition resolve :: "string \<Rightarrow> string list" where
  "resolve p = clean_comps True [] (split_on CHR ''/'' p)"

text \<open>An ordinary file name.\<close>

definition plain_name :: "string \<Rightarrow> bool" where
  "plain_name n \<longleftrightarrow> n \<noteq> [] \<and> n \<noteq> dot \<and> n \<noteq> dotdot \<and> CHR ''/'' \<notin> set n"

lemma split_on_not_Nil [simp]: "split_on c s \<noteq> []"
  by (cases s) (auto split: list.split)

lemma split_on_plain: "c \<notin> set s \<Longrightarrow> split_on c s = [s]"
  by (induction s) auto

lemma split_on_append: "c \<notin> set a \<Longrightarrow> split_on c (a @ c # b) = a # split_on c b"
  by (induction a) auto

lemma split_on_snoc: "c \<notin> set b \<Longrightarrow> split_on c (a @ c # b) = split_on c a @ [b]"
proof (induction a)
  case Nil
  then show ?case by (simp add: split_on_plain)
next
  case (Cons x a)
  show ?case
  proof (cases "split_on c a")
    case Nil
    then show ?thesis by simp
  next
    case (Cons y ys)
    with Cons.IH Cons.prems show ?thesis by auto
  qed
qed

lemma split_on_join: "cs \<noteq> [] \<Longrightarrow> \<forall>x \<in> set cs. c \<notin> set x \<Longrightarrow> split_on c (join_with c cs) = cs"
  by (induction cs rule: join_with.induct) (auto simp: split_on_plain split_on_append)

lemma split_on_chars: "x \<in> set (split_on c s) \<Longrightarrow> c \<notin> set x"
  by (induction s arbitrary: x) (auto split: list.splits if_splits)

lemma clean_comps_plain_snoc:
  "plain_name n \<Longrightarrow> clean_comps r acc (cs @ [n]) = clean_comps r acc cs @ [n]"
  by (induction cs arbitrary: acc) (simp_all add: plain_name_def)

lemma set_pop_comp: "set (pop_comp r acc) \<subseteq> insert dotdot (set acc)"
  by (cases acc) auto

lemma set_pop_comp_rooted: "dotdot \<notin> set acc \<Longrightarrow> set (pop_comp True acc) \<subseteq> set acc"
  by (cases acc) auto

text \<open>The components kept for a rooted path are ordinary names.\<close>

lemma clean_comps_rooted_plain:
  assumes "\<forall>x \<in> set acc. plain_name x" and "\<forall>x \<in> set cs. CHR ''/'' \<notin> set x"
  shows "\<forall>x \<in> set (clean_comps True acc cs). plain_name x"
  using assms
proof (induction cs arbitrary: acc)
  case Nil
  then show ?case by simp
next
  case (Cons c cs)
  from Cons.prems(1) have "dotdot \<notin> set acc" by (auto simp: plain_name_def)
  from set_pop_comp_rooted [OF this] Cons.prems
  have "\<forall>x \<in> set (if c = [] \<or> c = dot then acc
      else if c = dotdot then pop_comp True acc else c # acc). plain_name x"
    by (simp add: plain_name_def) blast
  from Cons.IH [OF this] Cons.prems(2) show ?case by simp
qed

lemma resolve_plain: "x \<in> set (resolve p) \<Longrightarrow> plain_name x"
  using clean_comps_rooted_plain [of "[]" "split_on CHR ''/'' p"] split_on_chars
  by (auto simp: resolve_def)

text \<open>Cleaning does not change which file a path names.\<close>

lemma clean_comps_all_plain:
  "\<forall>x \<in> set cs. plain_name x \<Longrightarrow> clean_comps r acc cs = rev acc @ cs"
  by (induction cs arbitrary: acc) (auto simp: plain_name_def)

text \<open>A relative path keeps its leading \<^verbatim>\<open>..\<close> elements, which a rooted one drops.\<close>

lemma pop_comp_dots:
  assumes "dotdot \<notin> set acc"
  shows "\<exists>j'. pop_comp False (acc @ replicate j dotdot) = pop_comp True acc @ replicate j' dotdot"
proof (cases acc)
  case Nil
  have "pop_comp False (replicate j dotdot) = replicate (Suc j) dotdot"
    by (cases j) simp_all
  with Nil show ?thesis by (metis append_Nil pop_comp.simps(1))
next
  case (Cons a as)
  with assms show ?thesis by auto
qed

lemma clean_comps_split_dots:
  assumes "dotdot \<notin> set acc"
  shows "\<exists>k. clean_comps False (acc @ replicate j dotdot) cs
    = replicate k dotdot @ clean_comps True acc cs"
  using assms
proof (induction cs arbitrary: acc j)
  case Nil
  then show ?case by auto
next
  case (Cons c cs)
  consider "c = [] \<or> c = dot" | "c = dotdot" | "c \<noteq> []" "c \<noteq> dot" "c \<noteq> dotdot" by blast
  then show ?case
  proof cases
    case 1
    with Cons show ?thesis by auto
  next
    case 2
    obtain j' where "pop_comp False (acc @ replicate j dotdot)
        = pop_comp True acc @ replicate j' dotdot"
      using pop_comp_dots [OF Cons.prems] by blast
    moreover have "dotdot \<notin> set (pop_comp True acc)"
      using set_pop_comp_rooted [OF Cons.prems] Cons.prems by blast
    ultimately show ?thesis using Cons.IH 2 by simp
  next
    case 3
    with Cons.prems Cons.IH [of "c # acc" j] show ?thesis by simp
  qed
qed

lemma clean_comps_drop_dots:
  "clean_comps True [] (replicate k dotdot @ cs) = clean_comps True [] cs"
  by (induction k) auto

lemma clean_comps_no_slash:
  assumes "\<forall>x \<in> set acc. CHR ''/'' \<notin> set x" and "\<forall>x \<in> set cs. CHR ''/'' \<notin> set x"
  shows "\<forall>x \<in> set (clean_comps r acc cs). CHR ''/'' \<notin> set x"
  using assms
proof (induction cs arbitrary: acc)
  case Nil
  then show ?case by simp
next
  case (Cons c cs)
  have "CHR ''/'' \<notin> set dotdot" by (simp add: dotdot_def)
  with Cons.prems set_pop_comp [of r acc]
  have "\<forall>x \<in> set (if c = [] \<or> c = dot then acc
      else if c = dotdot then pop_comp r acc else c # acc). CHR ''/'' \<notin> set x"
    by (simp split: if_split) blast
  from Cons.IH [OF this] Cons.prems(2) show ?case by simp
qed

lemma resolve_Clean [simp]: "resolve (path_Clean p) = resolve p"
proof -
  let ?s = "split_on CHR ''/'' p"
  let ?cs = "clean_comps (rooted p) [] ?s"
  have ns: "\<forall>x \<in> set ?cs. CHR ''/'' \<notin> set x"
    by (rule clean_comps_no_slash) (auto dest: split_on_chars)
  have idem: "clean_comps True [] (clean_comps True [] ?s) = clean_comps True [] ?s"
    using clean_comps_rooted_plain [of "[]" ?s] split_on_chars
    by (subst clean_comps_all_plain) auto
  have res: "clean_comps True [] ?cs = clean_comps True [] ?s"
  proof (cases "rooted p")
    case True
    with idem show ?thesis by simp
  next
    case False
    with clean_comps_split_dots [of "[]" 0 ?s] idem show ?thesis
      by (auto simp: clean_comps_drop_dots)
  qed
  have join: "split_on CHR ''/'' (join_with CHR ''/'' ?cs) = ?cs" if "?cs \<noteq> []"
    using that ns by (rule split_on_join)
  show ?thesis
  proof (cases "?cs = []")
    case True
    with res show ?thesis
      by (auto simp: resolve_def path_Clean_def Let_def dot_def split_on_plain)
  next
    case False
    with join res show ?thesis
      by (cases "rooted p") (simp_all add: resolve_def path_Clean_def)
  qed
qed

text \<open>Joining an ordinary name to a directory names the entry of the directory.\<close>

lemma resolve_Join_plain [simp]:
  assumes "plain_name n"
  shows "resolve (path_Join d n) = resolve d @ [n]"
proof -
  have n: "n \<noteq> []" "CHR ''/'' \<notin> set n" using assms by (auto simp: plain_name_def)
  show ?thesis
  proof (cases "d = []")
    case True
    with n assms show ?thesis
      by (simp add: path_Join_def) (simp add: resolve_def split_on_plain plain_name_def)
  next
    case False
    with n assms show ?thesis
      by (simp add: path_Join_def) (simp add: resolve_def split_on_snoc clean_comps_plain_snoc)
  qed
qed

end
