(* ===== verification/Lager.thy ===== *)
theory Lager
  imports Go_Base
begin

text \<open>
  The logger the program writes to (\<^verbatim>\<open>code.cloudfoundry.org/lager/v3\<close>, vendored): levels, loggers
  with their session prefix and data, entries, and the level filter of a sink. An entry
  keeps what the code passes to the call; time stamps and stack traces are left out.
\<close>

datatype log_level = DEBUG | INFO | ERROR | FATAL

fun log_rank :: "log_level \<Rightarrow> nat" where
  "log_rank DEBUG = 0"
| "log_rank INFO = 1"
| "log_rank ERROR = 2"
| "log_rank FATAL = 3"

lemma log_rank_inj: "log_rank a = log_rank b \<Longrightarrow> a = b"
  by (cases a; cases b) auto

text \<open>Levels are ordered by severity, so that a sink's threshold is a comparison.\<close>

instantiation log_level :: linorder
begin

definition less_eq_log_level :: "log_level \<Rightarrow> log_level \<Rightarrow> bool" where
  "less_eq_log_level a b \<longleftrightarrow> log_rank a \<le> log_rank b"

definition less_log_level :: "log_level \<Rightarrow> log_level \<Rightarrow> bool" where
  "less_log_level a b \<longleftrightarrow> log_rank a < log_rank b"

instance
  by standard (auto simp: less_eq_log_level_def less_log_level_def intro: log_rank_inj)

end

lemmas log_order_simps = less_eq_log_level_def less_log_level_def

datatype log_value = LStr string | LStrs "string list" | LBytes string | LCmd string "string list"

record log_entry =
  le_level :: log_level
  le_message :: string
  le_error :: err
  le_data :: "(string \<times> log_value) list"

record logger =
  lg_task :: string
  lg_sessionID :: string
  lg_data :: "(string \<times> log_value) list"

definition NewLogger :: "string \<Rightarrow> logger" where
  "NewLogger component = \<lparr>lg_task = component, lg_sessionID = [], lg_data = []\<rparr>"

text \<open>\<^verbatim>\<open>baseData\<close>: the logger's own data, overridden by the call's, then the session id.\<close>

definition baseData :: "logger \<Rightarrow> (string \<times> log_value) list \<Rightarrow> (string \<times> log_value) list" where
  "baseData lg given =
     (let d = fold (\<lambda>(k, v). AList.update k v) given (lg_data lg)
      in if lg_sessionID lg \<noteq> [] then AList.update ''session'' (LStr (lg_sessionID lg)) d else d)"

text \<open>\<^verbatim>\<open>Session\<close>, with the number the parent's counter has reached.\<close>

definition Session :: "logger \<Rightarrow> nat \<Rightarrow> string \<Rightarrow> (string \<times> log_value) list \<Rightarrow> logger" where
  "Session lg n task data =
     \<lparr>lg_task = lg_task lg @ ''.'' @ task,
      lg_sessionID = (if lg_sessionID lg \<noteq> [] then lg_sessionID lg @ ''.'' @ nat_decimal n
                      else nat_decimal n),
      lg_data = baseData lg data\<rparr>"

definition log_entry_of ::
  "logger \<Rightarrow> log_level \<Rightarrow> string \<Rightarrow> err \<Rightarrow> (string \<times> log_value) list \<Rightarrow> log_entry" where
  "log_entry_of lg lvl action e data =
     \<lparr>le_level = lvl, le_message = lg_task lg @ ''.'' @ action, le_error = e,
      le_data = (case e of None \<Rightarrow> baseData lg data
                 | Some x \<Rightarrow> AList.update ''error'' (LStr (Error x)) (baseData lg data))\<rparr>"

text \<open>What a sink with a minimal level lets through.\<close>

definition sink_entries :: "log_level \<Rightarrow> log_entry list \<Rightarrow> log_entry list" where
  "sink_entries lvl es = filter (\<lambda>e. lvl \<le> le_level e) es"

lemma sink_entries_mono: "a \<le> b \<Longrightarrow> set (sink_entries b es) \<subseteq> set (sink_entries a es)"
  by (auto simp: sink_entries_def)

end
