(* ===== verification/Go_OS.thy ===== *)
theory Go_OS
  imports Go_Path Lager "HOL-Library.List_Lexorder"
begin

text \<open>
  The operating system under the program: a file system, and the calls of \<^verbatim>\<open>os\<close>,
  \<^verbatim>\<open>io/ioutil\<close> and \<^verbatim>\<open>path/filepath\<close> that the sources make. Everything the program can
  change is in one record \<open>world\<close>; everything it cannot control is in \<open>os_env\<close>, which can make
  any single call fail, make a failing write or removal take effect in part, and chooses
  random names and the time. Permissions are not modelled: a refused permission is a
  failing call.
\<close>

subsection \<open>The file system\<close>

text \<open>
  A tree, flattened: each entry is under the list of its path components. The root
  exists always and has no entry. A file has its mode bits and its bytes.
\<close>

datatype node = Dir | File int string

type_synonym fs = "(string list \<times> node) list"

definition fs_lookup :: "fs \<Rightarrow> string list \<Rightarrow> node option" where
  "fs_lookup fs p = (if p = [] then Some Dir else map_of fs p)"

definition fs_put :: "string list \<Rightarrow> node \<Rightarrow> fs \<Rightarrow> fs" where
  "fs_put p n fs = AList.update p n fs"

text \<open>A well-formed tree: one entry per path, none for the root, parents are directories.\<close>

definition fs_wf :: "fs \<Rightarrow> bool" where
  "fs_wf fs \<longleftrightarrow> distinct (map fst fs) \<and>
     (\<forall>p \<in> set (map fst fs). p \<noteq> [] \<and> fs_lookup fs (butlast p) = Some Dir)"

lemma fs_lookup_put:
  "p \<noteq> [] \<Longrightarrow> fs_lookup (fs_put p n fs) q = (if q = p then Some n else fs_lookup fs q)"
  by (simp add: fs_lookup_def fs_put_def update_conv')

lemma fs_lookup_dom: "fs_lookup fs p = Some n \<Longrightarrow> p = [] \<or> p \<in> set (map fst fs)"
  by (auto simp: fs_lookup_def image_iff split: if_splits dest!: map_of_SomeD intro: bexI [rotated])

lemma fs_wf_parent:
  "fs_wf fs \<Longrightarrow> fs_lookup fs p = Some n \<Longrightarrow> p \<noteq> [] \<Longrightarrow> fs_lookup fs (butlast p) = Some Dir"
  using fs_lookup_dom by (fastforce simp: fs_wf_def)

lemma fs_wf_put:
  assumes "fs_wf fs" and "p \<noteq> []" and "fs_lookup fs (butlast p) = Some Dir"
    and "n = Dir \<or> fs_lookup fs p \<noteq> Some Dir"
  shows "fs_wf (fs_put p n fs)"
proof -
  have keys: "set (map fst (fs_put p n fs)) = insert p (set (map fst fs))"
    by (simp add: fs_put_def dom_update)
  have bl: "butlast p \<noteq> p" using assms(2) by (metis append_butlast_last_id append_self_conv not_Cons_self2)
  have "fs_lookup (fs_put p n fs) (butlast q) = Some Dir"
    if "q \<in> insert p (set (map fst fs))" for q
    using that assms bl by (auto simp: fs_lookup_put fs_wf_def)
  with assms(1,2) keys show ?thesis
    by (auto simp: fs_wf_def fs_put_def distinct_update)
qed

text \<open>
  How the kernel walks to the directory of a path: the first element that is missing or
  not a directory is the error.
\<close>

fun walk_err :: "fs \<Rightarrow> string list \<Rightarrow> string list \<Rightarrow> err" where
  "walk_err fs pre [] = None"
| "walk_err fs pre [c] = None"
| "walk_err fs pre (c # d # cs) =
     (case fs_lookup fs (pre @ [c]) of
        None \<Rightarrow> Some ENOENT
      | Some (File _ _) \<Rightarrow> Some ENOTDIR
      | Some Dir \<Rightarrow> walk_err fs (pre @ [c]) (d # cs))"

lemma walk_err_parent:
  assumes "walk_err fs pre cs = None" and "cs \<noteq> []" and "fs_lookup fs pre = Some Dir"
  shows "fs_lookup fs (pre @ butlast cs) = Some Dir"
  using assms
proof (induction fs pre cs rule: walk_err.induct)
  case (3 fs pre c d cs)
  then have "fs_lookup fs (pre @ [c]) = Some Dir"
    by (auto split: option.splits node.splits)
  with 3 show ?case by simp
qed simp_all

lemma walk_err_wf:
  assumes "fs_wf fs" and "fs_lookup fs (pre @ butlast cs) = Some Dir"
  shows "walk_err fs pre cs = None"
  using assms(2)
proof (induction cs arbitrary: pre)
  case (Cons c cs)
  show ?case
  proof (cases cs)
    case (Cons d ds)
    have up: "fs_lookup fs q = Some Dir" if "fs_lookup fs (q @ r) = Some Dir" for q r
      using that
    proof (induction r rule: rev_induct)
      case (snoc x r)
      then have "fs_lookup fs (butlast (q @ r @ [x])) = Some Dir"
        using assms(1) fs_lookup_dom [OF snoc.prems] by (auto simp: fs_wf_def)
      with snoc.IH show ?case by (simp add: butlast_append)
    qed simp
    from Cons Cons.prems have c: "fs_lookup fs (pre @ [c]) = Some Dir"
      by (intro up [of "pre @ [c]" "butlast cs"]) simp
    from Cons Cons.prems have "fs_lookup fs ((pre @ [c]) @ butlast cs) = Some Dir" by simp
    from Cons.IH [OF this] c Cons show ?thesis by simp
  qed simp
qed simp

text \<open>The entries strictly inside, and at or below, a path.\<close>

definition within :: "string list \<Rightarrow> string list \<Rightarrow> bool" where
  "within d p \<longleftrightarrow> prefix d p"

lemma within_code [code]: "within d p \<longleftrightarrow> take (length d) p = d"
  by (auto simp: within_def prefix_def) (metis append_take_drop_id)

lemma within_refl [simp]: "within d d"
  by (simp add: within_def)

lemma within_trans: "within a b \<Longrightarrow> within b c \<Longrightarrow> within a c"
  by (simp add: within_def)

lemma within_snoc: "within d (d @ [n])"
  by (simp add: within_def)

lemma within_butlast: "within d (butlast p) \<Longrightarrow> within d p"
  by (metis append_butlast_last_id butlast.simps(1) prefix_order.trans prefixI within_def)

text \<open>Removing a whole subtree, except for the entries that survive and their parents.\<close>

definition fs_remove :: "string list \<Rightarrow> (string list \<Rightarrow> bool) \<Rightarrow> fs \<Rightarrow> fs" where
  "fs_remove d keep fs =
     filter (\<lambda>(p, _). \<not> within d p \<or> list_ex (\<lambda>(q, _). within p q \<and> keep q) fs) fs"

lemma fs_lookup_remove:
  "fs_lookup (fs_remove d keep fs) p =
     (if p = [] \<or> \<not> within d p \<or> list_ex (\<lambda>(q, _). within p q \<and> keep q) fs
      then fs_lookup fs p else None)"
  by (simp add: fs_lookup_def fs_remove_def filter_keys_map_of)

lemma fs_lookup_remove_other: "\<not> within d p \<Longrightarrow> fs_lookup (fs_remove d keep fs) p = fs_lookup fs p"
  by (simp add: fs_lookup_remove)

lemma fs_lookup_remove_none [simp]:
  "fs_lookup (fs_remove d (\<lambda>_. False) fs) p = (if p \<noteq> [] \<and> within d p then None else fs_lookup fs p)"
  by (auto simp: fs_lookup_remove list_ex_iff)

lemma fs_wf_remove:
  assumes "fs_wf fs" and "d \<noteq> []"
  shows "fs_wf (fs_remove d keep fs)"
proof -
  have "fs_lookup (fs_remove d keep fs) (butlast p) = Some Dir"
    if "p \<in> set (map fst (fs_remove d keep fs))" for p
  proof -
    from that have p: "p \<in> set (map fst fs)" and
      k: "\<not> within d p \<or> list_ex (\<lambda>(q, _). within p q \<and> keep q) fs"
      by (auto simp: fs_remove_def)
    from p assms(1) have "fs_lookup fs (butlast p) = Some Dir" by (auto simp: fs_wf_def)
    moreover have "within (butlast p) q" if "within p q" for q
      using that by (metis append_butlast_last_id butlast.simps(1) prefix_def within_def append.assoc)
    ultimately show ?thesis
      using k within_butlast [of d p] by (auto simp: fs_lookup_remove list_ex_iff)
  qed
  with assms(1) show ?thesis
    by (auto simp: fs_wf_def fs_remove_def distinct_map_filter)
qed

subsection \<open>Processes, the world and its environment\<close>

text \<open>A command as \<^verbatim>\<open>exec.Command\<close> builds it: the program and its arguments.\<close>

record cmd =
  cmd_name :: string
  cmd_args :: "string list"

definition exec_Command :: "string \<Rightarrow> string list \<Rightarrow> cmd" where
  "exec_Command name args = \<lparr>cmd_name = name, cmd_args = args\<rparr>"

text \<open>
  The world: the file system, how many calls, random names, clock readings and logger
  sessions there have been, the log, and the child processes that were started and not
  waited for.
\<close>

record world =
  w_fs :: fs
  w_calls :: nat
  w_draws :: nat
  w_clock :: nat
  w_sessions :: nat
  w_logs :: "log_entry list"
  w_procs :: "cmd list"

definition new_world :: "fs \<Rightarrow> world" where
  "new_world fs = \<lparr>w_fs = fs, w_calls = 0, w_draws = 0, w_clock = 0, w_sessions = 0,
     w_logs = [], w_procs = []\<rparr>"

text \<open>
  The environment: \<open>os_fault n\<close> is the error the \<open>n\<close>-th call meets (\<open>None\<close>: it behaves as the
  file system says), \<open>os_partial n\<close> how many bytes a failing read or write still moves,
  \<open>os_survives n\<close> which entries a failing removal leaves, \<open>os_rand\<close> and \<open>os_now\<close> the random
  numbers and Unix times drawn, \<open>os_tmp\<close> the default temporary directory.
\<close>

record os_env =
  os_fault :: "nat \<Rightarrow> err"
  os_partial :: "nat \<Rightarrow> nat"
  os_survives :: "nat \<Rightarrow> string list \<Rightarrow> bool"
  os_rand :: "nat \<Rightarrow> nat"
  os_now :: "nat \<Rightarrow> int"
  os_tmp :: string

definition no_faults :: "os_env \<Rightarrow> bool" where
  "no_faults E \<longleftrightarrow> os_fault E = (\<lambda>_. None)"

definition ticked :: "world \<Rightarrow> world" where
  "ticked w = w\<lparr>w_calls := Suc (w_calls w)\<rparr>"

definition fault_now :: "os_env \<Rightarrow> world \<Rightarrow> err" where
  "fault_now E w = os_fault E (w_calls w)"

definition add_log :: "log_entry \<Rightarrow> world \<Rightarrow> world" where
  "add_log e w = w\<lparr>w_logs := w_logs w @ [e]\<rparr>"

definition time_now :: "os_env \<Rightarrow> world \<Rightarrow> int \<times> world" where
  "time_now E w = (os_now E (w_clock w), w\<lparr>w_clock := Suc (w_clock w)\<rparr>)"

lemma fault_now_none [simp]: "no_faults E \<Longrightarrow> fault_now E w = None"
  by (simp add: no_faults_def fault_now_def)

lemma ticked_simps [simp]:
  "w_fs (ticked w) = w_fs w" "w_logs (ticked w) = w_logs w" "w_procs (ticked w) = w_procs w"
  "w_clock (ticked w) = w_clock w" "w_sessions (ticked w) = w_sessions w"
  "w_calls (ticked w) = Suc (w_calls w)" "w_draws (ticked w) = w_draws w"
  by (simp_all add: ticked_def)

lemma add_log_simps [simp]:
  "w_fs (add_log e w) = w_fs w" "w_procs (add_log e w) = w_procs w"
  "w_logs (add_log e w) = w_logs w @ [e]" "w_calls (add_log e w) = w_calls w"
  "w_draws (add_log e w) = w_draws w" "w_clock (add_log e w) = w_clock w"
  "w_sessions (add_log e w) = w_sessions w"
  by (simp_all add: add_log_def)

text \<open>The methods of a logger, as effects on the world.\<close>

definition log_at ::
  "log_level \<Rightarrow> logger \<Rightarrow> string \<Rightarrow> err \<Rightarrow> (string \<times> log_value) list \<Rightarrow> world \<Rightarrow> world" where
  "log_at lvl lg action e data w = add_log (log_entry_of lg lvl action e data) w"

lemma log_at_simps [simp]:
  "w_fs (log_at lvl lg a e d w) = w_fs w" "w_procs (log_at lvl lg a e d w) = w_procs w"
  "w_calls (log_at lvl lg a e d w) = w_calls w" "w_draws (log_at lvl lg a e d w) = w_draws w"
  "w_clock (log_at lvl lg a e d w) = w_clock w" "w_sessions (log_at lvl lg a e d w) = w_sessions w"
  by (simp_all add: log_at_def)

lemma fault_now_log [simp]: "fault_now E (log_at lvl lg a e d w) = fault_now E w"
  by (simp add: fault_now_def)

end
