(* ===== verification/Go_Files.thy ===== *)
theory Go_Files
  imports Go_OS
begin

text \<open>
  The file calls of the Go standard library that the program makes, each as a function on
  the world: \<^verbatim>\<open>os.Create\<close>, \<^verbatim>\<open>Write\<close>, \<^verbatim>\<open>os.OpenFile\<close> for appending, \<^verbatim>\<open>os.Open\<close> with a complete
  read, \<^verbatim>\<open>os.Stat\<close>, \<^verbatim>\<open>os.Chmod\<close>, \<^verbatim>\<open>os.Mkdir\<close>, \<^verbatim>\<open>ioutil.TempDir\<close>, \<^verbatim>\<open>os.RemoveAll\<close> and
  \<^verbatim>\<open>filepath.Glob\<close>. A call counts as one system call, which the environment can make fail.
\<close>

subsection \<open>Frames\<close>

text \<open>Two trees agree everywhere except on the paths of a region.\<close>

definition same_except :: "(string list \<Rightarrow> bool) \<Rightarrow> fs \<Rightarrow> fs \<Rightarrow> bool" where
  "same_except Q fs fs' \<longleftrightarrow> (\<forall>q. \<not> Q q \<longrightarrow> fs_lookup fs' q = fs_lookup fs q)"

lemma same_except_refl [simp]: "same_except Q fs fs"
  by (simp add: same_except_def)

lemma same_except_trans: "same_except Q a b \<Longrightarrow> same_except Q b c \<Longrightarrow> same_except Q a c"
  by (simp add: same_except_def)

lemma same_except_mono: "same_except Q a b \<Longrightarrow> (\<And>q. Q q \<Longrightarrow> R q) \<Longrightarrow> same_except R a b"
  by (auto simp: same_except_def)

lemma same_exceptD: "same_except Q a b \<Longrightarrow> \<not> Q q \<Longrightarrow> fs_lookup b q = fs_lookup a q"
  by (simp add: same_except_def)

lemma same_except_put: "p \<noteq> [] \<Longrightarrow> Q p \<Longrightarrow> same_except Q fs (fs_put p n fs)"
  by (auto simp: same_except_def fs_lookup_put)

lemma same_except_remove: "(\<And>q. within d q \<Longrightarrow> Q q) \<Longrightarrow> same_except Q fs (fs_remove d keep fs)"
  by (auto simp: same_except_def fs_lookup_remove)

subsection \<open>Files\<close>

definition create_err :: "fs \<Rightarrow> string \<Rightarrow> err" where
  "create_err fs p =
     (if p = [] then Some ENOENT
      else if resolve p = [] then Some EISDIR
      else case walk_err fs [] (resolve p) of
             Some e \<Rightarrow> Some e
           | None \<Rightarrow> if fs_lookup fs (resolve p) = Some Dir then Some EISDIR else None)"

definition file_mode :: "fs \<Rightarrow> string list \<Rightarrow> int" where
  "file_mode fs p = (case fs_lookup fs p of Some (File m _) \<Rightarrow> m | _ \<Rightarrow> 438)"

text \<open>\<^verbatim>\<open>os.Create\<close>: an empty file, mode 0666 when it is new.\<close>

definition os_Create :: "os_env \<Rightarrow> string \<Rightarrow> world \<Rightarrow> err \<times> world" where
  "os_Create E p w =
     (case fault_now E w of
        Some e \<Rightarrow> (Some (PathError ''open'' p e), ticked w)
      | None \<Rightarrow>
          (case create_err (w_fs w) p of
             Some e \<Rightarrow> (Some (PathError ''open'' p e), ticked w)
           | None \<Rightarrow> (None, (ticked w)\<lparr>w_fs :=
               fs_put (resolve p) (File (file_mode (w_fs w) (resolve p)) []) (w_fs w)\<rparr>)))"

text \<open>Bytes put at the end of a file; nothing happens to a file that has been unlinked.\<close>

definition append_file :: "string \<Rightarrow> string \<Rightarrow> fs \<Rightarrow> fs" where
  "append_file p s fs =
     (case fs_lookup fs (resolve p) of
        Some (File m c) \<Rightarrow> if resolve p = [] then fs else fs_put (resolve p) (File m (c @ s)) fs
      | _ \<Rightarrow> fs)"

definition os_Write :: "os_env \<Rightarrow> string \<Rightarrow> string \<Rightarrow> world \<Rightarrow> err \<times> world" where
  "os_Write E p s w =
     (case fault_now E w of
        Some e \<Rightarrow> (Some (PathError ''write'' p e),
          (ticked w)\<lparr>w_fs := append_file p (take (os_partial E (w_calls w)) s) (w_fs w)\<rparr>)
      | None \<Rightarrow> (None, (ticked w)\<lparr>w_fs := append_file p s (w_fs w)\<rparr>))"

definition open_err :: "fs \<Rightarrow> string \<Rightarrow> err" where
  "open_err fs p =
     (if p = [] then Some ENOENT
      else case walk_err fs [] (resolve p) of
             Some e \<Rightarrow> Some e
           | None \<Rightarrow> if fs_lookup fs (resolve p) = None then Some ENOENT else None)"

text \<open>\<^verbatim>\<open>os.OpenFile(p, O_APPEND|O_WRONLY, _)\<close>: the file must exist.\<close>

definition os_OpenAppend :: "os_env \<Rightarrow> string \<Rightarrow> world \<Rightarrow> err \<times> world" where
  "os_OpenAppend E p w =
     ((case fault_now E w of
         Some e \<Rightarrow> Some (PathError ''open'' p e)
       | None \<Rightarrow>
           (case open_err (w_fs w) p of
              Some e \<Rightarrow> Some (PathError ''open'' p e)
            | None \<Rightarrow> if fs_lookup (w_fs w) (resolve p) = Some Dir
                      then Some (PathError ''open'' p EISDIR) else None)), ticked w)"

definition os_Open :: "os_env \<Rightarrow> string \<Rightarrow> world \<Rightarrow> err \<times> world" where
  "os_Open E p w =
     (map_option (PathError ''open'' p)
        (case fault_now E w of Some e \<Rightarrow> Some e | None \<Rightarrow> open_err (w_fs w) p), ticked w)"

definition os_Stat :: "os_env \<Rightarrow> string \<Rightarrow> world \<Rightarrow> (go_error + int) \<times> world" where
  "os_Stat E p w =
     ((case (case fault_now E w of Some e \<Rightarrow> Some e | None \<Rightarrow> open_err (w_fs w) p) of
         Some e \<Rightarrow> Inl (PathError ''stat'' p e)
       | None \<Rightarrow> Inr (file_mode (w_fs w) (resolve p))), ticked w)"

definition os_Chmod :: "os_env \<Rightarrow> string \<Rightarrow> int \<Rightarrow> world \<Rightarrow> err \<times> world" where
  "os_Chmod E p m w =
     (case (case fault_now E w of Some e \<Rightarrow> Some e | None \<Rightarrow> open_err (w_fs w) p) of
        Some e \<Rightarrow> (Some (PathError ''chmod'' p e), ticked w)
      | None \<Rightarrow>
          (case fs_lookup (w_fs w) (resolve p) of
             Some (File _ c) \<Rightarrow>
               (None, (ticked w)\<lparr>w_fs := if resolve p = [] then w_fs w
                                        else fs_put (resolve p) (File m c) (w_fs w)\<rparr>)
           | _ \<Rightarrow> (None, ticked w)))"

text \<open>
  Reading an open file to its end, as a loop over \<^verbatim>\<open>Read\<close> does: the bytes that arrive, and
  the error that ends it (\<open>None\<close> for the end of the file).
\<close>

definition os_read_all :: "os_env \<Rightarrow> string \<Rightarrow> world \<Rightarrow> string \<times> err \<times> world" where
  "os_read_all E p w =
     (case fs_lookup (w_fs w) (resolve p) of
        Some (File _ c) \<Rightarrow>
          (case fault_now E w of
             Some e \<Rightarrow> (take (os_partial E (w_calls w)) c, Some (PathError ''read'' p e), ticked w)
           | None \<Rightarrow> (c, None, ticked w))
      | _ \<Rightarrow> ([], Some (PathError ''read'' p EISDIR), ticked w))"

subsection \<open>Directories\<close>

definition os_Mkdir :: "os_env \<Rightarrow> string \<Rightarrow> world \<Rightarrow> err \<times> world" where
  "os_Mkdir E p w =
     (case (case fault_now E w of
              Some e \<Rightarrow> Some e
            | None \<Rightarrow>
                if p = [] then Some ENOENT
                else case walk_err (w_fs w) [] (resolve p) of
                       Some e \<Rightarrow> Some e
                     | None \<Rightarrow> if fs_lookup (w_fs w) (resolve p) \<noteq> None then Some EEXIST else None) of
        Some e \<Rightarrow> (Some (PathError ''mkdir'' p e), ticked w)
      | None \<Rightarrow> (None, (ticked w)\<lparr>w_fs := fs_put (resolve p) Dir (w_fs w)\<rparr>))"

fun underlying :: "go_error \<Rightarrow> go_error" where
  "underlying (PathError _ _ e) = e"
| "underlying e = e"

text \<open>
  \<^verbatim>\<open>ioutil.TempDir(dir, pattern)\<close> for a pattern without a star: the directory of a name that
  did not exist, after at most 10000 attempts. The first argument of \<open>mkdirtemp\<close> is the
  number of attempts left.
\<close>

fun mkdirtemp :: "nat \<Rightarrow> os_env \<Rightarrow> string \<Rightarrow> string \<Rightarrow> world \<Rightarrow> (go_error + string) \<times> world" where
  "mkdirtemp 0 E dir prefx w = (Inl (PathError ''mkdirtemp'' (prefx @ ''*'') EEXIST), w)"
| "mkdirtemp (Suc n) E dir prefx w =
     (let name = prefx @ nat_decimal (os_rand E (w_draws w))
      in case os_Mkdir E name (w\<lparr>w_draws := Suc (w_draws w)\<rparr>) of
           (None, w') \<Rightarrow> (Inr name, w')
         | (Some e, w') \<Rightarrow>
             if underlying e = EEXIST then mkdirtemp n E dir prefx w'
             else if underlying e = ENOENT \<and> fs_lookup (w_fs w') (resolve dir) = None
             then (Inl (PathError ''stat'' dir ENOENT), w')
             else (Inl e, w'))"

definition joinPath :: "string \<Rightarrow> string \<Rightarrow> string" where
  "joinPath dir name =
     (if dir \<noteq> [] \<and> last dir = CHR ''/'' then dir @ name else dir @ ''/'' @ name)"

definition max_temp_attempts :: nat where
  "max_temp_attempts = 10000"

definition ioutil_TempDir :: "os_env \<Rightarrow> string \<Rightarrow> string \<Rightarrow> world \<Rightarrow> (go_error + string) \<times> world" where
  "ioutil_TempDir E dir pattern w =
     (let d = (if dir = [] then os_tmp E else dir)
      in mkdirtemp max_temp_attempts E d (joinPath d pattern) w)"

text \<open>
  \<^verbatim>\<open>os.RemoveAll\<close>: no error and no effect for the empty path or a missing file; a path that
  ends in a dot is refused.
\<close>

definition ends_with_dot :: "string \<Rightarrow> bool" where
  "ends_with_dot p \<longleftrightarrow> p = ''.'' \<or> HasPrefix (rev p) ''./''"

definition os_RemoveAll :: "os_env \<Rightarrow> string \<Rightarrow> world \<Rightarrow> err \<times> world" where
  "os_RemoveAll E p w =
     (if p = [] then (None, w)
      else if ends_with_dot p then (Some (PathError ''RemoveAll'' p EINVAL), w)
      else case fault_now E w of
        Some e \<Rightarrow> (Some (PathError ''unlinkat'' p e),
          (ticked w)\<lparr>w_fs := fs_remove (resolve p) (os_survives E (w_calls w)) (w_fs w)\<rparr>)
      | None \<Rightarrow>
          if walk_err (w_fs w) [] (resolve p) = Some ENOTDIR
          then (Some (PathError ''unlinkat'' p ENOTDIR), ticked w)
          else (None, (ticked w)\<lparr>w_fs := fs_remove (resolve p) (\<lambda>_. False) (w_fs w)\<rparr>))"

subsection \<open>filepath.Glob\<close>

text \<open>The syntax of a pattern element; \<open>None\<close> is \<^verbatim>\<open>ErrBadPattern\<close>.\<close>

datatype pat_tok = Star | AnyChar | Lit char | Class bool "(char \<times> char) list"

fun get_esc :: "string \<Rightarrow> (char \<times> string) option" where
  "get_esc [] = None"
| "get_esc (c # r) =
     (if c = CHR ''-'' \<or> c = CHR '']'' then None
      else if c = CHR 0x5C then
        (case r of [] \<Rightarrow> None | d # r' \<Rightarrow> if r' = [] then None else Some (d, r'))
      else if r = [] then None else Some (c, r))"

lemma get_esc_shorter: "get_esc s = Some (c, r) \<Longrightarrow> length r < length s"
  by (cases s) (auto split: if_splits list.splits)

function parse_class :: "(char \<times> char) list \<Rightarrow> string \<Rightarrow> ((char \<times> char) list \<times> string) option" where
  "parse_class acc s =
     (if s \<noteq> [] \<and> hd s = CHR '']'' \<and> acc \<noteq> [] then Some (acc, tl s)
      else case get_esc s of
        None \<Rightarrow> None
      | Some (lo, r) \<Rightarrow>
          if r \<noteq> [] \<and> hd r = CHR ''-'' then
            (case get_esc (tl r) of
               None \<Rightarrow> None
             | Some (hi, r') \<Rightarrow> parse_class (acc @ [(lo, hi)]) r')
          else parse_class (acc @ [(lo, lo)]) r)"
  by pat_completeness auto
termination
  by (relation "measure (\<lambda>(acc, s). length s)") (fastforce dest!: get_esc_shorter)+

declare parse_class.simps [simp del]

lemma parse_class_shorter: "parse_class acc s = Some (a, r) \<Longrightarrow> length r < length s"
proof (induction acc s arbitrary: a r rule: parse_class.induct)
  case (1 acc s)
  show ?case
  proof (cases "s \<noteq> [] \<and> hd s = CHR '']'' \<and> acc \<noteq> []")
    case True
    with 1(3) have "r = tl s" by (simp add: parse_class.simps [of acc s])
    with True show ?thesis by (cases s) auto
  next
    case False
    note False1 = this
    from 1(3) False obtain lo t where ge: "get_esc s = Some (lo, t)"
      by (auto simp: parse_class.simps [of acc s] split: option.splits)
    note st = get_esc_shorter [OF ge]
    show ?thesis
    proof (cases "t \<noteq> [] \<and> hd t = CHR ''-''")
      case True
      with 1(3) False1 ge obtain hi u where ge2: "get_esc (tl t) = Some (hi, u)"
        and pc: "parse_class (acc @ [(lo, hi)]) u = Some (a, r)"
        by (auto simp: parse_class.simps [of acc s] split: option.splits)
      have "length r < length u" by (rule 1(1) [OF False1 ge _ True ge2 _ pc]) simp_all
      with get_esc_shorter [OF ge2] st show ?thesis by simp
    next
      case False
      with 1(3) False1 ge have pc: "parse_class (acc @ [(lo, lo)]) t = Some (a, r)"
        by (auto simp: parse_class.simps [of acc s])
      have "length r < length t" by (rule 1(2) [OF False1 ge _ False pc]) simp_all
      with st show ?thesis by simp
    qed
  qed
qed

function parse_pat :: "string \<Rightarrow> pat_tok list option" where
  "parse_pat [] = Some []"
| "parse_pat (c # r) =
     (if c = CHR ''*'' then map_option (Cons Star) (parse_pat r)
      else if c = CHR ''?'' then map_option (Cons AnyChar) (parse_pat r)
      else if c = CHR ''['' then
        (let neg = (r \<noteq> [] \<and> hd r = CHR ''^'')
         in case parse_class [] (if neg then tl r else r) of
              None \<Rightarrow> None
            | Some (rs, r') \<Rightarrow> map_option (Cons (Class neg rs)) (parse_pat r'))
      else if c = CHR 0x5C then
        (case r of [] \<Rightarrow> None | d # r' \<Rightarrow> map_option (Cons (Lit d)) (parse_pat r'))
      else map_option (Cons (Lit c)) (parse_pat r))"
  by pat_completeness auto
termination
  by (relation "measure length")
    (auto dest!: parse_class_shorter split: if_splits)

fun tok_match :: "pat_tok \<Rightarrow> char \<Rightarrow> bool" where
  "tok_match Star c = True"
| "tok_match AnyChar c = True"
| "tok_match (Lit d) c = (c = d)"
| "tok_match (Class neg rs) c = (list_ex (\<lambda>(lo, hi). lo \<le> c \<and> c \<le> hi) rs \<noteq> neg)"

fun pat_match :: "pat_tok list \<Rightarrow> string \<Rightarrow> bool" where
  "pat_match [] s = (s = [])"
| "pat_match (Star # ts) [] = pat_match ts []"
| "pat_match (Star # ts) (c # cs) = (pat_match ts (c # cs) \<or> pat_match (Star # ts) cs)"
| "pat_match (t # ts) [] = False"
| "pat_match (t # ts) (c # cs) = (tok_match t c \<and> pat_match ts cs)"

fun parse_all :: "string list \<Rightarrow> pat_tok list list option" where
  "parse_all [] = Some []"
| "parse_all (p # ps) =
     (case parse_pat p of
        None \<Rightarrow> None
      | Some t \<Rightarrow> map_option (Cons t) (parse_all ps))"

definition abs_path :: "string list \<Rightarrow> string" where
  "abs_path p = concat (map (\<lambda>c. ''/'' @ c) p)"

text \<open>
  The existing paths that match element by element, in lexical order, as absolute paths.
  An error reading a directory is ignored: then nothing matches.
\<close>

definition filepath_Glob :: "os_env \<Rightarrow> string \<Rightarrow> world \<Rightarrow> (go_error + string list) \<times> world" where
  "filepath_Glob E pattern w =
     (case parse_all (resolve pattern) of
        None \<Rightarrow> (Inl ErrBadPattern, w)
      | Some toks \<Rightarrow>
          (Inr (case fault_now E w of
                  Some _ \<Rightarrow> []
                | None \<Rightarrow> map abs_path (sort (filter (list_all2 pat_match toks)
                            (map fst (w_fs w))))), ticked w))"

subsection \<open>Laws of the file calls\<close>

text \<open>Every call leaves the log, the clock, the children and the sessions alone.\<close>

lemma os_Create_frame [frame_simps]:
  "w_logs (snd (os_Create E p w)) = w_logs w" "w_procs (snd (os_Create E p w)) = w_procs w"
  "w_clock (snd (os_Create E p w)) = w_clock w" "w_sessions (snd (os_Create E p w)) = w_sessions w"
  by (simp_all add: os_Create_def split: option.split)

lemma os_Write_frame [frame_simps]:
  "w_logs (snd (os_Write E p s w)) = w_logs w" "w_procs (snd (os_Write E p s w)) = w_procs w"
  "w_clock (snd (os_Write E p s w)) = w_clock w" "w_sessions (snd (os_Write E p s w)) = w_sessions w"
  by (simp_all add: os_Write_def split: option.split)

lemma os_OpenAppend_frame [frame_simps]:
  "w_fs (snd (os_OpenAppend E p w)) = w_fs w" "w_logs (snd (os_OpenAppend E p w)) = w_logs w"
  "w_procs (snd (os_OpenAppend E p w)) = w_procs w"
  by (simp_all add: os_OpenAppend_def)

lemma os_Open_frame [frame_simps]:
  "w_fs (snd (os_Open E p w)) = w_fs w" "w_logs (snd (os_Open E p w)) = w_logs w"
  "w_procs (snd (os_Open E p w)) = w_procs w"
  by (simp_all add: os_Open_def)

lemma os_Stat_frame [frame_simps]:
  "w_fs (snd (os_Stat E p w)) = w_fs w" "w_logs (snd (os_Stat E p w)) = w_logs w"
  "w_procs (snd (os_Stat E p w)) = w_procs w"
  by (simp_all add: os_Stat_def)

lemma os_read_all_frame [frame_simps]:
  "w_fs (snd (snd (os_read_all E p w))) = w_fs w"
  "w_logs (snd (snd (os_read_all E p w))) = w_logs w"
  "w_procs (snd (snd (os_read_all E p w))) = w_procs w"
  by (simp_all add: os_read_all_def split: option.split node.split)

lemma os_RemoveAll_frame [frame_simps]:
  "w_logs (snd (os_RemoveAll E p w)) = w_logs w" "w_procs (snd (os_RemoveAll E p w)) = w_procs w"
  "w_clock (snd (os_RemoveAll E p w)) = w_clock w"
  by (simp_all add: os_RemoveAll_def split: option.split)

lemma os_Mkdir_frame [frame_simps]:
  "w_logs (snd (os_Mkdir E p w)) = w_logs w" "w_procs (snd (os_Mkdir E p w)) = w_procs w"
  "w_clock (snd (os_Mkdir E p w)) = w_clock w"
  by (simp_all add: os_Mkdir_def split: option.split)

lemma mkdirtemp_frame [frame_simps]:
  "w_logs (snd (mkdirtemp n E d p w)) = w_logs w \<and> w_procs (snd (mkdirtemp n E d p w)) = w_procs w
   \<and> w_clock (snd (mkdirtemp n E d p w)) = w_clock w"
proof (induction n E d p w rule: mkdirtemp.induct)
  case (2 n E d p w)
  let ?name = "p @ nat_decimal (os_rand E (w_draws w))"
  obtain e w' where m: "os_Mkdir E ?name (w\<lparr>w_draws := Suc (w_draws w)\<rparr>) = (e, w')" by fastforce
  have w': "w_logs w' = w_logs w" "w_procs w' = w_procs w" "w_clock w' = w_clock w"
    using os_Mkdir_frame [of E ?name "w\<lparr>w_draws := Suc (w_draws w)\<rparr>"] m by simp_all
  show ?case
    using 2 m w' by (cases e) (auto simp: Let_def)
qed simp

lemma filepath_Glob_frame [frame_simps]:
  "w_fs (snd (filepath_Glob E p w)) = w_fs w" "w_logs (snd (filepath_Glob E p w)) = w_logs w"
  "w_procs (snd (filepath_Glob E p w)) = w_procs w"
  "w_clock (snd (filepath_Glob E p w)) = w_clock w"
  by (simp_all add: filepath_Glob_def split: option.split)

text \<open>Which part of the tree a call can change.\<close>

lemma create_err_path: "create_err fs p = None \<Longrightarrow> resolve p \<noteq> []"
  by (auto simp: create_err_def split: if_splits)

lemma same_except_os_Create: "Q (resolve p) \<Longrightarrow> same_except Q (w_fs w) (w_fs (snd (os_Create E p w)))"
  by (auto simp: os_Create_def split: option.split dest: create_err_path intro: same_except_put)

lemma same_except_append: "Q (resolve p) \<Longrightarrow> same_except Q fs (append_file p s fs)"
  by (auto simp: append_file_def split: option.split node.split intro: same_except_put)

lemma same_except_os_Write: "Q (resolve p) \<Longrightarrow> same_except Q (w_fs w) (w_fs (snd (os_Write E p s w)))"
  by (auto simp: os_Write_def split: option.split intro: same_except_append)

lemma same_except_os_RemoveAll:
  "(\<And>q. within (resolve p) q \<Longrightarrow> Q q) \<Longrightarrow>
   same_except Q (w_fs w) (w_fs (snd (os_RemoveAll E p w)))"
  by (auto simp: os_RemoveAll_def split: option.split intro: same_except_remove)

lemma same_except_os_Mkdir: "Q (resolve p) \<Longrightarrow> same_except Q (w_fs w) (w_fs (snd (os_Mkdir E p w)))"
  by (auto simp: os_Mkdir_def fs_lookup_def split: option.split if_splits intro!: same_except_put)

text \<open>Every call keeps the tree well formed.\<close>

lemma fs_wf_os_Create: "fs_wf (w_fs w) \<Longrightarrow> fs_wf (w_fs (snd (os_Create E p w)))"
  using walk_err_parent [of "w_fs w" "[]" "resolve p"]
  by (auto simp: os_Create_def create_err_def fs_lookup_def [of _ "[]"]
      split: option.split if_splits intro!: fs_wf_put)

lemma fs_wf_append: "fs_wf fs \<Longrightarrow> fs_wf (append_file p s fs)"
  by (auto simp: append_file_def split: option.split node.split
      intro!: fs_wf_put intro: fs_wf_parent)

lemma fs_wf_os_Write: "fs_wf (w_fs w) \<Longrightarrow> fs_wf (w_fs (snd (os_Write E p s w)))"
  by (auto simp: os_Write_def split: option.split intro: fs_wf_append)

lemma fs_wf_os_RemoveAll:
  "fs_wf (w_fs w) \<Longrightarrow> resolve p \<noteq> [] \<or> p = [] \<Longrightarrow> fs_wf (w_fs (snd (os_RemoveAll E p w)))"
  by (auto simp: os_RemoveAll_def split: option.split intro: fs_wf_remove)

lemma fs_wf_os_Mkdir: "fs_wf (w_fs w) \<Longrightarrow> fs_wf (w_fs (snd (os_Mkdir E p w)))"
proof (cases "resolve p = []")
  case True
  then show "fs_wf (w_fs w) \<Longrightarrow> ?thesis"
    by (simp add: os_Mkdir_def fs_lookup_def split: option.split)
next
  case False
  then show "fs_wf (w_fs w) \<Longrightarrow> ?thesis"
    using walk_err_parent [of "w_fs w" "[]" "resolve p"]
    by (auto simp: os_Mkdir_def fs_lookup_def [of _ "[]"] split: option.split if_splits
        intro!: fs_wf_put)
qed

subsection \<open>Temporary directories\<close>

lemma os_Mkdir_Some_fs: "os_Mkdir E p w = (Some e, w') \<Longrightarrow> w_fs w' = w_fs w"
  by (auto simp: os_Mkdir_def split: option.splits)

lemma os_Mkdir_None:
  assumes "os_Mkdir E p w = (None, w')"
  shows "w_fs w' = fs_put (resolve p) Dir (w_fs w)" and "fs_lookup (w_fs w) (resolve p) = None"
  using assms by (auto simp: os_Mkdir_def split: option.splits if_splits)

lemma mkdirtemp_Inl_fs: "mkdirtemp n E d p w = (Inl e, w') \<Longrightarrow> w_fs w' = w_fs w"
proof (induction n E d p w rule: mkdirtemp.induct)
  case (2 n E d p w)
  let ?w = "w\<lparr>w_draws := Suc (w_draws w)\<rparr>"
  obtain r v where m: "os_Mkdir E (p @ nat_decimal (os_rand E (w_draws w))) ?w = (r, v)" by fastforce
  show ?case
  proof (cases r)
    case None
    with m 2 show ?thesis by (simp add: Let_def)
  next
    case (Some x)
    with m have "w_fs v = w_fs w" using os_Mkdir_Some_fs by fastforce
    with m Some 2 show ?thesis by (auto simp: Let_def split: if_splits)
  qed
qed simp

lemma mkdirtemp_Inr:
  "mkdirtemp n E d p w = (Inr name, w') \<Longrightarrow>
   (\<exists>k. name = p @ nat_decimal k) \<and> fs_lookup (w_fs w) (resolve name) = None
   \<and> w_fs w' = fs_put (resolve name) Dir (w_fs w)"
proof (induction n E d p w rule: mkdirtemp.induct)
  case (2 n E d p w)
  let ?w = "w\<lparr>w_draws := Suc (w_draws w)\<rparr>"
  obtain r v where m: "os_Mkdir E (p @ nat_decimal (os_rand E (w_draws w))) ?w = (r, v)" by fastforce
  show ?case
  proof (cases r)
    case None
    with m 2 os_Mkdir_None [of E "p @ nat_decimal (os_rand E (w_draws w))" ?w v]
    show ?thesis by (auto simp: Let_def)
  next
    case (Some x)
    with m have "w_fs v = w_fs w" using os_Mkdir_Some_fs by fastforce
    with m Some 2 show ?thesis by (auto simp: Let_def split: if_splits)
  qed
qed simp

text \<open>The region a temporary directory lies in: an entry of \<open>dir\<close> with the given prefix.\<close>

definition temp_entry :: "string \<Rightarrow> string \<Rightarrow> string list \<Rightarrow> bool" where
  "temp_entry dir pattern q \<longleftrightarrow> (\<exists>n. q = resolve dir @ [n] \<and> HasPrefix n pattern)"

lemma HasPrefix_append [simp]: "HasPrefix (p @ s) p"
  by (simp add: HasPrefix_def)

lemma plain_name_append_decimal: "plain_name p \<Longrightarrow> p \<noteq> [CHR ''.''] \<Longrightarrow> plain_name (p @ nat_decimal k)"
  using nat_decimal_digits [of k] digit_chars_plain
  by (auto simp: plain_name_def dot_def dotdot_def append_eq_Cons_conv subset_iff)

lemma clean_comps_snoc_empty: "clean_comps r acc (cs @ [[]]) = clean_comps r acc cs"
  by (induction cs arbitrary: acc) simp_all

lemma resolve_joinPath:
  assumes "plain_name (n @ m)" and "n \<noteq> []"
  shows "resolve (joinPath d n @ m) = resolve d @ [n @ m]"
proof (cases "d \<noteq> [] \<and> last d = CHR ''/''")
  case True
  then obtain d' where d: "d = d' @ [CHR ''/'']" by (metis append_butlast_last_id)
  have s: "CHR ''/'' \<notin> set (n @ m)" using assms by (simp add: plain_name_def)
  have "split_on CHR ''/'' (d @ n @ m) = split_on CHR ''/'' d' @ [n @ m]"
    using split_on_snoc [OF s, of d'] d by simp
  moreover have "split_on CHR ''/'' d = split_on CHR ''/'' d' @ [[]]"
    using split_on_snoc [of "CHR ''/''" "[]" d'] d by simp
  ultimately show ?thesis using True assms(1)
    by (simp add: joinPath_def resolve_def clean_comps_plain_snoc clean_comps_snoc_empty)
next
  case False
  have "CHR ''/'' \<notin> set (n @ m)" using assms by (simp add: plain_name_def)
  from split_on_snoc [OF this, of d] assms(1)
  have "resolve (d @ ''/'' @ n @ m) = resolve d @ [n @ m]"
    by (simp add: resolve_def clean_comps_plain_snoc)
  moreover from False have "joinPath d n = d @ ''/'' @ n" by (auto simp: joinPath_def)
  ultimately show ?thesis by simp
qed

text \<open>
  \<^verbatim>\<open>TempDir\<close> either fails and changes nothing, or makes one new entry of the directory, whose
  name starts with the pattern.
\<close>

lemma TempDir_Inl_fs: "ioutil_TempDir E d pat w = (Inl e, w') \<Longrightarrow> w_fs w' = w_fs w"
  by (auto simp: ioutil_TempDir_def Let_def dest: mkdirtemp_Inl_fs)

lemma decimal_no_dot: "\<not> ends_with_dot (p @ nat_decimal k)"
proof
  assume d: "ends_with_dot (p @ nat_decimal k)"
  obtain m c where m: "nat_decimal k = m @ [c]" using nat_decimal_not_Nil [of k] by (metis rev_exhaust)
  with d have "c = CHR ''.''" by (auto simp: ends_with_dot_def HasPrefix_def append_eq_Cons_conv)
  moreover have "c \<in> set digit_chars" using nat_decimal_digits [of k] m by auto
  ultimately show False using digit_chars_plain(3) by simp
qed

lemma TempDir_Inr:
  assumes "ioutil_TempDir E d pat w = (Inr name, w')" and "d \<noteq> []"
    and "plain_name pat" and "pat \<noteq> [CHR ''.'']"
  shows "temp_entry d pat (resolve name)" and "fs_lookup (w_fs w) (resolve name) = None"
    and "w_fs w' = fs_put (resolve name) Dir (w_fs w)" and "name \<noteq> []"
    and "\<exists>k. resolve name = resolve d @ [pat @ nat_decimal k]"
    and "\<not> ends_with_dot name"
proof -
  from mkdirtemp_Inr [of max_temp_attempts E d "joinPath d pat" w name w'] assms(1,2)
  obtain k where k: "name = joinPath d pat @ nat_decimal k"
    and rest: "fs_lookup (w_fs w) (resolve name) = None" "w_fs w' = fs_put (resolve name) Dir (w_fs w)"
    by (auto simp: ioutil_TempDir_def Let_def)
  have pat: "pat \<noteq> []" using assms(3) by (simp add: plain_name_def)
  have res: "resolve name = resolve d @ [pat @ nat_decimal k]"
    unfolding k by (rule resolve_joinPath) (use assms pat plain_name_append_decimal in auto)
  then show "temp_entry d pat (resolve name)" by (auto simp: temp_entry_def)
  show "\<exists>k. resolve name = resolve d @ [pat @ nat_decimal k]" using res by blast
  show "name \<noteq> []" using k by simp
  show "\<not> ends_with_dot name" unfolding k by (rule decimal_no_dot)
  show "fs_lookup (w_fs w) (resolve name) = None" by (rule rest(1))
  show "w_fs w' = fs_put (resolve name) Dir (w_fs w)" by (rule rest(2))
qed

subsection \<open>Glob with a literal directory\<close>

definition meta_char :: "char \<Rightarrow> bool" where
  "meta_char c \<longleftrightarrow> c = CHR ''*'' \<or> c = CHR ''?'' \<or> c = CHR ''['' \<or> c = CHR 0x5C"

definition no_meta :: "string \<Rightarrow> bool" where
  "no_meta s \<longleftrightarrow> list_all (\<lambda>c. \<not> meta_char c) s"

lemma parse_pat_lits: "no_meta s \<Longrightarrow> parse_pat (s @ r) = map_option ((@) (map Lit s)) (parse_pat r)"
  by (cases "parse_pat r"; induction s) (auto simp: no_meta_def meta_char_def)

lemma pat_match_lits:
  "pat_match (map Lit a @ ts) s \<longleftrightarrow> HasPrefix s a \<and> pat_match ts (drop (length a) s)"
proof (induction a arbitrary: s)
  case (Cons c a)
  then show ?case by (cases s) (auto simp: HasPrefix_def)
qed (simp add: HasPrefix_def)

lemma pat_match_Star_any: "pat_match [Star] s"
  by (induction s) auto

lemma parse_all_append:
  "parse_all (ps @ qs) =
     (case parse_all ps of None \<Rightarrow> None | Some a \<Rightarrow> map_option ((@) a) (parse_all qs))"
  by (cases "parse_all qs"; induction ps) (auto split: option.splits)

lemma parse_all_lits: "list_all no_meta ps \<Longrightarrow> parse_all ps = Some (map (map Lit) ps)"
proof (induction ps)
  case (Cons p ps)
  with parse_pat_lits [of p "[]"] show ?case by simp
qed simp

lemma list_all2_lits: "list_all2 pat_match (map (map Lit) ps) qs \<longleftrightarrow> qs = ps"
proof (induction ps arbitrary: qs)
  case (Cons p ps)
  have "pat_match (map Lit p) q \<longleftrightarrow> q = p" for q
    using pat_match_lits [of p "[]" q] by (auto simp: HasPrefix_def)
  with Cons show ?case by (cases qs) auto
qed simp

lemma Glob_prefix:
  assumes "list_all no_meta (resolve d)" and "no_meta pre" and "plain_name (pre @ ''*'')"
  shows "filepath_Glob E (path_Join d (pre @ ''*'')) w =
    (Inr (case fault_now E w of Some _ \<Rightarrow> []
          | None \<Rightarrow> map abs_path (sort (filter (temp_entry d pre) (map fst (w_fs w))))), ticked w)"
proof -
  have p: "parse_pat (pre @ ''*'') = Some (map Lit pre @ [Star])"
    using parse_pat_lits [OF assms(2), of "''*''"] by simp
  have all: "parse_all (resolve (path_Join d (pre @ ''*'')))
      = Some (map (map Lit) (resolve d) @ [map Lit pre @ [Star]])"
    using assms p by (simp add: parse_all_append parse_all_lits)
  have "list_all2 pat_match (map (map Lit) (resolve d) @ [map Lit pre @ [Star]]) q
      \<longleftrightarrow> temp_entry d pre q" for q
    by (auto simp: list_all2_append1 list_all2_lits list_all2_Cons1 temp_entry_def
        pat_match_lits pat_match_Star_any)
  then have "filter (list_all2 pat_match (map (map Lit) (resolve d) @ [map Lit pre @ [Star]])) ks
      = filter (temp_entry d pre) ks" for ks
    by (simp cong: filter_cong)
  with all show ?thesis by (cases "fault_now E w") (simp_all add: filepath_Glob_def)
qed

lemma split_on_abs_path:
  "\<forall>c \<in> set p. CHR ''/'' \<notin> set c \<Longrightarrow> split_on CHR ''/'' (abs_path p) = [] # p"
proof (induction p)
  case (Cons c p)
  have split: "split_on CHR ''/'' (c @ abs_path p) = c # p"
  proof (cases p)
    case Nil
    with Cons.prems show ?thesis by (simp add: abs_path_def split_on_plain)
  next
    case (Cons d r)
    from Cons.prems Cons.IH have "split_on CHR ''/'' (abs_path p) = [] # p" by simp
    moreover obtain t where "abs_path p = CHR ''/'' # t" using Cons by (simp add: abs_path_def)
    ultimately show ?thesis using Cons.prems split_on_append [of "CHR ''/''" c t] by simp
  qed
  then show ?case by (simp add: abs_path_def)
qed (simp add: abs_path_def)

lemma resolve_abs_path: "list_all plain_name p \<Longrightarrow> resolve (abs_path p) = p"
  using split_on_abs_path [of p] clean_comps_all_plain [of p True "[]"]
  by (simp add: resolve_def plain_name_def list_all_iff)

end
