(* ===== verification/Go_Exec.thy ===== *)
theory Go_Exec
  imports Go_Files
begin

text \<open>
  Streams and child processes: readers, \<^verbatim>\<open>io.Copy\<close>, and the methods of \<^verbatim>\<open>exec.Cmd\<close> the program
  calls. What a child program does is not in the repository: it is a parameter of type
  \<open>programs\<close>, which says for a command, the chunks on its standard input and the file
  system it finds, what it writes, how much input it takes, how it exits and the file
  system it leaves.
\<close>

subsection \<open>Readers and copying\<close>

text \<open>
  A reader delivers its chunks one per \<^verbatim>\<open>Read\<close>, then the error \<open>rd_err\<close> (\<open>None\<close> is
  \<^verbatim>\<open>io.EOF\<close>).
\<close>

record reader =
  rd_chunks :: "string list"
  rd_err :: err

definition rd_data :: "reader \<Rightarrow> string" where
  "rd_data r = concat (rd_chunks r)"

text \<open>How far a consumer got: the chunks it read, and whether it met the end.\<close>

record stream_use =
  su_reads :: nat
  su_end :: bool

type_synonym 's writer = "string \<Rightarrow> 's \<Rightarrow> err \<times> 's"

text \<open>\<^verbatim>\<open>io.Copy\<close>: reads and writes chunk by chunk until a write fails or the reader ends.\<close>

fun copy_loop :: "'s writer \<Rightarrow> string list \<Rightarrow> err \<Rightarrow> nat \<Rightarrow> 's \<Rightarrow> err \<times> stream_use \<times> 's" where
  "copy_loop wr [] e n s = (e, \<lparr>su_reads = n, su_end = True\<rparr>, s)"
| "copy_loop wr (c # cs) e n s =
     (case wr c s of
        (Some x, s') \<Rightarrow> (Some x, \<lparr>su_reads = Suc n, su_end = False\<rparr>, s')
      | (None, s') \<Rightarrow> copy_loop wr cs e (Suc n) s')"

definition io_Copy :: "'s writer \<Rightarrow> reader \<Rightarrow> 's \<Rightarrow> err \<times> stream_use \<times> 's" where
  "io_Copy wr r s = copy_loop wr (rd_chunks r) (rd_err r) 0 s"

lemma copy_loop_reads:
  "copy_loop wr cs e n s = (err, u, s') \<Longrightarrow>
   su_reads u \<le> n + length cs \<and> (su_end u \<longrightarrow> su_reads u = n + length cs \<and> err = e)
   \<and> (\<not> su_end u \<longrightarrow> err \<noteq> None)"
  by (induction wr cs e n s rule: copy_loop.induct) (fastforce split: prod.splits option.splits)+

lemma copy_loop_steps:
  "copy_loop wr cs e n s = (None, u, s') \<longleftrightarrow>
     run_steps (map wr cs) s = (None, s') \<and> e = None \<and> u = \<lparr>su_reads = n + length cs, su_end = True\<rparr>"
  by (induction wr cs e n s rule: copy_loop.induct) (auto split: prod.splits option.splits)

lemma copy_loop_preserves:
  assumes "\<And>c s. P s \<Longrightarrow> P (snd (wr c s))" and "P s"
  shows "P (snd (snd (copy_loop wr cs e n s)))"
  using assms(2)
proof (induction cs arbitrary: n s)
  case (Cons c cs)
  obtain x s' where wr: "wr c s = (x, s')" by fastforce
  with assms(1) [OF Cons.prems, of c] have "P s'" by simp
  with Cons.IH wr show ?case by (cases x) auto
qed simp

lemma io_Copy_None:
  "io_Copy wr r s = (None, u, s') \<longleftrightarrow>
     run_steps (map wr (rd_chunks r)) s = (None, s') \<and> rd_err r = None
     \<and> u = \<lparr>su_reads = length (rd_chunks r), su_end = True\<rparr>"
  by (simp add: io_Copy_def copy_loop_steps)

subsection \<open>Child processes\<close>

datatype exit_state = Exited nat | Signaled string

fun exit_err :: "exit_state \<Rightarrow> err" where
  "exit_err (Exited n) = (if n = 0 then None else Some (ExitError (''exit status '' @ nat_decimal n)))"
| "exit_err (Signaled s) = Some (ExitError (''signal: '' @ s))"

text \<open>
  What a child does: the error of starting it; its standard output in chunks; both outputs
  as one text; how many chunks of standard input it takes before it closes it; how it exits,
  and how it exits when its standard output is closed on it; the file system it leaves.
\<close>

record outcome =
  oc_start :: err
  oc_out :: "string list"
  oc_combined :: string
  oc_stderr :: "string list"
  oc_takes :: nat
  oc_exit :: exit_state
  oc_exit_pipe :: exit_state
  oc_fs :: fs

type_synonym programs = "cmd \<Rightarrow> string list \<Rightarrow> fs \<Rightarrow> outcome"

text \<open>
  The goroutine of \<^verbatim>\<open>os/exec\<close> that copies a reader to the child's standard input: when the
  child closes its end, the broken pipe is ignored and the rest of the reader is not read;
  otherwise the reader is read to its end and its error is the copying's error.
\<close>

definition stdin_copy :: "nat \<Rightarrow> reader \<Rightarrow> err \<times> stream_use" where
  "stdin_copy takes r =
     (if takes < length (rd_chunks r) then (None, \<lparr>su_reads = Suc takes, su_end = False\<rparr>)
      else (rd_err r, \<lparr>su_reads = length (rd_chunks r), su_end = True\<rparr>))"

text \<open>
  \<^verbatim>\<open>cmd.CombinedOutput\<close> with \<^verbatim>\<open>cmd.Stdin = r\<close>: start, feed, wait. The exit status comes before
  the error of the copying.
\<close>

definition CombinedOutput ::
  "programs \<Rightarrow> cmd \<Rightarrow> reader \<Rightarrow> world \<Rightarrow> string \<times> err \<times> stream_use \<times> world" where
  "CombinedOutput P c r w =
     (let oc = P c (rd_chunks r) (w_fs w)
      in case oc_start oc of
           Some e \<Rightarrow> ([], Some e, \<lparr>su_reads = 0, su_end = False\<rparr>, w)
         | None \<Rightarrow>
             (let (cerr, u) = stdin_copy (oc_takes oc) r
              in (oc_combined oc,
                  (case exit_err (oc_exit oc) of Some e \<Rightarrow> Some e | None \<Rightarrow> cerr),
                  u, w\<lparr>w_fs := oc_fs oc\<rparr>)))"

definition no_stdin :: reader where
  "no_stdin = \<lparr>rd_chunks = [], rd_err = None\<rparr>"

lemma stdin_copy_reads:
  "stdin_copy t r = (e, u) \<Longrightarrow> su_reads u \<le> length (rd_chunks r)
    \<and> (su_end u \<longrightarrow> e = rd_err r \<and> su_reads u = length (rd_chunks r))"
  by (auto simp: stdin_copy_def split: if_splits)

lemma CombinedOutput_reads:
  assumes "CombinedOutput P c r w = (out, e, u, w')"
  shows "su_reads u \<le> length (rd_chunks r)"
    and "su_end u \<Longrightarrow> su_reads u = length (rd_chunks r)"
    and "su_end u \<Longrightarrow> e = None \<Longrightarrow> rd_err r = None"
  using assms
  by (auto simp: CombinedOutput_def Let_def stdin_copy_def split: option.splits prod.splits if_splits)

text \<open>Success of the call: the child started and exited with 0, and no copying error was seen.\<close>

lemma CombinedOutput_None:
  assumes "CombinedOutput P c r w = (out, None, u, w')"
  shows "oc_start (P c (rd_chunks r) (w_fs w)) = None"
    and "oc_exit (P c (rd_chunks r) (w_fs w)) = Exited 0"
    and "w' = w\<lparr>w_fs := oc_fs (P c (rd_chunks r) (w_fs w))\<rparr>"
    and "su_end u \<Longrightarrow> rd_err r = None"
  using assms
  by (auto simp: CombinedOutput_def Let_def stdin_copy_def split: option.splits prod.splits if_splits
      elim!: exit_err.elims)

lemma CombinedOutput_frame [frame_simps]:
  "w_logs (snd (snd (snd (CombinedOutput P c r w)))) = w_logs w"
  "w_procs (snd (snd (snd (CombinedOutput P c r w)))) = w_procs w"
  "w_clock (snd (snd (snd (CombinedOutput P c r w)))) = w_clock w"
  "w_calls (snd (snd (snd (CombinedOutput P c r w)))) = w_calls w"
  by (simp_all add: CombinedOutput_def Let_def split: option.split prod.split)

text \<open>
  \<^verbatim>\<open>cmd.Run\<close> with \<^verbatim>\<open>cmd.Stdout\<close> a writer of the program: a goroutine copies the output; when a
  write fails, the pipe is closed on the child.
\<close>

definition cmd_Run :: "outcome \<Rightarrow> 's writer \<Rightarrow> 's \<Rightarrow> err \<times> 's" where
  "cmd_Run oc wr s =
     (case oc_start oc of
        Some e \<Rightarrow> (Some e, s)
      | None \<Rightarrow>
          (case run_steps (map wr (oc_out oc)) s of
             (None, s') \<Rightarrow> (exit_err (oc_exit oc), s')
           | (Some e, s') \<Rightarrow>
               ((case exit_err (oc_exit_pipe oc) of Some x \<Rightarrow> Some x | None \<Rightarrow> Some e), s')))"

lemma cmd_Run_None:
  "cmd_Run oc wr s = (None, s') \<longleftrightarrow>
     oc_start oc = None \<and> run_steps (map wr (oc_out oc)) s = (None, s') \<and> oc_exit oc = Exited 0"
  by (cases "oc_exit oc") (auto simp: cmd_Run_def split: option.splits prod.splits)

text \<open>
  \<^verbatim>\<open>cmd.Start\<close> and \<^verbatim>\<open>cmd.Wait\<close> where the program reads the output itself, from
  \<^verbatim>\<open>cmd.StdoutPipe\<close>: between the two calls the child is in \<open>w_procs\<close>. What the child does to
  the tree is accounted to the start.
\<close>

definition cmd_StdoutPipe :: "os_env \<Rightarrow> world \<Rightarrow> err \<times> world" where
  "cmd_StdoutPipe E w = (fault_now E w, ticked w)"

definition cmd_Start :: "programs \<Rightarrow> cmd \<Rightarrow> world \<Rightarrow> err \<times> world" where
  "cmd_Start P c w =
     (let oc = P c [] (w_fs w)
      in case oc_start oc of
           Some e \<Rightarrow> (Some e, w)
         | None \<Rightarrow> (None, w\<lparr>w_fs := oc_fs oc, w_procs := c # w_procs w\<rparr>))"

definition cmd_Wait :: "outcome \<Rightarrow> cmd \<Rightarrow> world \<Rightarrow> err \<times> world" where
  "cmd_Wait oc c w = (exit_err (oc_exit oc), w\<lparr>w_procs := remove1 c (w_procs w)\<rparr>)"

definition stdout_reader :: "outcome \<Rightarrow> reader" where
  "stdout_reader oc = \<lparr>rd_chunks = oc_out oc, rd_err = None\<rparr>"

subsection \<open>The interface StreamedWriter\<close>

text \<open>
  \<^verbatim>\<open>download.StreamedWriter\<close>: a consumer of a stream. What the download relies on: a writer
  reads at most what there is, it has read everything when it has met the end, and when it
  has met the end and reports success the stream ended without an error.
\<close>

locale streamed_writer =
  fixes ws :: "reader \<Rightarrow> world \<Rightarrow> err \<times> stream_use \<times> world"
  assumes ws_reads: "ws r w = (e, u, w') \<Longrightarrow> su_reads u \<le> length (rd_chunks r)"
    and ws_end: "ws r w = (e, u, w') \<Longrightarrow> su_end u \<Longrightarrow> su_reads u = length (rd_chunks r)"
    and ws_clean: "ws r w = (e, u, w') \<Longrightarrow> su_end u \<Longrightarrow> e = None \<Longrightarrow> rd_err r = None"
begin

lemma ws_complete:
  assumes "ws r w = (None, u, w')" and "su_end u"
  shows "take (su_reads u) (rd_chunks r) = rd_chunks r" and "rd_err r = None"
  using ws_end [OF assms] ws_clean [OF assms] by simp_all

end

end
