(* ===== verification/Go_Base64.thy ===== *)
theory Go_Base64
  imports Go_Base
begin

text \<open>
  \<^verbatim>\<open>encoding/base64\<close> (\<^verbatim>\<open>StdEncoding\<close>), which carries the credentials of HTTP basic
  authentication, with the theorem that decoding undoes encoding.
\<close>

definition b64_alphabet :: string where
  "b64_alphabet = ''ABCDEFGHIJKLMNOPQRSTUVWXYZabcdefghijklmnopqrstuvwxyz0123456789+/''"

definition b64_char :: "nat \<Rightarrow> char" where
  "b64_char n = b64_alphabet ! n"

fun index_of :: "char \<Rightarrow> string \<Rightarrow> nat option" where
  "index_of c [] = None"
| "index_of c (x # xs) = (if x = c then Some 0 else map_option Suc (index_of c xs))"

definition b64_value :: "char \<Rightarrow> nat option" where
  "b64_value c = index_of c b64_alphabet"

fun b64_bytes :: "nat list \<Rightarrow> string" where
  "b64_bytes [] = []"
| "b64_bytes [a] = [b64_char (a div 4), b64_char (a mod 4 * 16), CHR ''='', CHR ''='']"
| "b64_bytes [a, b] =
     [b64_char (a div 4), b64_char (a mod 4 * 16 + b div 16), b64_char (b mod 16 * 4), CHR ''='']"
| "b64_bytes (a # b # c # r) =
     b64_char (a div 4) # b64_char (a mod 4 * 16 + b div 16)
       # b64_char (b mod 16 * 4 + c div 64) # b64_char (c mod 64) # b64_bytes r"

definition EncodeToString :: "string \<Rightarrow> string" where
  "EncodeToString s = b64_bytes (map of_char s)"

text \<open>Decoding, by groups of four; padding only in the last group.\<close>

fun b64_groups :: "string \<Rightarrow> nat list option" where
  "b64_groups [] = Some []"
| "b64_groups (p # q # r # s # t) =
     (case (b64_value p, b64_value q) of
        (Some i, Some j) \<Rightarrow>
          (if r = CHR ''='' \<and> s = CHR ''='' \<and> t = [] then Some [i * 4 + j div 16]
           else case b64_value r of
             None \<Rightarrow> None
           | Some k \<Rightarrow>
               (if s = CHR ''='' \<and> t = [] then Some [i * 4 + j div 16, j mod 16 * 16 + k div 4]
                else case b64_value s of
                  None \<Rightarrow> None
                | Some l \<Rightarrow>
                    map_option ((@) [i * 4 + j div 16, j mod 16 * 16 + k div 4, k mod 4 * 64 + l])
                      (b64_groups t)))
      | _ \<Rightarrow> None)"
| "b64_groups _ = None"

text \<open>\<^verbatim>\<open>DecodeString\<close> skips line breaks.\<close>

definition DecodeString :: "string \<Rightarrow> string option" where
  "DecodeString s =
     map_option (map char_of) (b64_groups (filter (\<lambda>c. c \<noteq> nl \<and> c \<noteq> cr) s))"

lemma b64_value_char_all: "list_all (\<lambda>n. b64_value (b64_char n) = Some n) [0..<64]"
  by code_simp

lemma b64_value_char [simp]: "n < 64 \<Longrightarrow> b64_value (b64_char n) = Some n"
  using b64_value_char_all by (simp add: list_all_iff)

lemma b64_alphabet_plain: "list_all (\<lambda>c. c \<noteq> nl \<and> c \<noteq> cr \<and> c \<noteq> CHR ''='') b64_alphabet"
  by code_simp

lemma b64_char_plain: "n < 64 \<Longrightarrow> b64_char n \<noteq> nl \<and> b64_char n \<noteq> cr \<and> b64_char n \<noteq> CHR ''=''"
proof -
  assume "n < 64"
  moreover have "length b64_alphabet = 64" by (simp add: b64_alphabet_def)
  ultimately have "b64_alphabet ! n \<in> set b64_alphabet" by simp
  with b64_alphabet_plain show ?thesis by (auto simp: b64_char_def list_all_iff)
qed

lemma pack_unpack: "y < m \<Longrightarrow> (x * m + y) div m = x \<and> (x * m + y) mod m = y" for x y m :: nat
  by simp

lemma b64_ranges:
  fixes a b c :: nat
  assumes "a < 256" and "b < 256" and "c < 256"
  shows "a div 4 < 64" "a mod 4 * 16 + b div 16 < 64" "b mod 16 * 4 + c div 64 < 64" "c mod 64 < 64"
    "a mod 4 * 16 < 64" "b mod 16 * 4 < 64" "b div 16 < 16" "c div 64 < 4"
  using assms by (simp_all add: less_mult_imp_div_less)

lemma b64_groups_bytes:
  "\<forall>x \<in> set bs. x < 256 \<Longrightarrow> b64_groups (b64_bytes bs) = Some bs"
proof (induction bs rule: b64_bytes.induct)
  case 1
  then show ?case by simp
next
  case (2 a)
  then show ?case using b64_ranges [of a 0 0] by simp
next
  case (3 a b)
  then have l: "a < 256" "b < 256" by simp_all
  have z: "(0 :: nat) < 256" by simp
  note r = b64_ranges [OF l z]
  show ?case
    using r b64_char_plain [OF r(6)] pack_unpack [OF r(7), of "a mod 4"]
    by simp
next
  case (4 a b c t)
  then have l: "a < 256" "b < 256" "c < 256" and t: "\<forall>x \<in> set t. x < 256" by simp_all
  note r = b64_ranges [OF l]
  show ?case
    using r b64_char_plain [OF r(3)] b64_char_plain [OF r(4)] 4(1) [OF t]
      pack_unpack [OF r(7), of "a mod 4"] pack_unpack [OF r(8), of "b mod 16"]
    by simp
qed

lemma b64_bytes_no_breaks:
  "\<forall>x \<in> set bs. x < 256 \<Longrightarrow> \<forall>c \<in> set (b64_bytes bs). c \<noteq> nl \<and> c \<noteq> cr"
proof (induction bs rule: b64_bytes.induct)
  case (2 a)
  then show ?case using b64_ranges [of a 0 0] b64_char_plain by simp
next
  case (3 a b)
  then have l: "a < 256" "b < 256" by simp_all
  show ?case using b64_ranges [OF l, of 0] b64_char_plain by simp
next
  case (4 a b c t)
  then have l: "a < 256" "b < 256" "c < 256" by simp_all
  show ?case using b64_ranges [OF l] b64_char_plain 4 by simp
qed simp

theorem DecodeString_EncodeToString: "DecodeString (EncodeToString s) = Some s"
proof -
  have bytes: "\<forall>x \<in> set (map of_char s :: nat list). x < 256" by auto
  have "filter (\<lambda>c. c \<noteq> nl \<and> c \<noteq> cr) (EncodeToString s) = EncodeToString s"
    using b64_bytes_no_breaks [OF bytes] by (simp add: EncodeToString_def)
  with b64_groups_bytes [OF bytes] show ?thesis
    by (simp add: DecodeString_def EncodeToString_def o_def)
qed

end
