(* ===== verification/Go_HTTP.thy ===== *)
theory Go_HTTP
  imports Go_Exec Go_Base64
begin

text \<open>
  The parts of \<^verbatim>\<open>net/http\<close> and \<^verbatim>\<open>net/url\<close> the two programs use, over HTTP/1.1: header maps with
  canonical keys, URLs and query parameters, basic authentication, the response writer of a
  handler with its trailers, and the response a client receives from what the handler wrote.
\<close>

subsection \<open>Headers\<close>

type_synonym header = "string list gomap"

definition upper :: "char \<Rightarrow> char" where
  "upper c = (if CHR ''a'' \<le> c \<and> c \<le> CHR ''z'' then char_of ((of_char c :: nat) - 32) else c)"

definition lower :: "char \<Rightarrow> char" where
  "lower c = (if CHR ''A'' \<le> c \<and> c \<le> CHR ''Z'' then char_of ((of_char c :: nat) + 32) else c)"

definition in_range :: "char \<Rightarrow> char \<times> char \<Rightarrow> bool" where
  "in_range c r \<longleftrightarrow> fst r \<le> c \<and> c \<le> snd r"

definition alphanumeric :: "char \<Rightarrow> bool" where
  "alphanumeric c \<longleftrightarrow>
     list_ex (in_range c) [(CHR ''0'', CHR ''9''), (CHR ''A'', CHR ''Z''), (CHR ''a'', CHR ''z'')]"

definition token_char :: "char \<Rightarrow> bool" where
  "token_char c \<longleftrightarrow> alphanumeric c
     \<or> c \<in> set [CHR ''!'', CHR ''#'', CHR ''$'', CHR ''%'', CHR ''&'', CHR 0x27, CHR ''*'',
                CHR ''+'', CHR ''-'', CHR ''.'', CHR ''^'', CHR ''_'', CHR 0x60, CHR ''|'', CHR ''~'']"

fun canon_from :: "bool \<Rightarrow> string \<Rightarrow> string" where
  "canon_from up [] = []"
| "canon_from up (c # cs) =
     (if up then upper c else lower c) # canon_from (c = CHR ''-'') cs"

text \<open>\<^verbatim>\<open>http.CanonicalHeaderKey\<close>: a key with a byte that is no token byte is left alone.\<close>

definition CanonicalHeaderKey :: "string \<Rightarrow> string" where
  "CanonicalHeaderKey k = (if list_all token_char k then canon_from True k else k)"

definition header_Set :: "string \<Rightarrow> string \<Rightarrow> header \<Rightarrow> header" where
  "header_Set k v h = AList.update (CanonicalHeaderKey k) [v] h"

definition header_Get :: "header \<Rightarrow> string \<Rightarrow> string" where
  "header_Get h k =
     (case map_of h (CanonicalHeaderKey k) of Some (v # _) \<Rightarrow> v | _ \<Rightarrow> [])"

text \<open>
  A header or trailer value on the wire: line breaks become blanks, and blanks at both ends
  are dropped.
\<close>

definition wire_blank :: "char \<Rightarrow> bool" where
  "wire_blank c \<longleftrightarrow> c = sp \<or> c = CHR 0x09 \<or> c = nl \<or> c = cr"

definition wire_value :: "string \<Rightarrow> string" where
  "wire_value v =
     rev (dropWhile wire_blank (rev (dropWhile wire_blank
       (map (\<lambda>c. if c = nl \<or> c = cr then sp else c) v))))"

lemma dropWhile_both_Nil: "rev (dropWhile P (rev (dropWhile P v))) = [] \<longleftrightarrow> list_all P v"
proof -
  have "set v = set (takeWhile P v) \<union> set (dropWhile P v)"
    by (metis set_append takeWhile_dropWhile_id)
  then have "(\<forall>x \<in> set (dropWhile P v). P x) \<longleftrightarrow> list_all P v"
    by (auto simp: list_all_iff dest: set_takeWhileD)
  then show ?thesis by (simp add: dropWhile_eq_Nil_conv)
qed

text \<open>A message survives the wire if it has a byte that is not blank.\<close>

lemma wire_value_Nil_iff: "wire_value v = [] \<longleftrightarrow> list_all wire_blank v"
proof -
  have "wire_blank (if c = nl \<or> c = cr then sp else c) = wire_blank c" for c
    by (simp add: wire_blank_def)
  then have "list_all wire_blank (map (\<lambda>c. if c = nl \<or> c = cr then sp else c) v) = list_all wire_blank v"
    unfolding list_all_iff set_map ball_simps by simp
  then show ?thesis unfolding wire_value_def dropWhile_both_Nil .
qed

subsection \<open>URLs\<close>

record url =
  url_scheme :: string
  url_host :: string
  url_path :: string
  url_query :: string

definition host_char :: "char \<Rightarrow> bool" where
  "host_char c \<longleftrightarrow> alphanumeric c \<or> CHR 0x80 \<le> c
     \<or> c \<in> set (''-_.~!$&()*+,;=:[]<>'' @ [CHR 0x27, CHR 0x22])"

definition port_ok :: "string \<Rightarrow> bool" where
  "port_ok h \<longleftrightarrow>
     (case cut CHR '':'' (rev h) of
        None \<Rightarrow> True
      | Some (p, _) \<Rightarrow> CHR '']'' \<in> set p \<or> list_all (\<lambda>c. c \<in> set digit_chars) p)"

fun cut_scheme :: "string \<Rightarrow> (string \<times> string) option" where
  "cut_scheme [] = None"
| "cut_scheme (c # cs) =
     (if HasPrefix (c # cs) ''://'' then Some ([], drop 3 (c # cs))
      else map_option (\<lambda>(a, b). (c # a, b)) (cut_scheme cs))"

text \<open>\<^verbatim>\<open>url.Parse\<close> for an absolute URL with an authority.\<close>

definition parse_url :: "string \<Rightarrow> go_error + url" where
  "parse_url s =
     (if list_ex (\<lambda>c. c < CHR 0x20 \<or> c = CHR 0x7F) s
      then Inl (ErrorString ''net/url: invalid control character in URL'')
      else case cut_scheme (takeWhile (\<lambda>c. c \<noteq> CHR ''#'') s) of
        None \<Rightarrow> Inl (ErrorString ''unsupported protocol scheme'')
      | Some (scheme, rest) \<Rightarrow>
          (let host = takeWhile (\<lambda>c. c \<noteq> CHR ''/'' \<and> c \<noteq> CHR ''?'') rest;
               pq = drop (length host) rest;
               path = takeWhile (\<lambda>c. c \<noteq> CHR ''?'') pq;
               query = drop (Suc (length path)) pq
           in if \<not> list_all host_char host \<or> \<not> port_ok host
              then Inl (ErrorString ''invalid host in URL'')
              else Inr \<lparr>url_scheme = scheme, url_host = host, url_path = path, url_query = query\<rparr>))"

definition hex_value :: "char \<Rightarrow> nat option" where
  "hex_value c =
     (case index_of c ''0123456789abcdef'' of
        Some n \<Rightarrow> Some n
      | None \<Rightarrow> index_of c ''0123456789ABCDEF'')"

fun query_unescape :: "string \<Rightarrow> string option" where
  "query_unescape [] = Some []"
| "query_unescape (c # r) =
     (if c = CHR ''%'' then
        (case r of
           a # b # t \<Rightarrow>
             (case (hex_value a, hex_value b) of
                (Some i, Some j) \<Rightarrow> map_option (Cons (char_of (i * 16 + j))) (query_unescape t)
              | _ \<Rightarrow> None)
         | _ \<Rightarrow> None)
      else map_option (Cons (if c = CHR ''+'' then sp else c)) (query_unescape r))"

definition query_pair :: "string \<Rightarrow> (string \<times> string) option" where
  "query_pair s =
     (if s = [] \<or> CHR '';'' \<in> set s then None
      else let (k, v) = (case cut CHR ''='' s of None \<Rightarrow> (s, []) | Some kv \<Rightarrow> kv)
           in case (query_unescape k, query_unescape v) of
                (Some k', Some v') \<Rightarrow> Some (k', v')
              | _ \<Rightarrow> None)"

text \<open>\<^verbatim>\<open>URL.Query().Get\<close>: the first value of the key, empty when there is none.\<close>

definition query_Get :: "string \<Rightarrow> string \<Rightarrow> string" where
  "query_Get q k =
     (case map_of (List.map_filter query_pair (split_on CHR ''&'' q)) k of
        Some v \<Rightarrow> v | None \<Rightarrow> [])"

subsection \<open>Requests and basic authentication\<close>

record request =
  rq_method :: string
  rq_url :: url
  rq_header :: header

text \<open>\<^verbatim>\<open>req.SetBasicAuth\<close> and \<^verbatim>\<open>req.BasicAuth\<close>.\<close>

definition SetBasicAuth :: "string \<Rightarrow> string \<Rightarrow> request \<Rightarrow> request" where
  "SetBasicAuth user pass rq =
     rq\<lparr>rq_header := header_Set ''Authorization''
        (''Basic '' @ EncodeToString (user @ '':'' @ pass)) (rq_header rq)\<rparr>"

definition BasicAuth_of :: "request \<Rightarrow> (string \<times> string) option" where
  "BasicAuth_of rq =
     (let v = header_Get (rq_header rq) ''Authorization''
      in if map lower (take 6 v) = ''basic '' then
           (case DecodeString (drop 6 v) of
              None \<Rightarrow> None
            | Some s \<Rightarrow> cut CHR '':'' s)
         else None)"

lemma header_Get_Set [simp]: "header_Get (header_Set k v h) k = v"
  by (simp add: header_Get_def header_Set_def update_conv')

lemma header_Get_Set_other:
  "CanonicalHeaderKey j \<noteq> CanonicalHeaderKey k \<Longrightarrow> header_Get (header_Set k v h) j = header_Get h j"
  by (simp add: header_Get_def header_Set_def update_conv')

text \<open>The server reads back what the client set, if the user name has no colon.\<close>

lemma BasicAuth_SetBasicAuth:
  assumes "CHR '':'' \<notin> set user"
  shows "BasicAuth_of (SetBasicAuth user pass rq) = Some (user, pass)"
proof -
  have "map lower (take 6 (''Basic '' @ s)) = ''basic ''" for s by simp code_simp
  then show ?thesis using assms DecodeString_EncodeToString
    by (simp add: BasicAuth_of_def SetBasicAuth_def Let_def)
qed

subsection \<open>Responses\<close>

record http_response =
  rs_code :: int
  rs_status :: string
  rs_header :: header
  rs_body :: reader
  rs_trailer :: header

definition StatusText :: "int \<Rightarrow> string" where
  "StatusText n =
     (if n = 200 then ''OK'' else if n = 400 then ''Bad Request''
      else if n = 401 then ''Unauthorized'' else if n = 404 then ''Not Found''
      else if n = 500 then ''Internal Server Error'' else [])"

text \<open>
  The response writer of a handler: the header map, whether the status line has been sent
  and with which header, the trailer keys announced by then, the body so far, and how many
  more writes the connection takes before it fails (\<open>None\<close>: no failure).
\<close>

record response_writer =
  rw_header :: header
  rw_wrote :: bool
  rw_code :: int
  rw_sent :: header
  rw_declared :: "string list"
  rw_body :: "string list"
  rw_left :: "nat option"
  rw_logs :: "log_entry list"

definition new_writer :: "nat option \<Rightarrow> response_writer" where
  "new_writer left = \<lparr>rw_header = [], rw_wrote = False, rw_code = 0, rw_sent = [], rw_declared = [],
     rw_body = [], rw_left = left, rw_logs = []\<rparr>"

definition rw_set_header :: "string \<Rightarrow> string \<Rightarrow> response_writer \<Rightarrow> response_writer" where
  "rw_set_header k v rw = rw\<lparr>rw_header := header_Set k v (rw_header rw)\<rparr>"

definition declared_trailers :: "header \<Rightarrow> string list" where
  "declared_trailers h =
     (case map_of h ''Trailer'' of
        None \<Rightarrow> []
      | Some vs \<Rightarrow>
          filter (\<lambda>k. k \<noteq> []) (concat (map (\<lambda>v. map (CanonicalHeaderKey \<circ> TrimSpace) (split_on CHR '','' v)) vs)))"

text \<open>\<^verbatim>\<open>WriteHeader\<close> fixes the status, the header that is sent and the announced trailers.\<close>

definition rw_WriteHeader :: "int \<Rightarrow> response_writer \<Rightarrow> response_writer" where
  "rw_WriteHeader code rw =
     (if rw_wrote rw then rw
      else rw\<lparr>rw_wrote := True, rw_code := code,
        rw_declared := declared_trailers (rw_header rw),
        rw_sent := filter (\<lambda>(k, _). k \<notin> set (declared_trailers (rw_header rw))) (rw_header rw)\<rparr>)"

definition ErrConnection :: go_error where
  "ErrConnection = ErrorString ''write: broken pipe''"

definition rw_Write :: "string \<Rightarrow> response_writer \<Rightarrow> err \<times> response_writer" where
  "rw_Write s rw =
     (let rw = rw_WriteHeader 200 rw
      in case rw_left rw of
           None \<Rightarrow> (None, rw\<lparr>rw_body := rw_body rw @ [s]\<rparr>)
         | Some 0 \<Rightarrow> (Some ErrConnection, rw)
         | Some (Suc n) \<Rightarrow> (None, rw\<lparr>rw_body := rw_body rw @ [s], rw_left := Some n\<rparr>))"

definition rw_log :: "log_entry \<Rightarrow> response_writer \<Rightarrow> response_writer" where
  "rw_log e rw = rw\<lparr>rw_logs := rw_logs rw @ [e]\<rparr>"

text \<open>\<^verbatim>\<open>http.Error\<close>.\<close>

definition http_Error :: "string \<Rightarrow> int \<Rightarrow> response_writer \<Rightarrow> response_writer" where
  "http_Error msg code rw =
     snd (rw_Write (msg @ [nl]) (rw_WriteHeader code
       (rw_set_header ''X-Content-Type-Options'' ''nosniff''
         (rw_set_header ''Content-Type'' ''text/plain; charset=utf-8'' rw))))"

text \<open>
  What arrives at the client when the handler has returned: the announced trailers carry
  the values their keys have in the header map at that time.
\<close>

definition finish_response :: "response_writer \<Rightarrow> http_response" where
  "finish_response rw0 =
     (let rw = rw_WriteHeader 200 rw0
      in \<lparr>rs_code = rw_code rw,
          rs_status = decimal (rw_code rw) @ '' '' @ StatusText (rw_code rw),
          rs_header = rw_sent rw,
          rs_body = \<lparr>rd_chunks = rw_body rw, rd_err = None\<rparr>,
          rs_trailer = map (\<lambda>k. (k, case map_of (rw_header rw) k of
             None \<Rightarrow> [] | Some vs \<Rightarrow> map wire_value vs)) (rw_declared rw)\<rparr>)"

text \<open>
  The network between the two: it delivers the response whole, or breaks after some chunks
  of the body (then the client's read ends in \<^verbatim>\<open>unexpected EOF\<close> and there are no trailers).
\<close>

definition deliver :: "nat option \<Rightarrow> http_response \<Rightarrow> http_response" where
  "deliver cutoff rs =
     (case cutoff of
        None \<Rightarrow> rs
      | Some n \<Rightarrow> rs\<lparr>rs_body := \<lparr>rd_chunks = take n (rd_chunks (rs_body rs)),
                                rd_err = Some ErrUnexpectedEOF\<rparr>, rs_trailer := []\<rparr>)"

lemma deliver_None [simp]: "deliver None rs = rs"
  by (simp add: deliver_def)

lemma deliver_code [simp]: "rs_code (deliver cutoff rs) = rs_code rs"
  by (simp add: deliver_def split: option.split)

end
