(* ===== verification/Tls_Config.thy ===== *)
theory Tls_Config
  imports Go_Base
begin

text \<open>
  TLS configurations as the two programs build them with \<^verbatim>\<open>code.cloudfoundry.org/tlsconfig\<close>
  (vendored). Certificates are kept as text; parsing and verifying them is a parameter of
  type \<open>x509\<close>.
\<close>

record tls_config =
  MinVersion :: nat
  MaxVersion :: nat
  CipherSuites :: "string list"
  Certificates :: "string list"
  RootCAs :: "string list option"
  ClientCAs :: "string list option"
  RequireClientCert :: bool
  tls_ServerName :: string
  VerifyPeer :: "string list option"

definition empty_tls :: tls_config where
  "empty_tls = \<lparr>MinVersion = 0, MaxVersion = 0, CipherSuites = [], Certificates = [],
     RootCAs = None, ClientCAs = None, RequireClientCert = False, tls_ServerName = [],
     VerifyPeer = None\<rparr>"

text \<open>
  \<open>x_keypair\<close> is \<^verbatim>\<open>tls.X509KeyPair\<close>, \<open>x_append\<close> the certificates
  \<^verbatim>\<open>AppendCertsFromPEM\<close> finds in a text (it reports success if there is one), \<open>x_check\<close> the
  error of parsing a leaf certificate or of its validity period now, and \<open>x_verify\<close> whether
  a client certificate verifies against roots for a name.
\<close>

record x509 =
  x_keypair :: "string \<Rightarrow> string \<Rightarrow> go_error + string"
  x_append :: "string \<Rightarrow> string list"
  x_check :: "string \<Rightarrow> err"
  x_verify :: "string \<Rightarrow> string list \<Rightarrow> string \<Rightarrow> bool"

type_synonym tls_option = "tls_config \<Rightarrow> go_error + tls_config"

text \<open>\<^verbatim>\<open>Config.Server\<close> and \<^verbatim>\<open>Config.Client\<close>: the options in order, the first error returned.\<close>

fun apply_options :: "tls_option list \<Rightarrow> tls_config \<Rightarrow> go_error + tls_config" where
  "apply_options [] c = Inr c"
| "apply_options (f # fs) c =
     (case f c of Inl e \<Rightarrow> Inl e | Inr c' \<Rightarrow> apply_options fs c')"

definition build_tls :: "tls_option list \<Rightarrow> tls_option list \<Rightarrow> go_error + tls_config" where
  "build_tls opts late = apply_options (opts @ late) empty_tls"

definition VersionTLS12 :: nat where "VersionTLS12 = 0x0303"
definition VersionTLS13 :: nat where "VersionTLS13 = 0x0304"

definition internal_suites :: "string list" where
  "internal_suites = [''TLS_ECDHE_RSA_WITH_AES_256_GCM_SHA384'',
                      ''TLS_ECDHE_RSA_WITH_AES_128_GCM_SHA256'']"

definition WithInternalServiceDefaults :: tls_option where
  "WithInternalServiceDefaults c =
     Inr (c\<lparr>MinVersion := VersionTLS12, MaxVersion := VersionTLS13, CipherSuites := internal_suites\<rparr>)"

definition WithIdentity :: "x509 \<Rightarrow> string \<Rightarrow> tls_option" where
  "WithIdentity X cert c =
     (case x_check X cert of
        Some e \<Rightarrow> Inl (ErrorString (''failed to load keypair: '' @ Error e))
      | None \<Rightarrow> Inr (c\<lparr>Certificates := [cert]\<rparr>))"

definition WithClientAuthentication :: "string list \<Rightarrow> tls_option" where
  "WithClientAuthentication pool c = Inr (c\<lparr>RequireClientCert := True, ClientCAs := Some pool\<rparr>)"

definition WithAuthority :: "string list \<Rightarrow> tls_option" where
  "WithAuthority pool c = Inr (c\<lparr>RootCAs := Some pool\<rparr>)"

definition WithServerName :: "string \<Rightarrow> tls_option" where
  "WithServerName n c = Inr (c\<lparr>tls_ServerName := n\<rparr>)"

lemmas tls_option_defs = WithInternalServiceDefaults_def WithIdentity_def
  WithClientAuthentication_def WithAuthority_def WithServerName_def build_tls_def

end
