(* ===== verification/Service_Config.thy ===== *)
theory Service_Config
  imports Go_Files
begin

text \<open>
  Where the configuration comes from: the command line as \<^verbatim>\<open>flag\<close> parses it, the flags that
  \<^verbatim>\<open>lagerflags\<close> adds, and \<^verbatim>\<open>service-config\<close> (vendored), which finds the configuration text in a
  flag, a file or the process environment.
\<close>

subsection \<open>flag.FlagSet.Parse\<close>

text \<open>
  A flag takes a value or is boolean, and may refuse the value given. The result is the
  list of flags set, in order, or the exit of the process (\<^verbatim>\<open>flag.ExitOnError\<close>: status 2, and 0
  for \<^verbatim>\<open>-help\<close>).
\<close>

datatype flag_kind = StringFlag | BoolFlag | ValueFlag "string \<Rightarrow> bool"

definition bool_texts :: "string list" where
  "bool_texts = [''1'', ''t'', ''T'', ''TRUE'', ''true'', ''True'',
                 ''0'', ''f'', ''F'', ''FALSE'', ''false'', ''False'']"

fun flag_accepts :: "flag_kind \<Rightarrow> string \<Rightarrow> bool" where
  "flag_accepts StringFlag v = True"
| "flag_accepts BoolFlag v = (v \<in> set bool_texts)"
| "flag_accepts (ValueFlag ok) v = ok v"

definition flag_name_value :: "string \<Rightarrow> string \<times> string option" where
  "flag_name_value name =
     (case cut CHR ''='' name of None \<Rightarrow> (name, None) | Some (n, v) \<Rightarrow> (n, Some v))"

fun flag_Parse :: "(string \<rightharpoonup> flag_kind) \<Rightarrow> string list \<Rightarrow> nat + (string \<times> string) list" where
  "flag_Parse fl [] = Inr []"
| "flag_Parse fl (s # rest) =
     (if length s < 2 \<or> hd s \<noteq> CHR ''-'' then Inr []
      else let name = (if s ! 1 = CHR ''-'' then drop 2 s else drop 1 s)
      in if s = ''--'' then Inr []
      else if name = [] \<or> hd name = CHR ''-'' \<or> hd name = CHR ''='' then Inl 2
      else let (n, v) = flag_name_value name
      in case fl n of
           None \<Rightarrow> if n = ''help'' \<or> n = ''h'' then Inl 0 else Inl 2
         | Some BoolFlag \<Rightarrow>
             (let x = (case v of None \<Rightarrow> ''true'' | Some x \<Rightarrow> x)
              in if flag_accepts BoolFlag x then map_sum id (Cons (n, x)) (flag_Parse fl rest)
                 else Inl 2)
         | Some k \<Rightarrow>
             (case v of
                Some x \<Rightarrow>
                  if flag_accepts k x then map_sum id (Cons (n, x)) (flag_Parse fl rest) else Inl 2
              | None \<Rightarrow>
                  (case rest of
                     [] \<Rightarrow> Inl 2
                   | x # rest' \<Rightarrow>
                       if flag_accepts k x then map_sum id (Cons (n, x)) (flag_Parse fl rest')
                       else Inl 2)))"

text \<open>The value of a string flag after parsing: the last one set, or the default.\<close>

definition flag_value :: "(string \<times> string) list \<Rightarrow> string \<Rightarrow> string \<Rightarrow> string" where
  "flag_value fvs n dflt = (case map_of (rev fvs) n of None \<Rightarrow> dflt | Some v \<Rightarrow> v)"

text \<open>\<^verbatim>\<open>lagerflags.AddFlags\<close>.\<close>

definition lager_flags :: "string \<rightharpoonup> flag_kind" where
  "lager_flags =
     [''logLevel'' \<mapsto> StringFlag, ''redactSecrets'' \<mapsto> BoolFlag,
      ''redactPatterns'' \<mapsto> ValueFlag (\<lambda>_. True),
      ''timeFormat'' \<mapsto> ValueFlag (\<lambda>v. v = ''unix-epoch'' \<or> v = ''rfc3339'')]"

text \<open>\<^verbatim>\<open>lagerflags.New\<close> with the value the level flag has at the time of the call.\<close>

definition lager_level :: "string \<Rightarrow> log_level option" where
  "lager_level s =
     (if s = ''debug'' then Some DEBUG else if s = ''info'' then Some INFO
      else if s = ''error'' then Some ERROR else if s = ''fatal'' then Some FATAL else None)"

definition unknown_log_level :: "string \<Rightarrow> go_error" where
  "unknown_log_level s = ErrorString (''unknown log level: '' @ s)"

subsection \<open>service-config\<close>

definition service_flags :: "string \<rightharpoonup> flag_kind" where
  "service_flags = [''config'' \<mapsto> StringFlag, ''configPath'' \<mapsto> StringFlag]"

definition NoConfigError :: go_error where
  "NoConfigError = ErrorString ''No Config or Config Path Specified. Please supply one of the following: -config, -configPath, CONFIG, or CONFIG_PATH''"

definition read_config_file :: "os_env \<Rightarrow> string \<Rightarrow> world \<Rightarrow> (go_error + string) \<times> world" where
  "read_config_file E p w =
     (case os_Open E (path_Clean p) w of
        (Some e, w1) \<Rightarrow> (Inl (ErrorString (''Reading config file: '' @ Error e)), w1)
      | (None, w1) \<Rightarrow>
          (case os_read_all E (path_Clean p) w1 of
             (c, Some e, w2) \<Rightarrow> (Inl (ErrorString (''Reading config file: '' @ Error e)), w2)
           | (c, None, w2) \<Rightarrow> (Inr c, w2)))"

text \<open>\<^verbatim>\<open>ConfigBytes\<close>: the flag, then the file of the flag, then the two environment variables.\<close>

definition ConfigBytes ::
  "os_env \<Rightarrow> (string \<rightharpoonup> string) \<Rightarrow> (string \<times> string) list \<Rightarrow> world \<Rightarrow> (go_error + string) \<times> world" where
  "ConfigBytes E getenv fvs w =
     (let configFlag = flag_value fvs ''config'' [];
          configPathFlag = flag_value fvs ''configPath'' [];
          env = (\<lambda>n. case getenv n of None \<Rightarrow> [] | Some v \<Rightarrow> v)
      in if configFlag \<noteq> [] then (Inr configFlag, w)
         else if configPathFlag \<noteq> [] then read_config_file E configPathFlag w
         else if env ''CONFIG'' \<noteq> [] then (Inr (env ''CONFIG''), w)
         else if env ''CONFIG_PATH'' \<noteq> [] then read_config_file E (env ''CONFIG_PATH'') w
         else (Inl NoConfigError, w))"

text \<open>
  \<^verbatim>\<open>Read\<close>, with the YAML decoder as a parameter: it returns its error and the model as it has
  filled it so far. \<open>merge\<close> fills in the defaults.
\<close>

definition service_Read ::
  "os_env \<Rightarrow> (string \<rightharpoonup> string) \<Rightarrow> (string \<Rightarrow> 'm \<Rightarrow> err \<times> 'm) \<Rightarrow> ('m \<Rightarrow> 'm)
   \<Rightarrow> (string \<times> string) list \<Rightarrow> 'm \<Rightarrow> world \<Rightarrow> err \<times> 'm \<times> world" where
  "service_Read E getenv unmarshal merge fvs m w =
     (case ConfigBytes E getenv fvs w of
        (Inl e, w1) \<Rightarrow> (Some e, m, w1)
      | (Inr bytes, w1) \<Rightarrow>
          (case unmarshal bytes m of
             (Some e, m') \<Rightarrow> (Some (ErrorString (''Unmarshaling config: '' @ Error e)), m', w1)
           | (None, m') \<Rightarrow> (None, merge m', w1)))"

lemma read_config_file_fs [frame_simps]: "w_fs (snd (read_config_file E p w)) = w_fs w"
proof -
  obtain e w1 where o: "os_Open E (path_Clean p) w = (e, w1)" by fastforce
  obtain c r w2 where rd: "os_read_all E (path_Clean p) w1 = (c, r, w2)" by (metis prod_cases3)
  have "w_fs w1 = w_fs w" using os_Open_frame [of E "path_Clean p" w] o by simp
  moreover have "w_fs w2 = w_fs w1" using os_read_all_frame [of E "path_Clean p" w1] rd by simp
  ultimately show ?thesis using o rd
    by (cases e; cases r) (simp_all add: read_config_file_def)
qed

lemma ConfigBytes_fs [frame_simps]: "w_fs (snd (ConfigBytes E g fvs w)) = w_fs w"
  by (simp add: ConfigBytes_def Let_def frame_simps)

end
