(* ===== verification/Client_Config.thy ===== *)
theory Client_Config
  imports Tls_Config Service_Config
begin

text \<open>
  \<^verbatim>\<open>config/config.go\<close> of the client: the configuration record, how the command line, the
  process environment and the configuration text are combined into it, and the TLS settings
  for the two kinds of servers the client talks to.
\<close>

record Instance =
  Address :: string
  UUID :: string

record Credentials =
  Username :: string
  Password :: string

record TLSConfig =
  EnableMutualTLS :: bool
  ServerCACert :: string
  ServerName :: string
  ClientCert :: string
  ClientKey :: string
  TLS_Config :: "tls_config option"

record BackendTLS =
  Backend_Enabled :: bool
  Backend_ServerName :: string
  Backend_CA :: string
  Backend_InsecureSkipVerify :: bool

record client_config =
  Instances :: "Instance list"
  BackupServerPort :: int
  BackupAllMasters :: bool
  BackupFromInactiveNode :: bool
  GaleraAgentPort :: int
  config_Credentials :: Credentials
  TmpDir :: string
  OutputDir :: string
  SymmetricKey :: string
  config_TLS :: TLSConfig
  config_Logger :: logger
  stdout_level :: log_level
  MetadataFields :: "string gomap"
  config_BackendTLS :: BackendTLS

definition zero_config :: client_config where
  "zero_config = \<lparr>Instances = [], BackupServerPort = 0, BackupAllMasters = False,
     BackupFromInactiveNode = False, GaleraAgentPort = 0,
     config_Credentials = \<lparr>Username = [], Password = []\<rparr>, TmpDir = [], OutputDir = [],
     SymmetricKey = [],
     config_TLS = \<lparr>EnableMutualTLS = False, ServerCACert = [], ServerName = [], ClientCert = [],
       ClientKey = [], TLS_Config = None\<rparr>,
     config_Logger = NewLogger [], stdout_level = INFO, MetadataFields = [],
     config_BackendTLS = \<lparr>Backend_Enabled = False, Backend_ServerName = [], Backend_CA = [],
       Backend_InsecureSkipVerify = False\<rparr>\<rparr>"

text \<open>
  \<^verbatim>\<open>HTTPClient\<close>: the TLS configuration of the client's transport, if it has one. The result of
  \<^verbatim>\<open>AppendCertsFromPEM\<close> is not looked at, and \<^verbatim>\<open>InsecureSkipVerify\<close> is not used.
\<close>

definition HTTPClient :: "x509 \<Rightarrow> client_config \<Rightarrow> tls_config option" where
  "HTTPClient X c =
     (let b = config_BackendTLS c
      in if Backend_Enabled b
         then Some (empty_tls\<lparr>tls_ServerName := Backend_ServerName b,
                              RootCAs := Some (x_append X (Backend_CA b))\<rparr>)
         else None)"

text \<open>\<^verbatim>\<open>unmarshalTLSConfig\<close>.\<close>

definition unmarshalTLSConfig :: "x509 \<Rightarrow> TLSConfig \<Rightarrow> err \<times> TLSConfig" where
  "unmarshalTLSConfig X t =
     (case (if EnableMutualTLS t then
              (case x_keypair X (ClientCert t) (ClientKey t) of
                 Inl e \<Rightarrow> Inl (WithStack (WithMessage ''failed to load client certificate or private key'' e))
               | Inr cert \<Rightarrow> Inr [WithInternalServiceDefaults, WithIdentity X cert])
            else Inr [WithInternalServiceDefaults]) of
        Inl e \<Rightarrow> (Some e, t)
      | Inr certConfig \<Rightarrow>
          (let serverCA = x_append X (ServerCACert t)
           in if serverCA = [] then (Some (ErrorString ''unable to load server CA certificate''), t)
              else case build_tls certConfig [WithAuthority serverCA, WithServerName (ServerName t)] of
                Inl e \<Rightarrow> (Some (WithStack (WithMessage ''failed to build client TLS config'' e)), t)
              | Inr c \<Rightarrow> (None, t\<lparr>TLS_Config := Some c\<rparr>)))"

text \<open>
  \<^verbatim>\<open>NewConfig\<close>. The flag for the encryption key exists only when the environment variable does
  not; the logger is made before the flags are parsed, so with the default level.
\<close>

definition client_flags :: "bool \<Rightarrow> string \<rightharpoonup> flag_kind" where
  "client_flags key_in_env =
     service_flags ++ lager_flags
     ++ (if key_in_env then Map.empty else [''encryption-key'' \<mapsto> StringFlag])"

definition NewConfig ::
  "os_env \<Rightarrow> x509 \<Rightarrow> (string \<rightharpoonup> string) \<Rightarrow> (string \<Rightarrow> client_config \<Rightarrow> err \<times> client_config)
   \<Rightarrow> string list \<Rightarrow> world \<Rightarrow> (err \<times> client_config) run \<times> world" where
  "NewConfig E X getenv unmarshal osArgs w =
     (case osArgs of
        [] \<Rightarrow> (Panicked index_out_of_range, w)
      | binaryName # executableArgs \<Rightarrow>
          (let rootConfig = zero_config\<lparr>MetadataFields := [], config_Logger := NewLogger binaryName,
                 stdout_level := the (lager_level ''info'')\<rparr>
           in case flag_Parse (client_flags (getenv ''ENCRYPTION_KEY'' \<noteq> None)) executableArgs of
                Inl code \<Rightarrow> (OsExit code, w)
              | Inr fvs \<Rightarrow>
                  (let encryptionKey = (case getenv ''ENCRYPTION_KEY'' of
                           Some key \<Rightarrow> key | None \<Rightarrow> flag_value fvs ''encryption-key'' [])
                   in case service_Read E getenv unmarshal id fvs rootConfig w of
                        (Some e, c, w1) \<Rightarrow> (Returned (Some e, c), w1)
                      | (None, c, w1) \<Rightarrow>
                          (case unmarshalTLSConfig X (config_TLS c) of
                             (Some e, t) \<Rightarrow> (Returned (Some e, c\<lparr>config_TLS := t\<rparr>), w1)
                           | (None, t) \<Rightarrow>
                               (let c1 = c\<lparr>config_TLS := t\<rparr>
                                in (Returned (None,
                                      if encryptionKey \<noteq> [] then c1\<lparr>SymmetricKey := encryptionKey\<rparr>
                                      else c1), w1))))))"

text \<open>
  A decoder that fills the fields of the configuration text leaves the two fields that have
  no counterpart there, the logger and its level, alone.
\<close>

definition keeps_logger :: "(string \<Rightarrow> client_config \<Rightarrow> err \<times> client_config) \<Rightarrow> bool" where
  "keeps_logger u \<longleftrightarrow> (\<forall>b c. stdout_level (snd (u b c)) = stdout_level c
     \<and> config_Logger (snd (u b c)) = config_Logger c)"

lemma unmarshalTLSConfig_None:
  assumes "unmarshalTLSConfig X t = (None, t')"
  obtains c where "TLS_Config t' = Some c" and "t' = t\<lparr>TLS_Config := Some c\<rparr>"
    and "RootCAs c = Some (x_append X (ServerCACert t))" and "x_append X (ServerCACert t) \<noteq> []"
    and "tls_ServerName c = ServerName t" and "MinVersion c = VersionTLS12"
    and "CipherSuites c = internal_suites"
    and "EnableMutualTLS t \<longleftrightarrow> Certificates c \<noteq> []"
  using assms
  by (auto simp: unmarshalTLSConfig_def tls_option_defs empty_tls_def Let_def
      split: if_splits sum.splits option.splits)

end
