(* ===== verification/Download.thy ===== *)
theory Download
  imports Go_HTTP Client_Config "HOL-Library.Word"
begin

text \<open>
  \<^verbatim>\<open>download/download.go\<close> and \<^verbatim>\<open>clock/clock.go\<close> of the client. A goroutine copies the response
  body to the backup writer through a reader that counts bytes; the caller waits for it in
  a loop that also reports progress every minute. The waiting is modelled twice: as a step
  relation in which the goroutine and the loop interleave freely, and as a function that
  runs one interleaving, given by how many ticks fire before each step of the goroutine.
\<close>

subsection \<open>The copier and the waiting loop\<close>

datatype copier_pc = Copying | Sending | Finished

text \<open>
  \<open>dl_unread\<close> is what the copier still has to read, \<open>dl_bytes\<close> the counter of the tracking
  reader (a 64-bit \<^verbatim>\<open>int\<close>), \<open>dl_err\<close> the captured variable \<^verbatim>\<open>err\<close>, \<open>dl_copyErr\<close> and \<open>dl_done\<close>
  the variables of the loop, \<open>dl_progress\<close> the byte counts reported.
\<close>

record dl_state =
  dl_unread :: "string list"
  dl_bytes :: "64 word"
  dl_pc :: copier_pc
  dl_err :: err
  dl_copyErr :: err
  dl_done :: bool
  dl_progress :: "64 word list"

definition dl_init :: "string list \<Rightarrow> dl_state" where
  "dl_init cs = \<lparr>dl_unread = cs, dl_bytes = 0, dl_pc = Copying, dl_err = None, dl_copyErr = None,
     dl_done = False, dl_progress = []\<rparr>"

text \<open>\<^verbatim>\<open>trackingReader.Read\<close> with \<^verbatim>\<open>incrementBytesRead\<close>, and \<^verbatim>\<open>getBytesRead\<close>; both hold the lock.\<close>

definition incrementBytesRead :: "nat \<Rightarrow> dl_state \<Rightarrow> dl_state" where
  "incrementBytesRead n s = s\<lparr>dl_bytes := dl_bytes s + of_nat n\<rparr>"

definition getBytesRead :: "dl_state \<Rightarrow> 64 word" where
  "getBytesRead s = dl_bytes s"

definition tracking_Read :: "string \<Rightarrow> dl_state \<Rightarrow> dl_state" where
  "tracking_Read c s = incrementBytesRead (length c) (s\<lparr>dl_unread := tl (dl_unread s)\<rparr>)"

definition report_progress :: "dl_state \<Rightarrow> dl_state" where
  "report_progress s = s\<lparr>dl_progress := dl_progress s @ [getBytesRead s]\<rparr>"

definition copier_return :: "err \<Rightarrow> dl_state \<Rightarrow> dl_state" where
  "copier_return res s = s\<lparr>dl_err := res, dl_pc := Sending\<rparr>"

definition loop_receive :: "dl_state \<Rightarrow> dl_state" where
  "loop_receive s = s\<lparr>dl_copyErr := dl_err s, dl_done := True, dl_pc := Finished\<rparr>"

lemmas dl_op_defs = incrementBytesRead_def getBytesRead_def tracking_Read_def
  report_progress_def copier_return_def loop_receive_def

text \<open>
  The steps: the copier reads a chunk, the copier's \<^verbatim>\<open>WriteStream\<close> returns and it blocks on the
  channel, the timer fires in the \<^verbatim>\<open>select\<close>, and the rendezvous on the channel.
\<close>

inductive dl_step :: "err \<Rightarrow> dl_state \<Rightarrow> dl_state \<Rightarrow> bool" for res where
  read: "dl_pc s = Copying \<Longrightarrow> dl_unread s = c # cs \<Longrightarrow> dl_step res s (tracking_Read c s)"
| return: "dl_pc s = Copying \<Longrightarrow> dl_unread s = [] \<Longrightarrow> dl_step res s (copier_return res s)"
| tick: "\<not> dl_done s \<Longrightarrow> dl_step res s (report_progress s)"
| receive: "\<not> dl_done s \<Longrightarrow> dl_pc s = Sending \<Longrightarrow> dl_step res s (loop_receive s)"

inductive_cases dl_step_cases: "dl_step res s t"

inductive dl_reach :: "err \<Rightarrow> dl_state \<Rightarrow> dl_state \<Rightarrow> bool" for res where
  start: "dl_reach res s s"
| step: "dl_reach res s t \<Longrightarrow> dl_step res t u \<Longrightarrow> dl_reach res s u"

lemma dl_reach_trans: "dl_reach res t u \<Longrightarrow> dl_reach res s t \<Longrightarrow> dl_reach res s u"
  by (induction rule: dl_reach.induct) (auto intro: dl_reach.step)

lemma dl_reach_one: "dl_step res s t \<Longrightarrow> dl_reach res s t"
  by (rule dl_reach.step [OF dl_reach.start])

text \<open>
  The invariant: the counter is the number of bytes read, the captured error is unset until
  the copier has returned and its result from then on, and the loop is done exactly when the
  rendezvous has happened, with the same error on both sides.
\<close>

definition dl_inv :: "err \<Rightarrow> string list \<Rightarrow> dl_state \<Rightarrow> bool" where
  "dl_inv res cs s \<longleftrightarrow>
     (\<exists>rd. cs = rd @ dl_unread s \<and> dl_bytes s = of_nat (length (concat rd))
       \<and> (\<forall>b \<in> set (dl_progress s). \<exists>pre. prefix pre rd \<and> b = of_nat (length (concat pre))))
     \<and> (dl_pc s = Copying \<longrightarrow> \<not> dl_done s)
     \<and> (dl_pc s \<noteq> Copying \<longrightarrow> dl_unread s = [] \<and> dl_err s = res)
     \<and> (dl_pc s = Sending \<longrightarrow> \<not> dl_done s)
     \<and> (dl_pc s = Finished \<longleftrightarrow> dl_done s)
     \<and> (dl_done s \<longrightarrow> dl_copyErr s = res)"

lemma dl_inv_init: "dl_inv res cs (dl_init cs)"
  by (auto simp: dl_inv_def dl_init_def)

lemma dl_inv_step:
  assumes "dl_step res s t" and "dl_inv res cs s"
  shows "dl_inv res cs t"
proof -
  from assms(2) obtain rd where rd: "cs = rd @ dl_unread s" "dl_bytes s = of_nat (length (concat rd))"
    and pr: "\<forall>b \<in> set (dl_progress s). \<exists>pre. prefix pre rd \<and> b = of_nat (length (concat pre))"
    and ctl: "dl_pc s = Copying \<longrightarrow> \<not> dl_done s"
      "dl_pc s \<noteq> Copying \<longrightarrow> dl_unread s = [] \<and> dl_err s = res"
      "dl_pc s = Finished \<longleftrightarrow> dl_done s" "dl_done s \<longrightarrow> dl_copyErr s = res"
    by (auto simp: dl_inv_def)
  from assms(1) show ?thesis
  proof (cases rule: dl_step.cases)
    case (read c xs)
    have "\<forall>b \<in> set (dl_progress s). \<exists>pre. prefix pre (rd @ [c]) \<and> b = of_nat (length (concat pre))"
      using pr by (meson prefix_append)
    with read rd ctl show ?thesis
      unfolding dl_inv_def by (intro conjI exI [of _ "rd @ [c]"]) (auto simp: dl_op_defs)
  next
    case return
    with rd pr ctl show ?thesis
      unfolding dl_inv_def by (intro conjI exI [of _ rd]) (auto simp: dl_op_defs)
  next
    case tick
    with rd pr ctl show ?thesis
      unfolding dl_inv_def by (intro conjI exI [of _ rd]) (auto simp: dl_op_defs)
  next
    case receive
    with rd pr ctl show ?thesis
      unfolding dl_inv_def by (intro conjI exI [of _ rd]) (auto simp: dl_op_defs)
  qed
qed

lemma dl_reach_inv: "dl_reach res s t \<Longrightarrow> dl_inv res cs s \<Longrightarrow> dl_inv res cs t"
  by (induction rule: dl_reach.induct) (auto intro: dl_inv_step)

text \<open>Until the loop is done there is always a step other than a tick, and it makes progress.\<close>

fun dl_rank :: "copier_pc \<Rightarrow> nat" where
  "dl_rank Copying = 2"
| "dl_rank Sending = 1"
| "dl_rank Finished = 0"

definition dl_left :: "dl_state \<Rightarrow> nat" where
  "dl_left s = length (dl_unread s) + dl_rank (dl_pc s)"

lemma dl_progress_step:
  assumes "dl_inv res cs s" and "\<not> dl_done s"
  obtains t where "dl_step res s t" and "dl_left t < dl_left s" and "dl_progress t = dl_progress s"
proof (cases "dl_pc s")
  case Copying
  show thesis
  proof (cases "dl_unread s")
    case Nil
    with Copying show thesis
      by (intro that [OF dl_step.return]) (auto simp: dl_op_defs dl_left_def)
  next
    case (Cons c cs')
    with Copying show thesis
      by (intro that [OF dl_step.read]) (auto simp: dl_op_defs dl_left_def)
  qed
next
  case Sending
  with assms show thesis
    by (intro that [OF dl_step.receive]) (auto simp: dl_op_defs dl_left_def)
next
  case Finished
  with assms show thesis by (auto simp: dl_inv_def)
qed

lemma dl_step_left: "dl_step res s t \<Longrightarrow> dl_left t \<le> dl_left s"
  by (elim dl_step_cases) (auto simp: dl_op_defs dl_left_def)

subsection \<open>One interleaving as a function\<close>

fun report_n :: "nat \<Rightarrow> dl_state \<Rightarrow> dl_state" where
  "report_n 0 s = s"
| "report_n (Suc n) s = report_n n (report_progress s)"

text \<open>\<open>ticks i\<close> ticks fire before the \<open>i\<close>-th step of the copier.\<close>

fun dl_loop :: "(nat \<Rightarrow> nat) \<Rightarrow> nat \<Rightarrow> err \<Rightarrow> string list \<Rightarrow> dl_state \<Rightarrow> dl_state" where
  "dl_loop ticks i res [] s =
     loop_receive (report_n (ticks (Suc i)) (copier_return res (report_n (ticks i) s)))"
| "dl_loop ticks i res (c # cs) s =
     dl_loop ticks (Suc i) res cs (tracking_Read c (report_n (ticks i) s))"

lemma report_n_keeps [simp]:
  "dl_unread (report_n n s) = dl_unread s" "dl_pc (report_n n s) = dl_pc s"
  "dl_done (report_n n s) = dl_done s" "dl_err (report_n n s) = dl_err s"
  "dl_bytes (report_n n s) = dl_bytes s" "dl_copyErr (report_n n s) = dl_copyErr s"
  by (induction n arbitrary: s) (auto simp: dl_op_defs)

lemma report_n_reach: "\<not> dl_done s \<Longrightarrow> dl_reach res s (report_n n s)"
proof (induction n arbitrary: s)
  case (Suc n)
  then have "dl_reach res (report_progress s) (report_n n (report_progress s))"
    by (simp add: dl_op_defs)
  with dl_reach_one [OF dl_step.tick [OF Suc.prems]] show ?case
    by (auto intro: dl_reach_trans)
qed (simp add: dl_reach.start)

lemma dl_loop_reach:
  assumes "dl_unread s = cs" and "dl_pc s = Copying" and "\<not> dl_done s"
  shows "dl_reach res s (dl_loop ticks i res cs s)"
  using assms
proof (induction cs arbitrary: i s)
  case Nil
  let ?a = "report_n (ticks i) s" and ?b = "copier_return res (report_n (ticks i) s)"
  let ?c = "report_n (ticks (Suc i)) (copier_return res (report_n (ticks i) s))"
  have "dl_reach res s ?a" using Nil by (intro report_n_reach)
  moreover have "dl_step res ?a ?b" by (rule dl_step.return) (use Nil in simp_all)
  moreover have "dl_reach res ?b ?c" by (rule report_n_reach) (use Nil in \<open>simp add: dl_op_defs\<close>)
  moreover have "dl_step res ?c (loop_receive ?c)"
    by (rule dl_step.receive) (use Nil in \<open>simp_all add: copier_return_def\<close>)
  ultimately show ?case by (auto intro: dl_reach.step dl_reach_trans)
next
  case (Cons c cs)
  let ?a = "report_n (ticks i) s"
  have a: "dl_reach res s ?a" using Cons by (intro report_n_reach)
  have st: "dl_step res ?a (tracking_Read c ?a)" by (rule dl_step.read) (use Cons in simp_all)
  have "dl_reach res (tracking_Read c ?a) (dl_loop ticks (Suc i) res cs (tracking_Read c ?a))"
    by (rule Cons.IH) (use Cons in \<open>simp_all add: tracking_Read_def incrementBytesRead_def\<close>)
  with a st show ?case by (auto intro: dl_reach.step dl_reach_trans)
qed

lemma dl_loop_done: "dl_done (dl_loop ticks i res cs s)"
  by (induction cs arbitrary: i s) (simp_all add: loop_receive_def)

text \<open>What the caller of the loop sees does not depend on the interleaving.\<close>

lemma dl_loop_result:
  "dl_err (dl_loop ticks 0 res cs (dl_init cs)) = res"
  "dl_copyErr (dl_loop ticks 0 res cs (dl_init cs)) = res"
proof -
  have "dl_reach res (dl_init cs) (dl_loop ticks 0 res cs (dl_init cs))"
    by (rule dl_loop_reach) (simp_all add: dl_init_def)
  then have "dl_inv res cs (dl_loop ticks 0 res cs (dl_init cs))"
    by (rule dl_reach_inv) (rule dl_inv_init)
  with dl_loop_done [of ticks 0 res cs "dl_init cs"]
  show "dl_err (dl_loop ticks 0 res cs (dl_init cs)) = res"
    "dl_copyErr (dl_loop ticks 0 res cs (dl_init cs)) = res"
    by (auto simp: dl_inv_def)
qed

subsection \<open>DownloadBackup\<close>

text \<open>\<^verbatim>\<open>TrailerKey\<close>: the trailer in which the server reports that a backup failed.\<close>

definition TrailerKey :: string where
  "TrailerKey = CanonicalHeaderKey ''X-Backup-Error''"

text \<open>
  What the download meets and does not control, each at a moment given by the number of
  system calls so far: what \<^verbatim>\<open>http.Client.Do\<close> returns for a request over a transport with a
  TLS configuration, when the timer of the waiting loop fires, and the text
  \<^verbatim>\<open>humanize.Bytes\<close> makes of a count.
\<close>

record download_env =
  d_Do :: "nat \<Rightarrow> tls_config option \<Rightarrow> request \<Rightarrow> go_error + http_response"
  d_ticks :: "nat \<Rightarrow> nat \<Rightarrow> nat"
  d_humanize :: "64 word \<Rightarrow> string"

definition log_progress :: "download_env \<Rightarrow> logger \<Rightarrow> 64 word list \<Rightarrow> world \<Rightarrow> world" where
  "log_progress D lg ns w =
     fold (\<lambda>n. log_at INFO lg (''Downloaded '' @ d_humanize D n @ '' of backup so far'') None []) ns w"

text \<open>The trailers of a response are there once its body has been read to a regular end.\<close>

definition seen_trailer :: "http_response \<Rightarrow> stream_use \<Rightarrow> header" where
  "seen_trailer rs u = (if su_end u \<and> rd_err (rs_body rs) = None then rs_trailer rs else [])"

definition receive_body ::
  "download_env \<Rightarrow> logger \<Rightarrow> http_response \<Rightarrow> (reader \<Rightarrow> world \<Rightarrow> err \<times> stream_use \<times> world)
   \<Rightarrow> world \<Rightarrow> err \<times> world" where
  "receive_body D lg rs backupWriter w =
     (let w1 = log_at DEBUG lg ''Copying response body to backup writer'' None [] w;
          (res, u, w2) = backupWriter (rs_body rs) w1;
          cs = take (su_reads u) (rd_chunks (rs_body rs));
          s = dl_loop (d_ticks D (w_calls w)) 0 res cs (dl_init cs);
          w3 = log_progress D lg (dl_progress s) w2
      in if dl_copyErr s \<noteq> None
         then (withStack (dl_err s),
               log_at ERROR lg ''Failed to copy response to writer'' (dl_copyErr s) [] w3)
         else
           (let errorMessage = header_Get (seen_trailer rs u) TrailerKey
            in if errorMessage \<noteq> []
               then (Some (ErrorString errorMessage),
                     log_at ERROR lg ''The download was incomplete'' (Some (ErrorString errorMessage)) [] w3)
               else (None, w3)))"

definition status_error :: "int \<Rightarrow> go_error" where
  "status_error code =
     ErrorString
       (if code = 401 then ''Backup endpoint return Unauthorized with provided credentials''
        else if code = 500 then ''Backup endpoint returned Internal Server Error''
        else ''Non-200 http Response'')"

definition backup_request :: "client_config \<Rightarrow> url \<Rightarrow> request" where
  "backup_request c u =
     SetBasicAuth (Username (config_Credentials c)) (Password (config_Credentials c))
       \<lparr>rq_method = ''GET'', rq_url = u, rq_header = []\<rparr>"

definition DownloadBackup ::
  "download_env \<Rightarrow> client_config \<Rightarrow> string \<Rightarrow> (reader \<Rightarrow> world \<Rightarrow> err \<times> stream_use \<times> world)
   \<Rightarrow> world \<Rightarrow> err \<times> world" where
  "DownloadBackup D c backupURL backupWriter w0 =
     (let lg = config_Logger c;
          w = log_at INFO lg ''Starting to take backup'' None [(''url'', LStr backupURL)] w0
      in case parse_url backupURL of
           Inl e \<Rightarrow> (withStack (Some e), log_at ERROR lg ''Failed to create http request'' (Some e) [] w)
         | Inr u \<Rightarrow>
             (case d_Do D (w_calls w) (TLS_Config (config_TLS c)) (backup_request c u) of
                Inl e \<Rightarrow> (withStack (Some e), log_at ERROR lg ''Failed to make http request'' (Some e) [] w)
              | Inr rs \<Rightarrow>
                  if rs_code rs \<noteq> 200
                  then (Some (status_error (rs_code rs)),
                        log_at ERROR lg ''Response returned non-200'' (Some (status_error (rs_code rs)))
                          [(''response status'', LStr (rs_status rs))] w)
                  else receive_body D lg rs backupWriter w))"

subsection \<open>What a download does\<close>

lemma log_progress_frame [frame_simps]:
  "w_fs (log_progress D lg ns w) = w_fs w" "w_procs (log_progress D lg ns w) = w_procs w"
  "w_calls (log_progress D lg ns w) = w_calls w" "w_clock (log_progress D lg ns w) = w_clock w"
  by (induction ns arbitrary: w) (simp_all add: log_progress_def)

text \<open>The result of receiving the body does not depend on how the loop and the copier interleave.\<close>

lemma receive_body_result:
  assumes "backupWriter (rs_body rs) (log_at DEBUG lg ''Copying response body to backup writer'' None [] w)
    = (res, u, w2)"
  shows "fst (receive_body D lg rs backupWriter w) =
      (case res of Some e \<Rightarrow> Some (WithStack e)
       | None \<Rightarrow> (let m = header_Get (seen_trailer rs u) TrailerKey
                  in if m = [] then None else Some (ErrorString m)))"
    and "w_fs (snd (receive_body D lg rs backupWriter w)) = w_fs w2"
    and "w_procs (snd (receive_body D lg rs backupWriter w)) = w_procs w2"
  using assms
  by (auto simp: receive_body_def Let_def dl_loop_result frame_simps withStack_def split: option.split)

lemma receive_body_None:
  assumes "receive_body D lg rs backupWriter w = (None, w')"
  obtains u w2 where
    "backupWriter (rs_body rs) (log_at DEBUG lg ''Copying response body to backup writer'' None [] w)
      = (None, u, w2)"
    and "header_Get (seen_trailer rs u) TrailerKey = []"
    and "w_fs w' = w_fs w2" and "w_procs w' = w_procs w2"
proof -
  obtain res u w2 where wr:
    "backupWriter (rs_body rs) (log_at DEBUG lg ''Copying response body to backup writer'' None [] w)
      = (res, u, w2)" by (metis prod_cases3)
  note r = receive_body_result [where D = D and lg = lg and rs = rs and w = w and backupWriter = backupWriter, OF wr]
  from r(1) assms have "res = None" "header_Get (seen_trailer rs u) TrailerKey = []"
    by (auto simp: Let_def split: option.splits if_splits)
  with wr r(2,3) assms show thesis by (intro that) simp_all
qed

text \<open>
  Success of a download, taken apart: the URL parses, the server answered with 200, the
  writer reported success on the body, and the trailer it could see carries no message.
\<close>

lemma DownloadBackup_None:
  assumes "DownloadBackup D c url wr w = (None, w')"
  obtains ur rs u w1 w2 where "parse_url url = Inr ur"
    and "d_Do D (w_calls w) (TLS_Config (config_TLS c)) (backup_request c ur) = Inr rs"
    and "rs_code rs = 200" and "wr (rs_body rs) w1 = (None, u, w2)"
    and "header_Get (seen_trailer rs u) TrailerKey = []"
    and "w_fs w1 = w_fs w" and "w_procs w1 = w_procs w"
    and "w_fs w' = w_fs w2" and "w_procs w' = w_procs w2"
proof -
  let ?w = "log_at INFO (config_Logger c) ''Starting to take backup'' None [(''url'', LStr url)] w"
  from assms obtain ur rs where "parse_url url = Inr ur"
    "d_Do D (w_calls w) (TLS_Config (config_TLS c)) (backup_request c ur) = Inr rs"
    "rs_code rs = 200" and rb: "receive_body D (config_Logger c) rs wr ?w = (None, w')"
    by (auto simp: DownloadBackup_def Let_def withStack_def split: sum.splits if_splits)
  moreover from rb obtain u w2 where
    "wr (rs_body rs) (log_at DEBUG (config_Logger c) ''Copying response body to backup writer'' None [] ?w)
      = (None, u, w2)"
    "header_Get (seen_trailer rs u) TrailerKey = []" "w_fs w' = w_fs w2" "w_procs w' = w_procs w2"
    by (rule receive_body_None)
  ultimately show thesis by - (rule that, (assumption | simp)+)
qed

text \<open>
  What the writer does to the file system, the download does; what it keeps of the child
  processes, the download keeps.
\<close>

lemma receive_body_rel:
  assumes "\<And>r v. R (w_fs v) (w_fs (snd (snd (wr r v))))" and "w_fs v = a"
  shows "R a (w_fs (snd (receive_body D lg rs wr v)))"
proof -
  let ?v = "log_at DEBUG lg ''Copying response body to backup writer'' None [] v"
  obtain res u w2 where wr: "wr (rs_body rs) ?v = (res, u, w2)" by (metis prod_cases3)
  from assms(1) [where r = "rs_body rs" and v = ?v] wr have "R (w_fs v) (w_fs w2)" by simp
  with receive_body_result(2) [where D = D and backupWriter = wr, OF wr] assms(2) show ?thesis by simp
qed

lemma receive_body_procs:
  assumes "\<And>r v. w_procs (snd (snd (wr r v))) = w_procs v"
  shows "w_procs (snd (receive_body D lg rs wr v)) = w_procs v"
proof -
  let ?v = "log_at DEBUG lg ''Copying response body to backup writer'' None [] v"
  obtain res u w2 where wr: "wr (rs_body rs) ?v = (res, u, w2)" by (metis prod_cases3)
  from assms [where r = "rs_body rs" and v = ?v] wr have "w_procs w2 = w_procs v" by simp
  with receive_body_result(3) [where D = D and backupWriter = wr, OF wr] show ?thesis by simp
qed

lemma DownloadBackup_rel:
  assumes "\<And>r v. R (w_fs v) (w_fs (snd (snd (wr r v))))" and "\<And>a. R a a"
  shows "R (w_fs w) (w_fs (snd (DownloadBackup D c url wr w)))"
  using receive_body_rel [where R = R and wr = wr, OF assms(1)] assms(2)
  by (auto simp: DownloadBackup_def Let_def split: sum.split)

lemma DownloadBackup_procs:
  assumes "\<And>r v. w_procs (snd (snd (wr r v))) = w_procs v"
  shows "w_procs (snd (DownloadBackup D c url wr w)) = w_procs w"
  using receive_body_procs [where wr = wr, OF assms]
  by (auto simp: DownloadBackup_def Let_def split: sum.split)

context streamed_writer
begin

text \<open>A download through a lawful writer that read to the end got the whole body and no error.\<close>

lemma download_complete:
  assumes "DownloadBackup D c url ws w = (None, w')"
  obtains ur rs u w1 w2 where "parse_url url = Inr ur"
    and "d_Do D (w_calls w) (TLS_Config (config_TLS c)) (backup_request c ur) = Inr rs"
    and "rs_code rs = 200" and "ws (rs_body rs) w1 = (None, u, w2)"
    and "su_end u \<Longrightarrow> rd_err (rs_body rs) = None \<and> header_Get (rs_trailer rs) TrailerKey = []"
    and "w_fs w1 = w_fs w" and "w_procs w1 = w_procs w"
    and "w_fs w' = w_fs w2" and "w_procs w' = w_procs w2"
proof -
  from assms obtain ur rs u w1 w2 where a: "parse_url url = Inr ur"
    "d_Do D (w_calls w) (TLS_Config (config_TLS c)) (backup_request c ur) = Inr rs"
    "rs_code rs = 200" and wr: "ws (rs_body rs) w1 = (None, u, w2)"
    and tr: "header_Get (seen_trailer rs u) TrailerKey = []"
    and f: "w_fs w1 = w_fs w" "w_procs w1 = w_procs w" "w_fs w' = w_fs w2" "w_procs w' = w_procs w2"
    by (rule DownloadBackup_None)
  have "rd_err (rs_body rs) = None \<and> header_Get (rs_trailer rs) TrailerKey = []" if "su_end u"
    using ws_clean [OF wr that] tr that by (simp add: seen_trailer_def)
  with a wr f show thesis by (intro that)
qed

end

subsection \<open>The interface Downloader\<close>

text \<open>
  \<^verbatim>\<open>client.Downloader\<close>: what the client relies on. A download does to the tree what the
  writer does to it, and when it succeeds, the writer was called once and succeeded; what it
  was given then, if it read to the end, is what the other side stands for with \<open>src\<close>.
\<close>

locale download_service =
  fixes dl :: "string \<Rightarrow> (reader \<Rightarrow> world \<Rightarrow> err \<times> stream_use \<times> world) \<Rightarrow> world \<Rightarrow> err \<times> world"
    and src :: "string \<Rightarrow> string list \<Rightarrow> bool"
  assumes dl_rel: "(\<And>r v. R (w_fs v) (w_fs (snd (snd (ws r v))))) \<Longrightarrow> (\<And>a. R a a)
      \<Longrightarrow> R (w_fs w) (w_fs (snd (dl url ws w)))"
    and dl_procs: "(\<And>r v. w_procs (snd (snd (ws r v))) = w_procs v)
      \<Longrightarrow> w_procs (snd (dl url ws w)) = w_procs w"
    and dl_None: "dl url ws w = (None, w') \<Longrightarrow>
      \<exists>r w1 u w2. ws r w1 = (None, u, w2) \<and> w_fs w1 = w_fs w \<and> w_fs w' = w_fs w2
        \<and> (su_end u \<longrightarrow> rd_err r = None \<longrightarrow> src url (rd_chunks r))"

text \<open>Against an arbitrary server nothing is known of the body.\<close>

interpretation http: download_service "DownloadBackup D c" "\<lambda>_ _. True"
  by unfold_locales
    (rule DownloadBackup_rel, assumption+, rule DownloadBackup_procs, assumption,
     elim DownloadBackup_None, blast)

end
