(* ===== verification/Stream_Writers.thy ===== *)
theory Stream_Writers
  imports Download
begin

text \<open>
  The client's helpers around child processes: \<^verbatim>\<open>tarpit\<close> (the \<^verbatim>\<open>tar\<close> client and the writer that
  unpacks a stream with it), \<^verbatim>\<open>xbstream\<close> (the writer that unpacks an xbstream) and
  \<^verbatim>\<open>prepare\<close>. Both writers are shown to obey the laws of \<^verbatim>\<open>StreamedWriter\<close>.
\<close>

subsection \<open>tarpit\<close>

record TarClient =
  TarCommand :: string

definition NewTarClient :: "string \<Rightarrow> TarClient" where
  "NewTarClient tarCommand = \<lparr>TarCommand = tarCommand\<rparr>"

definition NewOSXTarClient :: TarClient where
  "NewOSXTarClient = NewTarClient ''gtar''"

definition NewGnuTarClient :: TarClient where
  "NewGnuTarClient = NewTarClient ''tar''"

text \<open>\<^verbatim>\<open>NewSystemTarClient\<close> for a \<^verbatim>\<open>runtime.GOOS\<close>; another system is a panic.\<close>

definition NewSystemTarClient :: "string \<Rightarrow> TarClient run" where
  "NewSystemTarClient goos =
     (if goos = ''darwin'' then Returned NewOSXTarClient
      else if goos = ''linux'' then Returned NewGnuTarClient
      else Panicked (ErrorString ''unrecognized runtime/os''))"

definition TarClient_Untar :: "TarClient \<Rightarrow> string \<Rightarrow> string \<Rightarrow> cmd" where
  "TarClient_Untar this tarfileName outputDir =
     exec_Command (TarCommand this) [''xvif'', tarfileName, ''--directory='' @ outputDir]"

definition TarClient_Tar :: "TarClient \<Rightarrow> string \<Rightarrow> cmd" where
  "TarClient_Tar this inputDir =
     exec_Command (TarCommand this) [''cvf'', ''-'', ''-C'', inputDir, ''.'']"

record UntarStreamer =
  tarclient :: TarClient
  us_destDir :: string

definition NewUntarStreamer :: "string \<Rightarrow> string \<Rightarrow> UntarStreamer run" where
  "NewUntarStreamer goos destinationDir =
     (case NewSystemTarClient goos of
        Returned tc \<Rightarrow> Returned \<lparr>tarclient = tc, us_destDir = destinationDir\<rparr>
      | OsExit n \<Rightarrow> OsExit n
      | Panicked e \<Rightarrow> Panicked e)"

definition UntarStreamer_WriteStream ::
  "programs \<Rightarrow> UntarStreamer \<Rightarrow> reader \<Rightarrow> world \<Rightarrow> err \<times> stream_use \<times> world" where
  "UntarStreamer_WriteStream P us r w =
     (let cmd = exec_Command (TarCommand (tarclient us)) [''-x'', ''-C'', us_destDir us]
      in case CombinedOutput P cmd r w of
           (output, Some e, u, w') \<Rightarrow> (Some (ErrorString (Error e @ '' - '' @ output)), u, w')
         | (output, None, u, w') \<Rightarrow> (None, u, w'))"

subsection \<open>xbstream\<close>

record Unpacker =
  un_destDir :: string

definition NewUnpacker :: "string \<Rightarrow> Unpacker" where
  "NewUnpacker destinationDir = \<lparr>un_destDir = destinationDir\<rparr>"

definition Unpacker_cmd :: "Unpacker \<Rightarrow> cmd" where
  "Unpacker_cmd us = exec_Command ''xbstream'' [''-x'', ''-C'', un_destDir us]"

definition Unpacker_WriteStream ::
  "programs \<Rightarrow> Unpacker \<Rightarrow> reader \<Rightarrow> world \<Rightarrow> err \<times> stream_use \<times> world" where
  "Unpacker_WriteStream P us r w =
     (case CombinedOutput P (Unpacker_cmd us) r w of
        (output, Some e, u, w') \<Rightarrow>
          (Some (ErrorString (''xbstream failed: '' @ Error e @ '' - '' @ output)), u, w')
      | (output, None, u, w') \<Rightarrow> (None, u, w'))"

subsection \<open>prepare\<close>

definition BackupPreparer_Command :: "string \<Rightarrow> cmd" where
  "BackupPreparer_Command backupDir =
     exec_Command ''xtrabackup'' [''--prepare'', ''--target-dir'', backupDir]"

subsection \<open>Laws\<close>

interpretation untar: streamed_writer "UntarStreamer_WriteStream P us"
  by unfold_locales
    (auto simp: UntarStreamer_WriteStream_def Let_def split: prod.splits option.splits
      dest: CombinedOutput_reads)

interpretation unpacker: streamed_writer "Unpacker_WriteStream P us"
  by unfold_locales
    (auto simp: Unpacker_WriteStream_def split: prod.splits option.splits dest: CombinedOutput_reads)

text \<open>
  Success of the unpacker is success of the child; the tree is then what the child left.
\<close>

lemma Unpacker_None:
  assumes "Unpacker_WriteStream P us r w = (None, u, w')"
  shows "oc_start (P (Unpacker_cmd us) (rd_chunks r) (w_fs w)) = None"
    and "oc_exit (P (Unpacker_cmd us) (rd_chunks r) (w_fs w)) = Exited 0"
    and "w' = w\<lparr>w_fs := oc_fs (P (Unpacker_cmd us) (rd_chunks r) (w_fs w))\<rparr>"
    and "su_end u \<longleftrightarrow> length (rd_chunks r) \<le> oc_takes (P (Unpacker_cmd us) (rd_chunks r) (w_fs w))"
    and "su_end u \<Longrightarrow> rd_err r = None"
proof -
  from assms obtain out where c: "CombinedOutput P (Unpacker_cmd us) r w = (out, None, u, w')"
    by (auto simp: Unpacker_WriteStream_def split: prod.splits option.splits)
  show "oc_start (P (Unpacker_cmd us) (rd_chunks r) (w_fs w)) = None"
    "oc_exit (P (Unpacker_cmd us) (rd_chunks r) (w_fs w)) = Exited 0"
    "w' = w\<lparr>w_fs := oc_fs (P (Unpacker_cmd us) (rd_chunks r) (w_fs w))\<rparr>"
    "su_end u \<Longrightarrow> rd_err r = None"
    using CombinedOutput_None [OF c] by simp_all
  show "su_end u \<longleftrightarrow> length (rd_chunks r) \<le> oc_takes (P (Unpacker_cmd us) (rd_chunks r) (w_fs w))"
    using c by (auto simp: CombinedOutput_def stdin_copy_def Let_def split: option.splits if_splits)
qed

lemma Unpacker_fs:
  "w_fs (snd (snd (Unpacker_WriteStream P us r w))) =
     (let oc = P (Unpacker_cmd us) (rd_chunks r) (w_fs w)
      in if oc_start oc = None then oc_fs oc else w_fs w)"
  "w_procs (snd (snd (Unpacker_WriteStream P us r w))) = w_procs w"
  "w_clock (snd (snd (Unpacker_WriteStream P us r w))) = w_clock w"
  by (auto simp: Unpacker_WriteStream_def CombinedOutput_def Let_def split: option.split prod.split)

end
