(* ===== verification/Crypt_Keeper.thy ===== *)
theory Crypt_Keeper
  imports Go_Exec
begin

text \<open>
  \<^verbatim>\<open>cryptkeeper/cryptkeeper.go\<close>: symmetric encryption of a stream with a passphrase, and
  decryption. The packet format and the ciphers of \<^verbatim>\<open>golang.org/x/crypto/openpgp\<close> are a
  parameter; the loop of \<^verbatim>\<open>ReadMessage\<close> that asks for passphrases is modelled as it is,
  because the guard \<^verbatim>\<open>alreadyPrompted\<close> of \<^verbatim>\<open>Decrypt\<close> exists to end it.
\<close>

subsection \<open>The library\<close>

text \<open>
  The packets of a message: a session key encrypted with a passphrase, a session key
  encrypted to a public key (and whether its algorithm is one \<^verbatim>\<open>ReadMessage\<close> looks up in the
  key ring), the encrypted contents, contents that are not encrypted, and any other packet.
\<close>

datatype packet =
    SymKeyPacket string
  | PubKeyPacket bool
  | EncryptedPacket string
  | PlainPacket string
  | OtherPacket

text \<open>
  \<open>pgp_init\<close> is what \<^verbatim>\<open>SymmetricallyEncrypt\<close> writes at once and its error; \<open>pgp_write\<close> what a
  write of a chunk after the given ones emits; \<open>pgp_close\<close> what \<^verbatim>\<open>Close\<close> emits; \<open>pgp_packets\<close>
  the packets of a message and the error that ends them; \<open>pgp_symkey\<close> the session key from
  a passphrase; \<open>pgp_open\<close> the contents under a session key; \<open>pgp_body\<close> the literal data
  inside, with the integrity check as the error of the reader.
\<close>

record openpgp =
  pgp_init :: "string \<Rightarrow> string list \<times> err"
  pgp_write :: "string \<Rightarrow> string list \<Rightarrow> string \<Rightarrow> string list"
  pgp_close :: "string \<Rightarrow> string list \<Rightarrow> string list"
  pgp_packets :: "string \<Rightarrow> packet list \<times> go_error"
  pgp_symkey :: "string \<Rightarrow> string \<Rightarrow> go_error + string"
  pgp_open :: "string \<Rightarrow> string \<Rightarrow> go_error + string"
  pgp_body :: "string \<Rightarrow> go_error + reader"

definition ErrKeyIncorrect :: go_error where
  "ErrKeyIncorrect = ErrorString ''openpgp: incorrect key''"

definition ErrKeyMaterial :: go_error where
  "ErrKeyMaterial = ErrorString
     ''openpgp: invalid data: key material not followed by encrypted message''"

definition nil_dereference :: go_error where
  "nil_dereference = ErrorString ''runtime error: invalid memory address or nil pointer dereference''"

text \<open>
  The first loop of \<^verbatim>\<open>ReadMessage\<close>: collecting keys up to the contents. Looking a key up in
  the key ring, which the client passes as \<^verbatim>\<open>nil\<close>, panics.
\<close>

datatype contents = Encrypted "string list" string | Unencrypted string

fun ParsePackets :: "packet list \<Rightarrow> go_error \<Rightarrow> string list \<Rightarrow> (go_error + contents) run" where
  "ParsePackets [] e symKeys = Returned (Inl e)"
| "ParsePackets (SymKeyPacket s # ps) e symKeys = ParsePackets ps e (symKeys @ [s])"
| "ParsePackets (PubKeyPacket looked_up # ps) e symKeys =
     (if looked_up then Panicked nil_dereference else ParsePackets ps e symKeys)"
| "ParsePackets (EncryptedPacket c # ps) e symKeys = Returned (Inr (Encrypted symKeys c))"
| "ParsePackets (PlainPacket d # ps) e symKeys =
     (if symKeys \<noteq> [] then Returned (Inl ErrKeyMaterial) else Returned (Inr (Unencrypted d)))"
| "ParsePackets (OtherPacket # ps) e symKeys = ParsePackets ps e symKeys"

fun try_symkeys :: "openpgp \<Rightarrow> string \<Rightarrow> string \<Rightarrow> string list \<Rightarrow> go_error + string option" where
  "try_symkeys L se passphrase [] = Inr None"
| "try_symkeys L se passphrase (s # ss) =
     (case pgp_symkey L s passphrase of
        Inl _ \<Rightarrow> try_symkeys L se passphrase ss
      | Inr key \<Rightarrow>
          (case pgp_open L se key of
             Inl e \<Rightarrow> if e = ErrKeyIncorrect then try_symkeys L se passphrase ss else Inl e
           | Inr d \<Rightarrow> Inr (Some d)))"

text \<open>
  The second loop: ask for a passphrase until one opens the contents. A prompt function has
  a state; the loop has fuel, and \<open>None\<close> means that it is still running.
\<close>

type_synonym 'p prompt = "'p \<Rightarrow> (go_error + string) \<times> 'p"

fun FindKey ::
  "nat \<Rightarrow> openpgp \<Rightarrow> 'p prompt \<Rightarrow> string list \<Rightarrow> string \<Rightarrow> 'p \<Rightarrow> (go_error + string) option" where
  "FindKey 0 L prompt symKeys se p = None"
| "FindKey (Suc n) L prompt symKeys se p =
     (if symKeys = [] then Some (Inl ErrKeyIncorrect)
      else case prompt p of
        (Inl e, _) \<Rightarrow> Some (Inl e)
      | (Inr passphrase, p') \<Rightarrow>
          (case try_symkeys L se passphrase symKeys of
             Inl e \<Rightarrow> Some (Inl e)
           | Inr (Some d) \<Rightarrow> Some (Inr d)
           | Inr None \<Rightarrow> FindKey n L prompt symKeys se p'))"

definition ReadMessage ::
  "nat \<Rightarrow> openpgp \<Rightarrow> 'p prompt \<Rightarrow> 'p \<Rightarrow> string \<Rightarrow> (go_error + reader) run option" where
  "ReadMessage n L prompt p input =
     (case (case pgp_packets L input of (ps, e) \<Rightarrow> ParsePackets ps e []) of
        Panicked x \<Rightarrow> Some (Panicked x)
      | OsExit k \<Rightarrow> Some (OsExit k)
      | Returned (Inl e) \<Rightarrow> Some (Returned (Inl e))
      | Returned (Inr (Unencrypted d)) \<Rightarrow> Some (Returned (pgp_body L d))
      | Returned (Inr (Encrypted symKeys se)) \<Rightarrow>
          (case FindKey n L prompt symKeys se p of
             None \<Rightarrow> None
           | Some (Inl e) \<Rightarrow> Some (Returned (Inl e))
           | Some (Inr d) \<Rightarrow> Some (Returned (pgp_body L d))))"

subsection \<open>CryptKeeper\<close>

record CryptKeeper =
  ck_key :: string

definition NewCryptKeeper :: "string \<Rightarrow> CryptKeeper" where
  "NewCryptKeeper key = \<lparr>ck_key = key\<rparr>"

definition encrypt_write :: "openpgp \<Rightarrow> string \<Rightarrow> 's writer \<Rightarrow> (string list \<times> 's) writer" where
  "encrypt_write L key wr c hs =
     (case run_steps (map wr (pgp_write L key (fst hs) c)) (snd hs) of
        (e, s') \<Rightarrow> (e, fst hs @ [c], s'))"

text \<open>
  \<^verbatim>\<open>Encrypt\<close>: the message is started, the input copied into it, and the message closed by the
  deferred call, whose error is dropped.
\<close>

definition Encrypt :: "openpgp \<Rightarrow> CryptKeeper \<Rightarrow> reader \<Rightarrow> 's writer \<Rightarrow> 's \<Rightarrow> err \<times> 's" where
  "Encrypt L this input output s =
     (let (pieces, ierr) = pgp_init L (ck_key this)
      in case run_steps (map output pieces) s of
           (Some e, s1) \<Rightarrow> (Some e, s1)
         | (None, s1) \<Rightarrow>
             (case ierr of
                Some e \<Rightarrow> (Some e, s1)
              | None \<Rightarrow>
                  (let (e, u, h, s2) = io_Copy (encrypt_write L (ck_key this) output) input ([], s1);
                       (_, s3) = run_steps (map output (pgp_close L (ck_key this) h)) s2
                   in (e, s3))))"

text \<open>The prompt function of \<^verbatim>\<open>Decrypt\<close>, with the captured variable \<^verbatim>\<open>alreadyPrompted\<close>.\<close>

definition key_prompt :: "CryptKeeper \<Rightarrow> bool prompt" where
  "key_prompt this alreadyPrompted =
     (if alreadyPrompted
      then (Inl (ErrorString ''Could not decrypt data using supplied passphrase''), alreadyPrompted)
      else (Inr (ck_key this), True))"

definition prompt_fuel :: nat where "prompt_fuel = 2"

definition Decrypt :: "openpgp \<Rightarrow> CryptKeeper \<Rightarrow> string \<Rightarrow> 's writer \<Rightarrow> 's \<Rightarrow> (err run \<times> 's) option" where
  "Decrypt L this input output s =
     (case ReadMessage prompt_fuel L (key_prompt this) False input of
        None \<Rightarrow> None
      | Some (Panicked x) \<Rightarrow> Some (Panicked x, s)
      | Some (OsExit k) \<Rightarrow> Some (OsExit k, s)
      | Some (Returned (Inl e)) \<Rightarrow> Some (Returned (Some e), s)
      | Some (Returned (Inr body)) \<Rightarrow>
          (let (e, u, s') = io_Copy output body s in Some (Returned e, s')))"

subsection \<open>The prompting loop\<close>

text \<open>With the guard, two rounds are enough; more fuel does not matter.\<close>

lemma FindKey_guarded:
  assumes "2 \<le> n"
  shows "FindKey n L (key_prompt this) symKeys se False =
    Some (if symKeys = [] then Inl ErrKeyIncorrect
          else case try_symkeys L se (ck_key this) symKeys of
            Inl e \<Rightarrow> Inl e
          | Inr (Some d) \<Rightarrow> Inr d
          | Inr None \<Rightarrow> Inl (ErrorString ''Could not decrypt data using supplied passphrase''))"
proof -
  from assms obtain m where n: "n = Suc (Suc m)" by (metis Suc_le_D Suc_le_mono numeral_2_eq_2)
  show ?thesis unfolding n
    by (cases "try_symkeys L se (ck_key this) symKeys") (auto simp: key_prompt_def split: option.split)
qed

lemma ReadMessage_guarded:
  assumes "2 \<le> n"
  shows "ReadMessage n L (key_prompt this) False input \<noteq> None"
    and "ReadMessage n L (key_prompt this) False input = ReadMessage 2 L (key_prompt this) False input"
  using FindKey_guarded [OF assms] FindKey_guarded [of 2]
  by (auto simp: ReadMessage_def split: prod.split run.split sum.split contents.split option.split)

text \<open>Without it, a passphrase that opens nothing is asked for again and again.\<close>

lemma FindKey_unguarded:
  assumes "symKeys \<noteq> []" and "try_symkeys L se passphrase symKeys = Inr None"
  shows "FindKey n L (\<lambda>p. (Inr passphrase, p)) symKeys se p = None"
  by (induction n) (use assms in simp_all)

subsection \<open>What Encrypt writes\<close>

fun write_pieces :: "openpgp \<Rightarrow> string \<Rightarrow> string list \<Rightarrow> string list \<Rightarrow> string list" where
  "write_pieces L key h [] = []"
| "write_pieces L key h (c # cs) = pgp_write L key h c @ write_pieces L key (h @ [c]) cs"

text \<open>A complete message for the chunks \<open>cs\<close>.\<close>

definition message_head :: "openpgp \<Rightarrow> string \<Rightarrow> string list \<Rightarrow> string list" where
  "message_head L key cs = fst (pgp_init L key) @ write_pieces L key [] cs"

definition message_text :: "openpgp \<Rightarrow> string \<Rightarrow> string list \<Rightarrow> string" where
  "message_text L key cs = concat (message_head L key cs @ pgp_close L key cs)"

lemma encrypt_copy:
  "run_steps (map (encrypt_write L key wr) cs) (h, s) = (None, h', s') \<longleftrightarrow>
     h' = h @ cs \<and> run_steps (map wr (write_pieces L key h cs)) s = (None, s')"
proof (induction cs arbitrary: h s)
  case (Cons c cs)
  show ?case
  proof (cases "run_steps (map wr (pgp_write L key h c)) s")
    case (Pair e u)
    then show ?thesis
      using Cons.IH by (cases e) (auto simp: encrypt_write_def run_steps_append)
  qed
qed auto

text \<open>
  \<^verbatim>\<open>Encrypt\<close> returns without error exactly when the input ended without error and everything
  but the end of the message could be written; the end is written as far as it goes.
\<close>

lemma Encrypt_None_iff:
  "Encrypt L this r wr s = (None, s') \<longleftrightarrow>
     snd (pgp_init L (ck_key this)) = None \<and> rd_err r = None
     \<and> (\<exists>s2. run_steps (map wr (message_head L (ck_key this) (rd_chunks r))) s = (None, s2)
           \<and> s' = snd (run_steps (map wr (pgp_close L (ck_key this) (rd_chunks r))) s2))"
proof -
  let ?k = "ck_key this"
  obtain pieces ierr where i: "pgp_init L ?k = (pieces, ierr)" by fastforce
  obtain e1 s1 where r1: "run_steps (map wr pieces) s = (e1, s1)" by fastforce
  obtain e u h s2 where c: "io_Copy (encrypt_write L ?k wr) r ([], s1) = (e, u, h, s2)"
    by (metis prod_cases4)
  obtain ce s3 where cl: "run_steps (map wr (pgp_close L ?k h)) s2 = (ce, s3)" by fastforce
  have copy1: "h = rd_chunks r \<and> rd_err r = None
      \<and> run_steps (map wr (write_pieces L ?k [] (rd_chunks r))) s1 = (None, s2)" if "e = None"
    using that io_Copy_None [of "encrypt_write L ?k wr" r "([], s1)"] c by (fastforce simp: encrypt_copy)
  have copy2: "e = None \<and> h = rd_chunks r \<and> s2 = v"
    if "run_steps (map wr (write_pieces L ?k [] (rd_chunks r))) s1 = (None, v)" "rd_err r = None" for v
    using that io_Copy_None [of "encrypt_write L ?k wr" r "([], s1)"] c by (fastforce simp: encrypt_copy)
  show ?thesis
    using i r1 c cl
    by (cases e1; cases ierr)
      (auto simp: Encrypt_def message_head_def run_steps_append dest: copy1 copy2)
qed

lemma Encrypt_preserves:
  assumes "\<And>c s. P s \<Longrightarrow> P (snd (wr c s))" and "P s"
  shows "P (snd (Encrypt L this r wr s))"
proof -
  let ?k = "ck_key this"
  obtain pieces ierr where i: "pgp_init L ?k = (pieces, ierr)" by fastforce
  obtain e1 s1 where r1: "run_steps (map wr pieces) s = (e1, s1)" by fastforce
  obtain e u h s2 where c: "io_Copy (encrypt_write L ?k wr) r ([], s1) = (e, u, h, s2)"
    by (metis prod_cases4)
  obtain ce s3 where cl: "run_steps (map wr (pgp_close L ?k h)) s2 = (ce, s3)" by fastforce
  have steps: "P (snd (run_steps (map wr ps) t))" if "P t" for ps t
    by (rule run_steps_preserves) (use assms(1) that in auto)
  have enc: "P (snd (snd (encrypt_write L ?k wr c hs)))" if "P (snd hs)" for c hs
    using steps [OF that] by (simp add: encrypt_write_def split_beta)
  from steps [OF assms(2), of pieces] r1 have P1: "P s1" by simp
  have "P (snd (snd (snd (copy_loop (encrypt_write L ?k wr) (rd_chunks r) (rd_err r) 0 ([], s1)))))"
    by (rule copy_loop_preserves [where P = "\<lambda>hs. P (snd hs)"])
      (use enc P1 in simp_all)
  with c have P2: "P s2" by (simp add: io_Copy_def)
  from steps [OF P2, of "pgp_close L ?k h"] cl have "P s3" by simp
  with i r1 c cl P1 show ?thesis
    by (cases e1; cases ierr) (simp_all add: Encrypt_def)
qed

subsection \<open>The law of the library\<close>

text \<open>
  What the documentation of \<^verbatim>\<open>openpgp\<close> promises: a message that was written completely with a
  passphrase starts with the encrypted session key and the contents, which the passphrase
  opens, and whose literal data are the chunks.
\<close>

definition pgp_lawful :: "openpgp \<Rightarrow> string \<Rightarrow> bool" where
  "pgp_lawful L key \<longleftrightarrow>
     (\<forall>cs. \<exists>s se k d ps e body.
        pgp_packets L (message_text L key cs) = (SymKeyPacket s # EncryptedPacket se # ps, e)
        \<and> pgp_symkey L s key = Inr k \<and> pgp_open L se k = Inr d
        \<and> pgp_body L d = Inr body \<and> rd_data body = concat cs \<and> rd_err body = None)"

text \<open>A writer that collects what it is given, as \<^verbatim>\<open>bytes.Buffer\<close> does.\<close>

definition collect :: "string writer" where
  "collect c s = (None, s @ c)"

lemma run_collect: "run_steps (map collect cs) s = (None, s @ concat cs)"
  by (induction cs arbitrary: s) (auto simp: collect_def run_steps_Cons)

lemma Decrypt_message:
  assumes "pgp_lawful L (ck_key this)"
  shows "Decrypt L this (message_text L (ck_key this) cs) collect [] = Some (Returned None, concat cs)"
proof -
  from assms obtain s se k d ps e body where
    p: "pgp_packets L (message_text L (ck_key this) cs) = (SymKeyPacket s # EncryptedPacket se # ps, e)"
    and k: "pgp_symkey L s (ck_key this) = Inr k" "pgp_open L se k = Inr d"
    and b: "pgp_body L d = Inr body" "rd_data body = concat cs" "rd_err body = None"
    unfolding pgp_lawful_def by blast
  have c: "io_Copy collect body [] = (None, \<lparr>su_reads = length (rd_chunks body), su_end = True\<rparr>, concat cs)"
    using b by (simp add: io_Copy_None run_collect rd_data_def)
  have "ReadMessage prompt_fuel L (key_prompt this) False (message_text L (ck_key this) cs)
      = Some (Returned (Inr body))"
    using p k b by (simp add: ReadMessage_def FindKey_guarded prompt_fuel_def)
  with c show ?thesis by (simp add: Decrypt_def)
qed

end
