(* ===== verification/File_Utils.thy ===== *)
theory File_Utils
  imports Go_Exec
begin

text \<open>
  \<^verbatim>\<open>fileutils/iocopy.go\<close> and \<^verbatim>\<open>fileutils/streaming_file_writer.go\<close> of the client: copying a
  file, reading the \<^verbatim>\<open>key = value\<close> lines of a metadata file, appending a line, and the
  writer that stores a stream in a file. The main lemma is that reading back the lines the
  client writes gives the fields it wrote.
\<close>

definition os_Close :: "os_env \<Rightarrow> string \<Rightarrow> world \<Rightarrow> err \<times> world" where
  "os_Close E p w = (map_option (PathError ''close'' p) (fault_now E w), ticked w)"

text \<open>\<^verbatim>\<open>CopyFile\<close>: the steps in the order of the source, the first error returned.\<close>

definition CopyFile :: "os_env \<Rightarrow> string \<Rightarrow> string \<Rightarrow> world \<Rightarrow> err \<times> world" where
  "CopyFile E dst src w =
     run_steps
       [os_Open E src,
        os_Create E dst,
        (\<lambda>w. let (c, rerr, w1) = os_read_all E src w; (werr, w2) = os_Write E dst c w1
             in (if werr \<noteq> None then werr else rerr, w2)),
        os_Close E dst,
        (\<lambda>w. case os_Stat E src w of
               (Inl e, w') \<Rightarrow> (Some e, w')
             | (Inr mode, w') \<Rightarrow> os_Chmod E dst mode w')] w"

text \<open>One line of the metadata file: split at the first \<^verbatim>\<open>=\<close>, both sides trimmed.\<close>

definition field_of_line :: "string \<Rightarrow> (string \<times> string) option" where
  "field_of_line line =
     (if Contains1 line CHR ''='' then
        (let kv = SplitN2 line CHR ''='' in Some (TrimSpace (kv ! 0), TrimSpace (kv ! 1)))
      else None)"

fun extract_fields :: "string list \<Rightarrow> string gomap \<Rightarrow> string gomap" where
  "extract_fields [] m = m"
| "extract_fields (l # ls) m =
     (case field_of_line l of
        None \<Rightarrow> extract_fields ls m
      | Some (k, v) \<Rightarrow> extract_fields ls (AList.update k v m))"

text \<open>
  \<^verbatim>\<open>ExtractFileFields\<close>: the only error is that of opening the file; neither a read error nor a
  line that is too long for the scanner is reported (\<^verbatim>\<open>scanner.Err()\<close> is not called).
\<close>

definition ExtractFileFields :: "os_env \<Rightarrow> string \<Rightarrow> world \<Rightarrow> (go_error + string gomap) \<times> world" where
  "ExtractFileFields E src w =
     (case os_Open E src w of
        (Some e, w1) \<Rightarrow> (Inl e, w1)
      | (None, w1) \<Rightarrow>
          (let (c, _, w2) = os_read_all E src w1
           in (Inr (extract_fields (fst (scan_lines c)) []), w2)))"

definition WriteLineToFile :: "os_env \<Rightarrow> string \<Rightarrow> string \<Rightarrow> world \<Rightarrow> err \<times> world" where
  "WriteLineToFile E dst line w =
     run_steps [os_OpenAppend E dst, os_Write E dst (line @ [nl])] w"

definition StreamingFileWriter_WriteStream ::
  "os_env \<Rightarrow> string \<Rightarrow> reader \<Rightarrow> world \<Rightarrow> err \<times> stream_use \<times> world" where
  "StreamingFileWriter_WriteStream E filename r w =
     (case os_Create E filename w of
        (Some e, w1) \<Rightarrow> (Some e, \<lparr>su_reads = 0, su_end = False\<rparr>, w1)
      | (None, w1) \<Rightarrow>
          (case io_Copy (os_Write E filename) r w1 of
             (Some _, u, w2) \<Rightarrow>
               (Some (ErrorString ''Error writing reader contents to file''), u, w2)
           | (None, u, w2) \<Rightarrow> (None, u, w2)))"

subsection \<open>Reading back written fields\<close>

text \<open>The line the client writes for a field (\<^verbatim>\<open>fmt.Sprintf("%s = %s", key, value)\<close>).\<close>

definition field_line :: "string \<Rightarrow> string \<Rightarrow> string" where
  "field_line k v = k @ '' = '' @ v"

text \<open>Fields for which the format is unambiguous.\<close>

definition field_ok :: "string \<times> string \<Rightarrow> bool" where
  "field_ok kv = (case kv of (k, v) \<Rightarrow>
     trimmed k \<and> trimmed v \<and> CHR ''='' \<notin> set k \<and> nl \<notin> set k \<and> nl \<notin> set v
     \<and> length k + length v + 3 < MaxScanTokenSize)"

definition fields_text :: "(string \<times> string) list \<Rightarrow> string" where
  "fields_text kvs = concat (map (\<lambda>(k, v). field_line k v @ [nl]) kvs)"

lemma field_of_line_field_line:
  assumes "trimmed k" and "trimmed v" and "CHR ''='' \<notin> set k"
  shows "field_of_line (field_line k v) = Some (k, v)"
proof -
  have "cut CHR ''='' ((k @ [sp]) @ CHR ''='' # (sp # v)) = Some (k @ [sp], sp # v)"
    by (rule cut_append) (use assms in simp)
  then have c: "cut CHR ''='' (field_line k v) = Some (k @ [sp], sp # v)"
    by (simp add: field_line_def)
  then have "Contains1 (field_line k v) CHR ''=''"
    by (auto simp: Contains1_def field_line_def)
  with c assms show ?thesis
    by (simp add: field_of_line_def SplitN2_def TrimSpace_blank_right TrimSpace_blank_left)
qed

lemma trimmed_last_cr: "trimmed v \<Longrightarrow> v \<noteq> [] \<Longrightarrow> last v \<noteq> cr"
proof
  assume t: "trimmed v" "v \<noteq> []" and "last v = cr"
  then obtain u where "rev v = cr # u" by (metis append_butlast_last_id rev.simps(2) rev_eq_Cons_iff rev_rev_ident)
  with t show False by (simp add: trimmed_def space_seqs_def HasPrefix_def)
qed

lemma dropCR_field_line: "trimmed v \<Longrightarrow> dropCR (field_line k v) = field_line k v"
  using trimmed_last_cr [of v] by (cases "v = []") (auto simp: dropCR_def field_line_def)

lemma extract_fields_written:
  "list_all field_ok kvs \<Longrightarrow>
   extract_fields (map (\<lambda>(k, v). field_line k v) kvs) m = fold (\<lambda>(k, v). AList.update k v) kvs m"
  by (induction kvs arbitrary: m) (auto simp: field_ok_def field_of_line_field_line)

lemma scan_fields_text:
  assumes "list_all field_ok kvs"
  shows "scan_lines (fields_text kvs) = (map (\<lambda>(k, v). field_line k v) kvs, True)"
proof -
  let ?ls = "map (\<lambda>(k, v). field_line k v) kvs"
  have "\<forall>l \<in> set ?ls. nl \<notin> set l \<and> length l < MaxScanTokenSize"
    using assms by (auto simp: list_all_iff field_ok_def field_line_def)
  then have "scan_lines (concat (map (\<lambda>l. l @ [nl]) ?ls)) = (map dropCR ?ls, True)"
    by (rule scan_lines_lines)
  moreover have "map dropCR ?ls = ?ls"
    using assms by (auto simp: list_all_iff field_ok_def dropCR_field_line)
  moreover have "concat (map (\<lambda>l. l @ [nl]) ?ls) = fields_text kvs"
    by (simp add: fields_text_def o_def case_prod_beta')
  ultimately show ?thesis by simp
qed

lemma scan_fields_too_long:
  assumes "list_all field_ok kvs" and "nl \<notin> set l" and "too_long l"
  shows "fst (scan_lines (fields_text kvs @ l @ rest)) = fst (scan_lines (fields_text kvs))"
  using assms(1)
proof (induction kvs)
  case Nil
  from scan_lines_too_long [OF assms(2)] assms(3)
  have "scan_lines (l @ rest) = ([], False)" by (simp add: too_long_def)
  moreover have "scan_lines [] = ([], True)" by (subst scan_lines.simps) simp
  ultimately show ?case by (simp add: fields_text_def)
next
  case (Cons kv kvs)
  obtain k v where kv: "kv = (k, v)" by (rule prod.exhaust)
  from Cons.prems have "nl \<notin> set (field_line k v)" "length (field_line k v) < MaxScanTokenSize"
    by (auto simp: kv field_ok_def field_line_def)
  from scan_lines_line [OF this] Cons show ?case by (simp add: kv fields_text_def)
qed

lemma extract_fields_text:
  assumes "list_all field_ok kvs" and "gomap_ok kvs"
  shows "map_of (extract_fields (fst (scan_lines (fields_text kvs))) []) = map_of kvs"
proof -
  have "map_of (fold (\<lambda>(k, v). AList.update k v) kvs []) = map_of (rev kvs)"
    by (simp add: map_of_updates)
  also have "\<dots> = map_of kvs"
    using rearranged_map(2) [OF rearrangement_rev assms(2)] .
  finally show ?thesis
    using assms(1) by (simp add: scan_fields_text extract_fields_written)
qed

lemma gomap_ok_extract_fields: "gomap_ok m \<Longrightarrow> gomap_ok (extract_fields ls m)"
  by (induction ls m rule: extract_fields.induct) (auto split: option.split)

subsection \<open>Effects\<close>

lemma ExtractFileFields_frame [frame_simps]:
  "w_fs (snd (ExtractFileFields E p w)) = w_fs w" "w_logs (snd (ExtractFileFields E p w)) = w_logs w"
  "w_procs (snd (ExtractFileFields E p w)) = w_procs w"
proof -
  obtain e w1 where o: "os_Open E p w = (e, w1)" by fastforce
  obtain c r w2 where rd: "os_read_all E p w1 = (c, r, w2)" by (metis prod_cases3)
  have "w_fs w1 = w_fs w" "w_logs w1 = w_logs w" "w_procs w1 = w_procs w"
    using os_Open_frame [of E p w] o by simp_all
  moreover have "w_fs w2 = w_fs w1" "w_logs w2 = w_logs w1" "w_procs w2 = w_procs w1"
    using os_read_all_frame [of E p w1] rd by simp_all
  ultimately show "w_fs (snd (ExtractFileFields E p w)) = w_fs w"
    "w_logs (snd (ExtractFileFields E p w)) = w_logs w"
    "w_procs (snd (ExtractFileFields E p w)) = w_procs w"
    using o rd by (cases e; simp add: ExtractFileFields_def)+
qed

lemma same_except_WriteLine:
  assumes "Q (resolve dst)"
  shows "same_except Q (w_fs w) (w_fs (snd (WriteLineToFile E dst l w)))"
  unfolding WriteLineToFile_def
  by (rule run_steps_rel [where R = "\<lambda>w w'. same_except Q (w_fs w) (w_fs w')"])
    (use assms in \<open>auto simp: frame_simps intro: same_except_os_Write same_except_trans\<close>)

lemma WriteLine_frame [frame_simps]:
  "w_procs (snd (WriteLineToFile E dst l w)) = w_procs w"
  "w_logs (snd (WriteLineToFile E dst l w)) = w_logs w"
proof -
  have "w_procs w = w_procs (snd (WriteLineToFile E dst l w))
      \<and> w_logs w = w_logs (snd (WriteLineToFile E dst l w))"
    unfolding WriteLineToFile_def
    by (rule run_steps_rel [where R = "\<lambda>w w'. w_procs w = w_procs w' \<and> w_logs w = w_logs w'"])
      (auto simp: frame_simps)
  then show "w_procs (snd (WriteLineToFile E dst l w)) = w_procs w"
    "w_logs (snd (WriteLineToFile E dst l w)) = w_logs w" by simp_all
qed

text \<open>A line that was written without error is at the end of the file.\<close>

lemma WriteLine_None:
  assumes "WriteLineToFile E dst l w = (None, w')"
  shows "w_fs w' = append_file dst (l @ [nl]) (w_fs w)"
    and "\<exists>m c. fs_lookup (w_fs w) (resolve dst) = Some (File m c)"
proof -
  from assms obtain u where o: "os_OpenAppend E dst w = (None, u)"
    and wr: "os_Write E dst (l @ [nl]) u = (None, w')"
    by (auto simp: WriteLineToFile_def)
  from o have "w_fs u = w_fs w" by (auto simp: os_OpenAppend_def)
  with wr show "w_fs w' = append_file dst (l @ [nl]) (w_fs w)"
    by (auto simp: os_Write_def split: option.splits)
  from o have "fs_lookup (w_fs w) (resolve dst) \<noteq> None" "fs_lookup (w_fs w) (resolve dst) \<noteq> Some Dir"
    by (auto simp: os_OpenAppend_def open_err_def split: option.splits if_splits)
  then show "\<exists>m c. fs_lookup (w_fs w) (resolve dst) = Some (File m c)"
    by (cases "the (fs_lookup (w_fs w) (resolve dst))") auto
qed

lemma append_file_lookup:
  assumes "fs_lookup fs (resolve p) = Some (File m c)"
  shows "fs_lookup (append_file p s fs) q =
    (if q = resolve p then Some (File m (c @ s)) else fs_lookup fs q)"
proof -
  from assms have "resolve p \<noteq> []" by (auto simp: fs_lookup_def)
  with assms show ?thesis by (simp add: append_file_def fs_lookup_put)
qed

text \<open>
  A file writer that succeeds read the whole stream, which ended without error, and the
  file holds exactly its bytes.
\<close>

lemma run_steps_writes:
  assumes "run_steps (map (os_Write E p) cs) w = (None, w')"
    and "fs_lookup (w_fs w) (resolve p) = Some (File m c)"
  shows "fs_lookup (w_fs w') (resolve p) = Some (File m (c @ concat cs))"
  using assms
proof (induction cs arbitrary: w c)
  case (Cons s cs)
  from Cons.prems(1) obtain u where u: "os_Write E p s w = (None, u)"
    and rest: "run_steps (map (os_Write E p) cs) u = (None, w')" by auto
  from u have "w_fs u = append_file p s (w_fs w)"
    by (auto simp: os_Write_def split: option.splits)
  with Cons.prems(2) have "fs_lookup (w_fs u) (resolve p) = Some (File m (c @ s))"
    by (simp add: append_file_lookup)
  from Cons.IH [OF rest this] show ?case by simp
qed simp

lemma os_Create_None:
  assumes "os_Create E p w = (None, w')"
  shows "\<exists>m. fs_lookup (w_fs w') (resolve p) = Some (File m [])"
    and "q \<noteq> resolve p \<Longrightarrow> fs_lookup (w_fs w') q = fs_lookup (w_fs w) q"
    and "resolve p \<noteq> []"
  using assms
  by (auto simp: os_Create_def fs_lookup_put split: option.splits dest: create_err_path)

lemma StreamingFileWriter_None:
  assumes "StreamingFileWriter_WriteStream E p r w = (None, u, w')"
  shows "rd_err r = None" and "su_end u" and "\<exists>m. fs_lookup (w_fs w') (resolve p) = Some (File m (rd_data r))"
proof -
  from assms obtain w1 where c: "os_Create E p w = (None, w1)"
    and cp: "io_Copy (os_Write E p) r w1 = (None, u, w')"
    by (auto simp: StreamingFileWriter_WriteStream_def split: prod.splits option.splits)
  from cp show "rd_err r = None" "su_end u" by (auto simp: io_Copy_None)
  from os_Create_None(1) [OF c] cp run_steps_writes
  show "\<exists>m. fs_lookup (w_fs w') (resolve p) = Some (File m (rd_data r))"
    by (fastforce simp: io_Copy_None rd_data_def)
qed

lemma StreamingFileWriter_reads:
  assumes "StreamingFileWriter_WriteStream E p r w = (e, u, w')"
  shows "su_reads u \<le> length (rd_chunks r)" and "su_end u \<Longrightarrow> su_reads u = length (rd_chunks r)"
    and "su_end u \<Longrightarrow> e = None \<Longrightarrow> rd_err r = None"
proof -
  obtain ec w1 where c: "os_Create E p w = (ec, w1)" by fastforce
  obtain e2 u2 w2 where cp: "copy_loop (os_Write E p) (rd_chunks r) (rd_err r) 0 w1 = (e2, u2, w2)"
    by (metis prod_cases3)
  note l = copy_loop_reads [OF cp]
  show "su_reads u \<le> length (rd_chunks r)" "su_end u \<Longrightarrow> su_reads u = length (rd_chunks r)"
    using assms c cp l by (auto simp: StreamingFileWriter_WriteStream_def io_Copy_def split: option.splits)
  show "su_end u \<Longrightarrow> e = None \<Longrightarrow> rd_err r = None"
    using assms c cp l by (auto simp: StreamingFileWriter_WriteStream_def io_Copy_def split: option.splits)
qed

interpretation file_writer: streamed_writer "StreamingFileWriter_WriteStream E filename"
  by unfold_locales (fact StreamingFileWriter_reads)+

end
