(* ===== verification/Go_JSON.thy ===== *)
theory Go_JSON
  imports Go_Base
begin

text \<open>
  \<^verbatim>\<open>encoding/json\<close> as far as the client uses it: the grammar of a document, and decoding an
  object into fields of type \<^verbatim>\<open>int\<close> and \<^verbatim>\<open>bool\<close>. The parser is written with fuel; twice the
  length of the text is enough (\<open>json_fuel_enough\<close>: more fuel never changes the result).
\<close>

datatype json =
    JNull
  | JBool bool
  | JNum string
  | JStr string
  | JArr "json list"
  | JObj "(string \<times> json) list"

subsection \<open>Lexical elements\<close>

definition json_space :: "char \<Rightarrow> bool" where
  "json_space c \<longleftrightarrow> c = sp \<or> c = CHR 0x09 \<or> c = nl \<or> c = cr"

definition skip_ws :: "string \<Rightarrow> string" where
  "skip_ws s = dropWhile json_space s"

definition is_digit :: "char \<Rightarrow> bool" where
  "is_digit c \<longleftrightarrow> CHR ''0'' \<le> c \<and> c \<le> CHR ''9''"

definition digits :: "string \<Rightarrow> string \<times> string" where
  "digits s = (takeWhile is_digit s, dropWhile is_digit s)"

text \<open>A number: the literal and the rest.\<close>

definition number_int :: "string \<Rightarrow> (string \<times> string) option" where
  "number_int s =
     (case digits s of
        ([], _) \<Rightarrow> None
      | (d # ds, r) \<Rightarrow> if d = CHR ''0'' then Some ([d], ds @ r) else Some (d # ds, r))"

definition number_frac :: "string \<Rightarrow> (string \<times> string) option" where
  "number_frac s =
     (case s of
        [] \<Rightarrow> Some ([], s)
      | c # r \<Rightarrow>
          if c = CHR ''.'' then
            (case digits r of ([], _) \<Rightarrow> None | (ds, r') \<Rightarrow> Some (c # ds, r'))
          else Some ([], s))"

definition number_exp :: "string \<Rightarrow> (string \<times> string) option" where
  "number_exp s =
     (case s of
        [] \<Rightarrow> Some ([], s)
      | c # r \<Rightarrow>
          if c = CHR ''e'' \<or> c = CHR ''E'' then
            (let (sg, r1) = (case r of [] \<Rightarrow> ([], r)
                             | d # q \<Rightarrow> if d = CHR ''+'' \<or> d = CHR ''-'' then ([d], q) else ([], r))
             in case digits r1 of ([], _) \<Rightarrow> None | (ds, r') \<Rightarrow> Some (c # sg @ ds, r'))
          else Some ([], s))"

definition parse_number :: "string \<Rightarrow> (string \<times> string) option" where
  "parse_number s =
     (let (sg, s1) = (case s of [] \<Rightarrow> ([], s)
                      | c # r \<Rightarrow> if c = CHR ''-'' then ([c], r) else ([], s))
      in case number_int s1 of
           None \<Rightarrow> None
         | Some (i, s2) \<Rightarrow>
             (case number_frac s2 of
                None \<Rightarrow> None
              | Some (f, s3) \<Rightarrow>
                  (case number_exp s3 of
                     None \<Rightarrow> None
                   | Some (e, s4) \<Rightarrow> Some (sg @ i @ f @ e, s4))))"

text \<open>A string after its opening quote, with the escapes; code points are encoded in UTF-8.\<close>

definition hex_digit :: "char \<Rightarrow> nat option" where
  "hex_digit c =
     (if is_digit c then Some (of_char c - 48)
      else if CHR ''a'' \<le> c \<and> c \<le> CHR ''f'' then Some (of_char c - 87)
      else if CHR ''A'' \<le> c \<and> c \<le> CHR ''F'' then Some (of_char c - 55)
      else None)"

fun hex4 :: "string \<Rightarrow> nat option" where
  "hex4 [a, b, c, d] =
     (case (hex_digit a, hex_digit b, hex_digit c, hex_digit d) of
        (Some i, Some j, Some k, Some l) \<Rightarrow> Some (((i * 16 + j) * 16 + k) * 16 + l)
      | _ \<Rightarrow> None)"
| "hex4 _ = None"

definition utf8 :: "nat \<Rightarrow> string" where
  "utf8 n =
     (if n < 128 then [char_of n]
      else if n < 2048 then [char_of (192 + n div 64), char_of (128 + n mod 64)]
      else if n < 65536 then
        [char_of (224 + n div 4096), char_of (128 + (n div 64) mod 64), char_of (128 + n mod 64)]
      else
        [char_of (240 + n div 262144), char_of (128 + (n div 4096) mod 64),
         char_of (128 + (n div 64) mod 64), char_of (128 + n mod 64)])"

definition unicode_escape :: "nat \<Rightarrow> string \<Rightarrow> string \<times> nat" where
  "unicode_escape n r =
     (if 55296 \<le> n \<and> n < 57344 then
        (case (if n < 56320 \<and> take 2 r = [CHR 0x5C, CHR ''u''] then hex4 (take 4 (drop 2 r)) else None) of
           Some m \<Rightarrow>
             if 56320 \<le> m \<and> m < 57344
             then (utf8 (65536 + (n - 55296) * 1024 + (m - 56320)), 6)
             else (utf8 65533, 0)
         | None \<Rightarrow> (utf8 65533, 0))
      else (utf8 n, 0))"

definition simple_escape :: "char \<Rightarrow> char option" where
  "simple_escape c =
     map_of [(CHR 0x22, CHR 0x22), (CHR 0x5C, CHR 0x5C), (CHR ''/'', CHR ''/''),
             (CHR ''b'', CHR 0x08), (CHR ''f'', CHR 0x0C), (CHR ''n'', nl), (CHR ''r'', cr),
             (CHR ''t'', CHR 0x09)] c"

fun parse_chars :: "nat \<Rightarrow> string \<Rightarrow> (string \<times> string) option" where
  "parse_chars 0 s = None"
| "parse_chars (Suc n) [] = None"
| "parse_chars (Suc n) (c # r) =
     (if c = CHR 0x22 then Some ([], r)
      else if c < CHR 0x20 then None
      else if c = CHR 0x5C then
        (case r of
           [] \<Rightarrow> None
         | e # q \<Rightarrow>
             if e = CHR ''u'' then
               (case hex4 (take 4 q) of
                  None \<Rightarrow> None
                | Some k \<Rightarrow>
                    (let (t, more) = unicode_escape k (drop 4 q)
                     in map_option (\<lambda>(u, z). (t @ u, z)) (parse_chars n (drop (4 + more) q))))
             else
               (case simple_escape e of
                  None \<Rightarrow> None
                | Some d \<Rightarrow> map_option (\<lambda>(u, z). (d # u, z)) (parse_chars n q)))
      else map_option (\<lambda>(u, z). (c # u, z)) (parse_chars n r))"

definition parse_string :: "string \<Rightarrow> (string \<times> string) option" where
  "parse_string s =
     (case s of [] \<Rightarrow> None
      | c # r \<Rightarrow> if c = CHR 0x22 then parse_chars (Suc (length r)) r else None)"

subsection \<open>Documents\<close>

definition keyword :: "string \<Rightarrow> json \<Rightarrow> string \<Rightarrow> (json \<times> string) option" where
  "keyword k v s = (if HasPrefix s k then Some (v, drop (length k) s) else None)"

text \<open>
  Values, the elements of an array after \<^verbatim>\<open>[\<close> and the members of an object after \<^verbatim>\<open>{\<close>; the
  argument \<open>d\<close> is the nesting depth left (\<^verbatim>\<open>encoding/json\<close> stops at 10000).
\<close>

fun parse_value :: "nat \<Rightarrow> nat \<Rightarrow> string \<Rightarrow> (json \<times> string) option"
  and parse_elems :: "nat \<Rightarrow> nat \<Rightarrow> string \<Rightarrow> (json list \<times> string) option"
  and parse_members :: "nat \<Rightarrow> nat \<Rightarrow> string \<Rightarrow> ((string \<times> json) list \<times> string) option" where
  "parse_value 0 d s = None"
| "parse_value (Suc n) d s =
     (case skip_ws s of
        [] \<Rightarrow> None
      | c # r \<Rightarrow>
          if c = CHR ''{'' then
            (if d = 0 then None
             else case skip_ws r of
               x # r' \<Rightarrow>
                 if x = CHR ''}'' then Some (JObj [], r')
                 else map_option (\<lambda>(ms, z). (JObj ms, z)) (parse_members n (d - 1) r)
             | [] \<Rightarrow> None)
          else if c = CHR ''['' then
            (if d = 0 then None
             else case skip_ws r of
               x # r' \<Rightarrow>
                 if x = CHR '']'' then Some (JArr [], r')
                 else map_option (\<lambda>(vs, z). (JArr vs, z)) (parse_elems n (d - 1) r)
             | [] \<Rightarrow> None)
          else if c = CHR 0x22 then
            map_option (\<lambda>(t, z). (JStr t, z)) (parse_string (c # r))
          else if c = CHR ''t'' then keyword ''true'' (JBool True) (c # r)
          else if c = CHR ''f'' then keyword ''false'' (JBool False) (c # r)
          else if c = CHR ''n'' then keyword ''null'' JNull (c # r)
          else map_option (\<lambda>(t, z). (JNum t, z)) (parse_number (c # r)))"
| "parse_elems 0 d s = None"
| "parse_elems (Suc n) d s =
     (case parse_value n d s of
        None \<Rightarrow> None
      | Some (v, r) \<Rightarrow>
          (case skip_ws r of
             [] \<Rightarrow> None
           | c # q \<Rightarrow>
               if c = CHR '','' then map_option (\<lambda>(vs, z). (v # vs, z)) (parse_elems n d q)
               else if c = CHR '']'' then Some ([v], q)
               else None))"
| "parse_members 0 d s = None"
| "parse_members (Suc n) d s =
     (case parse_string (skip_ws s) of
        None \<Rightarrow> None
      | Some (k, r) \<Rightarrow>
          (case skip_ws r of
             [] \<Rightarrow> None
           | c # q \<Rightarrow>
               if c \<noteq> CHR '':'' then None
               else case parse_value n d q of
                 None \<Rightarrow> None
               | Some (v, r2) \<Rightarrow>
                   (case skip_ws r2 of
                      [] \<Rightarrow> None
                    | c2 # q2 \<Rightarrow>
                        if c2 = CHR '','' then map_option (\<lambda>(ms, z). ((k, v) # ms, z)) (parse_members n d q2)
                        else if c2 = CHR ''}'' then Some ([(k, v)], q2)
                        else None)))"

definition max_depth :: nat where "max_depth = 10000"

definition json_fuel :: "string \<Rightarrow> nat" where
  "json_fuel s = Suc (2 * length s)"

definition parse_json :: "string \<Rightarrow> json option" where
  "parse_json s =
     (case parse_value (json_fuel s) max_depth s of
        Some (v, r) \<Rightarrow> if skip_ws r = [] then Some v else None
      | None \<Rightarrow> None)"

subsection \<open>Decoding into a struct\<close>

text \<open>Keys match a field by name, up to the simple case folding of Unicode.\<close>

definition lower_ascii :: "char \<Rightarrow> char" where
  "lower_ascii c = (if CHR ''A'' \<le> c \<and> c \<le> CHR ''Z'' then char_of ((of_char c :: nat) + 32) else c)"

fun fold_key :: "nat \<Rightarrow> string \<Rightarrow> string" where
  "fold_key 0 s = s"
| "fold_key (Suc n) [] = []"
| "fold_key (Suc n) (c # r) =
     (if HasPrefix (c # r) [CHR 0xC5, CHR 0xBF] then CHR ''s'' # fold_key n (drop 2 (c # r))
      else if HasPrefix (c # r) [CHR 0xE2, CHR 0x84, CHR 0xAA] then CHR ''k'' # fold_key n (drop 3 (c # r))
      else lower_ascii c # fold_key n r)"

definition key_matches :: "string \<Rightarrow> string \<Rightarrow> bool" where
  "key_matches field k \<longleftrightarrow> fold_key (length k) k = field"

text \<open>\<^verbatim>\<open>strconv.ParseInt(s, 10, 64)\<close> on the literal of a JSON number.\<close>

definition digit_value :: "char \<Rightarrow> int" where
  "digit_value c = int (of_char c - 48)"

definition nat_of_digits :: "string \<Rightarrow> int" where
  "nat_of_digits s = foldl (\<lambda>n c. n * 10 + digit_value c) 0 s"

definition ParseInt :: "string \<Rightarrow> int option" where
  "ParseInt s =
     (let (neg, ds) = (case s of [] \<Rightarrow> (False, s)
                       | c # r \<Rightarrow> if c = CHR ''-'' then (True, r) else (False, s));
          v = (if neg then - nat_of_digits ds else nat_of_digits ds)
      in if ds = [] \<or> \<not> list_all is_digit ds then None
         else if - (2 ^ 63) \<le> v \<and> v < 2 ^ 63 then Some v else None)"

definition ErrUnmarshalType :: go_error where
  "ErrUnmarshalType = ErrorString ''json: cannot unmarshal value into Go value''"

definition ErrJSONSyntax :: go_error where
  "ErrJSONSyntax = ErrorString ''invalid JSON''"

text \<open>A mismatch of types is remembered and decoding goes on; \<^verbatim>\<open>null\<close> changes nothing.\<close>

definition decode_int :: "json \<Rightarrow> int \<Rightarrow> err \<times> int" where
  "decode_int j old =
     (case j of
        JNull \<Rightarrow> (None, old)
      | JNum s \<Rightarrow> (case ParseInt s of Some i \<Rightarrow> (None, i) | None \<Rightarrow> (Some ErrUnmarshalType, old))
      | _ \<Rightarrow> (Some ErrUnmarshalType, old))"

definition decode_bool :: "json \<Rightarrow> bool \<Rightarrow> err \<times> bool" where
  "decode_bool j old =
     (case j of
        JNull \<Rightarrow> (None, old)
      | JBool b \<Rightarrow> (None, b)
      | _ \<Rightarrow> (Some ErrUnmarshalType, old))"

definition first_err :: "err \<Rightarrow> err \<Rightarrow> err" where
  "first_err a b = (case a of None \<Rightarrow> b | Some _ \<Rightarrow> a)"

subsection \<open>Enough fuel\<close>

text \<open>What is parsed is used up: the rest is shorter.\<close>

lemma skip_ws_le: "length (skip_ws s) \<le> length s"
  by (simp add: skip_ws_def length_dropWhile_le)

lemma skip_ws_Cons: "skip_ws s = c # r \<Longrightarrow> length r < length s"
  using skip_ws_le [of s] by simp

lemma digits_Cons: "digits s = (d # ds, r) \<Longrightarrow> length r < length s"
  unfolding digits_def
  by (metis Pair_inject add_less_cancel_right append_eq_conv_conj length_append length_greater_0_conv
      list.distinct(1) plus_nat.add_0 takeWhile_dropWhile_id)

lemma number_int_less: "number_int s = Some (t, r) \<Longrightarrow> length r < length s"
proof -
  assume n: "number_int s = Some (t, r)"
  then obtain d ds q where g: "digits s = (d # ds, q)"
    by (auto simp: number_int_def split: prod.splits list.splits)
  have "s = (d # ds) @ q" using g by (auto simp: digits_def) (metis append_Cons takeWhile_dropWhile_id)
  with n g show ?thesis by (auto simp: number_int_def split: if_splits)
qed

lemma number_frac_le: "number_frac s = Some (t, r) \<Longrightarrow> length r \<le> length s"
  by (auto simp: number_frac_def split: list.splits if_splits prod.splits dest: digits_Cons)

lemma number_exp_le: "number_exp s = Some (t, r) \<Longrightarrow> length r \<le> length s"
  by (auto simp: number_exp_def Let_def split: list.splits if_splits prod.splits dest!: digits_Cons)

lemma parse_number_less: "parse_number s = Some (t, r) \<Longrightarrow> length r < length s"
  by (auto simp: parse_number_def Let_def split: list.splits if_splits prod.splits option.splits
      dest!: number_int_less number_frac_le number_exp_le)

lemma parse_chars_less: "parse_chars n s = Some (t, r) \<Longrightarrow> length r < length s"
proof (induction n s arbitrary: t r rule: parse_chars.induct)
  case (3 n c q)
  then show ?case
    by (auto simp: Let_def split: if_splits list.splits option.splits prod.splits) fastforce+
qed simp_all

lemma parse_string_less: "parse_string s = Some (t, r) \<Longrightarrow> length r < length s"
  by (auto simp: parse_string_def split: list.splits if_splits dest: parse_chars_less)

lemma keyword_less: "keyword k v s = Some (j, r) \<Longrightarrow> k \<noteq> [] \<Longrightarrow> length r < length s"
  by (cases s; cases k) (auto simp: keyword_def HasPrefix_def split: if_splits)

lemma parse_less:
  "parse_value n d s = Some (v, r) \<Longrightarrow> length r < length s"
  "parse_elems n d s = Some (vs, r) \<Longrightarrow> length r < length s"
  "parse_members n d s = Some (ms, r) \<Longrightarrow> length r < length s"
proof (induction n arbitrary: d s v r vs ms)
  case (Suc n)
  note ih = Suc
  {
    case 1
    then obtain c q where s: "skip_ws s = c # q" by (auto split: list.splits)
    have len: "length (c # q) \<le> length s" using skip_ws_le [of s] s by simp
    from 1 s len show ?case
      by (auto split: if_splits list.splits
          dest!: skip_ws_Cons parse_string_less parse_number_less keyword_less ih(2,3))
  next
    case 2
    then obtain v1 r1 c q where v: "parse_value n d s = Some (v1, r1)" and q: "skip_ws r1 = c # q"
      by (auto split: option.splits list.splits)
    with ih(1) [OF v] skip_ws_Cons [OF q] 2 show ?case
      by (auto split: if_splits dest!: ih(2))
  next
    case 3
    then obtain k r1 c q v1 r2 c2 q2 where k: "parse_string (skip_ws s) = Some (k, r1)"
      and q: "skip_ws r1 = c # q" and v: "parse_value n d q = Some (v1, r2)"
      and q2: "skip_ws r2 = c2 # q2"
      by (auto split: option.splits list.splits if_splits)
    have "length q2 < length s"
      using parse_string_less [OF k] skip_ws_le [of s] skip_ws_Cons [OF q] ih(1) [OF v]
        skip_ws_Cons [OF q2] by linarith
    with 3 k q v q2 show ?case
      by (auto split: if_splits dest!: ih(3))
  }
qed simp_all

lemma parse_fuel:
  "2 * length s < n \<Longrightarrow> parse_value (Suc n) d s = parse_value n d s"
  "2 * length s + 1 < n \<Longrightarrow> parse_elems (Suc n) d s = parse_elems n d s"
  "2 * length s + 1 < n \<Longrightarrow> parse_members (Suc n) d s = parse_members n d s"
proof (induction n arbitrary: d s)
  case (Suc n)
  note ih = Suc
  {
    case 1
    show ?case
    proof (cases "skip_ws s")
      case (Cons c r)
      from skip_ws_Cons [OF this] 1 have l: "2 * length r + 1 < n" by simp
      show ?thesis
        unfolding parse_value.simps(2) [of "Suc n" d s] parse_value.simps(2) [of n d s]
          ih(2) [OF l] ih(3) [OF l] Cons list.case ..
    qed simp
  next
    case 2
    then have v: "parse_value (Suc n) d s = parse_value n d s" by (intro ih(1)) simp
    show ?case
    proof (cases "parse_value n d s")
      case (Some x)
      then obtain v1 r1 where x: "parse_value n d s = Some (v1, r1)" by (cases x) simp
      show ?thesis
      proof (cases "skip_ws r1")
        case (Cons c q)
        from parse_less(1) [OF x] skip_ws_Cons [OF Cons] 2 have "2 * length q + 1 < n" by simp
        note e = ih(2) [OF this]
        show ?thesis
          unfolding parse_elems.simps(2) [of "Suc n" d s] parse_elems.simps(2) [of n d s] v x
            option.case prod.case Cons list.case e ..
      qed (simp add: v x del: parse_value.simps)
    qed (simp add: v del: parse_value.simps)
  next
    case 3
    show ?case
    proof (cases "parse_string (skip_ws s)")
      case (Some x)
      then obtain k r where k: "parse_string (skip_ws s) = Some (k, r)" by (cases x) simp
      show ?thesis
      proof (cases "skip_ws r")
        case (Cons c q)
        have q: "2 * length q + 2 < n"
          using 3 parse_string_less [OF k] skip_ws_le [of s] skip_ws_Cons [OF Cons] by simp
        then have v: "parse_value (Suc n) d q = parse_value n d q" by (intro ih(1)) simp
        have m: "parse_members (Suc n) d q2 = parse_members n d q2"
          if "parse_value n d q = Some (v1, r2)" "skip_ws r2 = c2 # q2" for v1 r2 c2 q2
          using parse_less(1) [OF that(1)] skip_ws_Cons [OF that(2)] q by (intro ih(3)) simp
        show ?thesis
          unfolding parse_members.simps(2) [of "Suc n" d s] parse_members.simps(2) [of n d s] k
            option.case prod.case Cons list.case v
          by (auto split: option.split list.split simp del: parse_members.simps parse_value.simps simp: m)
      qed (simp add: k)
    qed simp
  }
qed simp_all

text \<open>More fuel than \<open>json_fuel\<close> never changes the result of parsing a document.\<close>

lemma json_fuel_enough: "json_fuel s \<le> n \<Longrightarrow> parse_value n d s = parse_value (json_fuel s) d s"
proof (induction n rule: dec_induct)
  case (step n)
  then have "2 * length s < n" by (simp add: json_fuel_def)
  with step parse_fuel(1) show ?case by metis
qed simp

subsection \<open>Decimal literals\<close>

lemma decimal_digit:
  assumes "d < 10"
  shows "is_digit (digit_chars ! d)" and "digit_value (digit_chars ! d) = int d"
    and "(digit_chars ! d = CHR ''0'') = (d = 0)"
proof -
  have "\<forall>d \<in> set [0..<10]. is_digit (digit_chars ! d) \<and> digit_value (digit_chars ! d) = int d
      \<and> (digit_chars ! d = CHR ''0'') = (d = 0)"
    by code_simp
  with assms show "is_digit (digit_chars ! d)" "digit_value (digit_chars ! d) = int d"
    "(digit_chars ! d = CHR ''0'') = (d = 0)" by auto
qed

lemma nat_decimal_value: "nat_of_digits (nat_decimal n) = int n"
proof (induction n rule: nat_decimal.induct)
  case (1 n)
  show ?case
  proof (cases "n < 10")
    case True
    then show ?thesis by (subst nat_decimal.simps) (simp add: nat_of_digits_def decimal_digit)
  next
    case False
    have "int (n div 10) * 10 + int (n mod 10) = int n"
      by (metis div_mult_mod_eq of_nat_add of_nat_mult of_nat_numeral)
    with 1 False show ?thesis
      by (subst nat_decimal.simps) (simp add: nat_of_digits_def decimal_digit)
  qed
qed

lemma nat_decimal_is_digit: "list_all is_digit (nat_decimal n)"
proof (induction n rule: nat_decimal.induct)
  case (1 n)
  then show ?case by (subst nat_decimal.simps) (simp add: decimal_digit)
qed

lemma nat_decimal_hd: "hd (nat_decimal n) = CHR ''0'' \<longleftrightarrow> n = 0"
proof (induction n rule: nat_decimal.induct)
  case (1 n)
  show ?case
  proof (cases "n < 10")
    case True
    then show ?thesis by (subst nat_decimal.simps) (simp add: decimal_digit)
  next
    case False
    with 1 show ?thesis by (subst nat_decimal.simps) simp
  qed
qed

lemma nat_decimal_0: "nat_decimal 0 = ''0''"
  by (subst nat_decimal.simps) (simp add: digit_chars_def)

text \<open>The number a decimal literal denotes is read back, up to what follows it.\<close>

lemma parse_number_decimal:
  assumes "r \<noteq> []" and "\<not> is_digit (hd r)" and "hd r \<notin> {CHR ''.'', CHR ''e'', CHR ''E''}"
  shows "parse_number (nat_decimal n @ r) = Some (nat_decimal n, r)"
proof -
  let ?s = "nat_decimal n"
  obtain c q where r: "r = c # q" using assms(1) by (cases r) auto
  obtain a as where s: "?s = a # as" by (cases ?s) simp_all
  have dg: "digits (?s @ r) = (?s, r)"
    using nat_decimal_is_digit [of n] assms(2) r
    by (simp add: digits_def list_all_iff takeWhile_append2 dropWhile_append2)
  have ni: "number_int (?s @ r) = Some (?s, r)"
  proof (cases "n = 0")
    case True
    with dg show ?thesis by (simp add: number_int_def nat_decimal_0)
  next
    case False
    with s nat_decimal_hd [of n] have "a \<noteq> CHR ''0''" by simp
    with dg s show ?thesis by (simp add: number_int_def)
  qed
  have "is_digit a" using nat_decimal_is_digit [of n] s by simp
  then have "a \<noteq> CHR ''-''" by (auto simp: is_digit_def)
  with ni s assms(3) r show ?thesis
    by (simp add: parse_number_def number_frac_def number_exp_def)
qed

lemma ParseInt_decimal:
  assumes "int n < 2 ^ 63"
  shows "ParseInt (nat_decimal n) = Some (int n)"
proof -
  obtain a as where s: "nat_decimal n = a # as" by (cases "nat_decimal n") simp_all
  have "is_digit a" using nat_decimal_is_digit [of n] s by simp
  then have "a \<noteq> CHR ''-''" by (auto simp: is_digit_def)
  with s assms nat_decimal_is_digit [of n] nat_decimal_value [of n] show ?thesis
    by (simp add: ParseInt_def Let_def)
qed

end
