(* ===== verification/Galera_Agent_Caller.thy ===== *)
theory Galera_Agent_Caller
  imports Go_JSON Go_HTTP Client_Config
begin

text \<open>
  \<^verbatim>\<open>galera_agent_caller/galera_agent_caller.go\<close>: asking a node for its position in the
  cluster. The law the client relies on is that a failing call answers with the index -1.
\<close>

record GaleraAgentCaller =
  gac_GaleraAgentPort :: int
  gac_TLSEnabled :: bool
  gac_HTTPClient :: "tls_config option"

record status =
  status_WsrepLocalIndex :: int
  status_Healthy :: bool

definition decode_member :: "string \<times> json \<Rightarrow> err \<times> status \<Rightarrow> err \<times> status" where
  "decode_member kv es =
     (if key_matches ''wsrep_local_index'' (fst kv) then
        (let (e, i) = decode_int (snd kv) (status_WsrepLocalIndex (snd es))
         in (first_err (fst es) e, (snd es)\<lparr>status_WsrepLocalIndex := i\<rparr>))
      else if key_matches ''healthy'' (fst kv) then
        (let (e, b) = decode_bool (snd kv) (status_Healthy (snd es))
         in (first_err (fst es) e, (snd es)\<lparr>status_Healthy := b\<rparr>))
      else es)"

text \<open>\<^verbatim>\<open>json.Unmarshal\<close> into a zero \<^verbatim>\<open>status\<close>.\<close>

definition unmarshal_status :: "string \<Rightarrow> err \<times> status" where
  "unmarshal_status body =
     (let zero = \<lparr>status_WsrepLocalIndex = 0, status_Healthy = False\<rparr>
      in case parse_json body of
           None \<Rightarrow> (Some ErrJSONSyntax, zero)
         | Some (JObj ms) \<Rightarrow> fold decode_member ms (None, zero)
         | Some JNull \<Rightarrow> (None, zero)
         | Some _ \<Rightarrow> (Some ErrUnmarshalType, zero))"

definition status_url :: "GaleraAgentCaller \<Rightarrow> string \<Rightarrow> string" where
  "status_url g ip =
     (if gac_TLSEnabled g then ''https'' else ''http'') @ ''://'' @ ip @ '':''
       @ decimal (gac_GaleraAgentPort g) @ ''/api/v1/status''"

text \<open>
  \<^verbatim>\<open>WsrepLocalIndex\<close>; \<open>G\<close> is what the HTTP client returns for a request over a transport
  with the given TLS configuration.
\<close>

definition WsrepLocalIndex ::
  "GaleraAgentCaller \<Rightarrow> (tls_config option \<Rightarrow> request \<Rightarrow> go_error + http_response)
   \<Rightarrow> string \<Rightarrow> int \<times> err" where
  "WsrepLocalIndex g G ip =
     (case parse_url (status_url g ip) of
        Inl e \<Rightarrow> (-1, Some e)
      | Inr u \<Rightarrow>
          (case G (gac_HTTPClient g) \<lparr>rq_method = ''GET'', rq_url = u, rq_header = []\<rparr> of
             Inl e \<Rightarrow> (-1, Some e)
           | Inr resp \<Rightarrow>
               (case rd_err (rs_body resp) of
                  Some e \<Rightarrow> (-1, Some e)
                | None \<Rightarrow>
                    let body = rd_data (rs_body resp)
                    in if rs_code resp \<noteq> 200
                       then (-1, Some (ErrorString
                              (rs_status resp @ '': Error response from node: '' @ TrimSpace body)))
                       else (case unmarshal_status body of
                               (Some e, _) \<Rightarrow> (-1, Some e)
                             | (None, st) \<Rightarrow>
                                 if \<not> status_Healthy st
                                 then (-1, Some (ErrorString ''Node is not healthy''))
                                 else (status_WsrepLocalIndex st, None)))))"

subsection \<open>The interface GaleraAgentCallerInterface\<close>

locale galera_agent =
  fixes wsrep :: "string \<Rightarrow> int \<times> err"
  assumes failed_index: "wsrep ip = (i, Some e) \<Longrightarrow> i = -1"
begin

lemma healthy_index: "wsrep ip = (i, e) \<Longrightarrow> 0 \<le> i \<Longrightarrow> e = None"
  using failed_index [of ip i] by (cases e) auto

end

interpretation galera: galera_agent "WsrepLocalIndex g G"
  by unfold_locales
    (auto simp: WsrepLocalIndex_def Let_def split: sum.splits option.splits prod.splits if_splits)

text \<open>An answer without an error comes from a response 200 whose document says the node is healthy.\<close>

lemma WsrepLocalIndex_None:
  assumes "WsrepLocalIndex g G ip = (i, None)"
  obtains u resp st where "parse_url (status_url g ip) = Inr u"
    and "G (gac_HTTPClient g) \<lparr>rq_method = ''GET'', rq_url = u, rq_header = []\<rparr> = Inr resp"
    and "rs_code resp = 200" and "rd_err (rs_body resp) = None"
    and "unmarshal_status (rd_data (rs_body resp)) = (None, st)"
    and "status_Healthy st" and "status_WsrepLocalIndex st = i"
  using assms
  by (auto simp: WsrepLocalIndex_def Let_def split: sum.splits option.splits prod.splits if_splits)

subsection \<open>The document of a node\<close>

text \<open>The status document as the galera agent prints it.\<close>

definition status_doc :: "nat \<Rightarrow> bool \<Rightarrow> string" where
  "status_doc i h = ''{'' @ [CHR 0x22] @ ''wsrep_local_index'' @ [CHR 0x22] @ '':'' @ nat_decimal i
     @ '','' @ [CHR 0x22] @ ''healthy'' @ [CHR 0x22] @ '':'' @ (if h then ''true'' else ''false'') @ ''}''"

definition doc_tail :: "bool \<Rightarrow> string" where
  "doc_tail h = '','' @ [CHR 0x22] @ ''healthy'' @ [CHR 0x22] @ '':''
     @ (if h then ''true'' else ''false'') @ ''}''"

lemma parse_member_index:
  "parse_string (skip_ws ([CHR 0x22] @ ''wsrep_local_index'' @ [CHR 0x22] @ '':'' @ s))
     = Some (''wsrep_local_index'', '':'' @ s)"
  by (simp add: skip_ws_def json_space_def parse_string_def)

lemma parse_value_decimal:
  assumes "r \<noteq> []" and "\<not> is_digit (hd r)" and "hd r \<notin> {CHR ''.'', CHR ''e'', CHR ''E''}"
  shows "parse_value (Suc n) d (nat_decimal i @ r) = Some (JNum (nat_decimal i), r)"
proof -
  obtain a as where s: "nat_decimal i = a # as" by (cases "nat_decimal i") simp_all
  have a: "is_digit a" using nat_decimal_is_digit [of i] s by simp
  then have ws: "skip_ws (nat_decimal i @ r) = nat_decimal i @ r"
    using s by (auto simp: skip_ws_def json_space_def is_digit_def)
  have "a \<noteq> CHR ''{''" "a \<noteq> CHR ''[''" "a \<noteq> CHR 0x22" "a \<noteq> CHR ''t''" "a \<noteq> CHR ''f''" "a \<noteq> CHR ''n''"
    using a by (auto simp: is_digit_def)
  with ws s parse_number_decimal [OF assms, of i] show ?thesis
    by (simp add: skip_ws_def)
qed

definition bool_lit :: "bool \<Rightarrow> string" where
  "bool_lit h = (if h then ''true'' else ''false'')"

lemma parse_members_tail:
  "parse_members (Suc (Suc n)) d (tl (doc_tail h)) = Some ([(''healthy'', JBool h)], [])"
proof -
  have key: "parse_string (skip_ws (tl (doc_tail h))) = Some (''healthy'', '':'' @ bool_lit h @ ''}'')"
  proof -
    have "parse_string (skip_ws (tl (doc_tail True))) = Some (''healthy'', '':'' @ bool_lit True @ ''}'')"
      "parse_string (skip_ws (tl (doc_tail False))) = Some (''healthy'', '':'' @ bool_lit False @ ''}'')"
      by code_simp+
    then show ?thesis by (cases h) simp_all
  qed
  have colon: "skip_ws ('':'' @ s) = CHR '':'' # s" for s by (simp add: skip_ws_def json_space_def)
  have "skip_ws (bool_lit h @ ''}'') = bool_lit h @ ''}''"
    by (simp add: skip_ws_def json_space_def bool_lit_def)
  then have val: "parse_value (Suc n) d (bool_lit h @ ''}'') = Some (JBool h, ''}'')"
    by (cases h) (simp_all add: bool_lit_def keyword_def HasPrefix_def)
  have close: "skip_ws ''}'' = ''}''" by code_simp
  show ?thesis
    unfolding parse_members.simps(2) [of "Suc n" d "tl (doc_tail h)"] key option.case prod.case
      colon list.case val close by simp
qed

lemma parse_status_doc:
  "parse_json (status_doc i h) = Some (JObj [(''wsrep_local_index'', JNum (nat_decimal i)), (''healthy'', JBool h)])"
proof -
  let ?n = "json_fuel (status_doc i h)"
  let ?m = "[CHR 0x22] @ ''wsrep_local_index'' @ [CHR 0x22] @ '':'' @ nat_decimal i @ doc_tail h"
  have doc: "status_doc i h = ''{'' @ ?m" by (simp add: status_doc_def doc_tail_def)
  have "10 \<le> length (status_doc i h)" by (simp add: status_doc_def)
  then obtain k where k: "?n = Suc (Suc (Suc (Suc k)))"
    using that [of "?n - 4"] by (simp add: json_fuel_def)
  have val: "parse_value (Suc m) d (nat_decimal i @ doc_tail h) = Some (JNum (nat_decimal i), doc_tail h)" for m d
    by (rule parse_value_decimal) (simp_all add: doc_tail_def is_digit_def)
  have mem: "parse_members (Suc (Suc (Suc k))) d ?m
      = Some ([(''wsrep_local_index'', JNum (nat_decimal i)), (''healthy'', JBool h)], [])" for d
  proof -
    have t: "skip_ws (doc_tail h) = CHR '','' # tl (doc_tail h)"
      by (simp add: doc_tail_def skip_ws_def json_space_def)
    have c: "skip_ws ('':'' @ s) = CHR '':'' # s" for s by (simp add: skip_ws_def json_space_def)
    show ?thesis
      unfolding parse_members.simps(2) [of "Suc (Suc k)" d ?m] parse_member_index option.case prod.case
        c list.case val t parse_members_tail by simp
  qed
  have "parse_value (Suc (Suc (Suc (Suc k)))) max_depth (''{'' @ ?m)
      = Some (JObj [(''wsrep_local_index'', JNum (nat_decimal i)), (''healthy'', JBool h)], [])"
  proof -
    have w: "skip_ws (''{'' @ ?m) = CHR ''{'' # ?m"
      "skip_ws ?m = CHR 0x22 # tl ?m"
      by (simp_all add: skip_ws_def json_space_def)
    have d: "max_depth \<noteq> 0" by (simp add: max_depth_def)
    show ?thesis
      unfolding parse_value.simps(2) [of "Suc (Suc (Suc k))" max_depth "''{'' @ ?m"] w list.case mem
      using d by simp
  qed
  with k doc show ?thesis by (simp add: parse_json_def skip_ws_def)
qed

lemma unmarshal_status_doc:
  assumes "int i < 2 ^ 63"
  shows "unmarshal_status (status_doc i h) = (None, \<lparr>status_WsrepLocalIndex = int i, status_Healthy = h\<rparr>)"
proof -
  have k: "key_matches ''wsrep_local_index'' ''wsrep_local_index''" "key_matches ''healthy'' ''healthy''"
    "\<not> key_matches ''wsrep_local_index'' ''healthy''"
    by code_simp+
  show ?thesis
    unfolding unmarshal_status_def parse_status_doc Let_def
    by (simp add: decode_member_def k decode_int_def decode_bool_def ParseInt_decimal [OF assms] first_err_def)
qed

end
