(* ===== verification/Client.thy ===== *)
theory Client
  imports Download Stream_Writers Crypt_Keeper File_Utils Galera_Agent_Caller
begin

text \<open>
  \<^verbatim>\<open>client/client.go\<close>: one backup of every chosen instance, each downloaded, unpacked,
  prepared, described in a metadata file, packed and encrypted. The state is the client's
  record together with the world; a method that can fail returns an optional error with it.
\<close>

subsection \<open>The client and its environment\<close>

type_synonym stream_writer = "reader \<Rightarrow> world \<Rightarrow> err \<times> stream_use \<times> world"

record client =
  cl_config :: client_config
  cl_version :: int
  cl_tarClient :: TarClient
  cl_backupPreparer :: "string \<Rightarrow> cmd"
  cl_downloader :: "string \<Rightarrow> stream_writer \<Rightarrow> world \<Rightarrow> err \<times> world"
  cl_galeraAgentCaller :: "string \<Rightarrow> int \<times> err"
  cl_logger :: logger
  downloadDirectory :: string
  prepareDirectory :: string
  encryptDirectory :: string
  cl_encryptor :: CryptKeeper
  cl_metadataFields :: "string gomap"

definition NewClient ::
  "client_config \<Rightarrow> TarClient \<Rightarrow> (string \<Rightarrow> cmd) \<Rightarrow> (string \<Rightarrow> stream_writer \<Rightarrow> world \<Rightarrow> err \<times> world)
   \<Rightarrow> (string \<Rightarrow> int \<times> err) \<Rightarrow> client" where
  "NewClient config tarClient backupPreparer downloader galeraAgentCaller =
     \<lparr>cl_config = config, cl_version = 0, cl_tarClient = tarClient,
      cl_backupPreparer = backupPreparer, cl_downloader = downloader,
      cl_galeraAgentCaller = galeraAgentCaller, cl_logger = config_Logger config,
      downloadDirectory = [], prepareDirectory = [], encryptDirectory = [],
      cl_encryptor = NewCryptKeeper (SymmetricKey config),
      cl_metadataFields = MetadataFields config\<rparr>"

text \<open>
  The environment: the operating system, the child programs, the encryption library and the
  order in which a map is iterated.
\<close>

record client_env =
  ce_os :: os_env
  ce_programs :: programs
  ce_pgp :: openpgp
  ce_iter :: "string gomap \<Rightarrow> string gomap"

type_synonym cstate = "client \<times> world"
type_synonym cstep = "cstate \<Rightarrow> err \<times> cstate"

text \<open>The logger of the client, and steps that only touch the world.\<close>

definition clog ::
  "log_level \<Rightarrow> string \<Rightarrow> err \<Rightarrow> (string \<times> log_value) list \<Rightarrow> cstate \<Rightarrow> cstate" where
  "clog lvl action e data s = (fst s, log_at lvl (cl_logger (fst s)) action e data (snd s))"

definition on_world :: "(world \<Rightarrow> err \<times> world) \<Rightarrow> cstep" where
  "on_world f s = (case f (snd s) of (e, w) \<Rightarrow> (e, (fst s, w)))"

text \<open>A call whose error is logged before it is returned.\<close>

definition logging :: "string \<Rightarrow> (string \<times> log_value) list \<Rightarrow> cstep \<Rightarrow> cstep" where
  "logging msg data f s =
     (case f s of
        (Some e, s') \<Rightarrow> (Some e, clog ERROR msg (Some e) data s')
      | (None, s') \<Rightarrow> (None, s'))"

definition log_step :: "log_level \<Rightarrow> string \<Rightarrow> (client \<Rightarrow> (string \<times> log_value) list) \<Rightarrow> cstep" where
  "log_step lvl action data s = (None, clog lvl action None (data (fst s)) s)"

subsection \<open>Names and locations\<close>

definition artifactName :: "client \<Rightarrow> string \<Rightarrow> string" where
  "artifactName c uuid = ''mysql-backup-'' @ decimal (cl_version c) @ ''-'' @ uuid"

definition downloadedBackupLocation :: "client \<Rightarrow> string" where
  "downloadedBackupLocation c = path_Join (downloadDirectory c) ''unprepared-backup.tar''"

definition preparedBackupLocation :: "client \<Rightarrow> string" where
  "preparedBackupLocation c = path_Join (encryptDirectory c) ''prepared-backup.tar''"

definition encryptedBackupLocation :: "client \<Rightarrow> string \<Rightarrow> string" where
  "encryptedBackupLocation c uuid =
     path_Join (OutputDir (cl_config c)) (artifactName c uuid @ ''.tar.gpg'')"

definition originalMetadataLocation :: "client \<Rightarrow> string" where
  "originalMetadataLocation c = path_Join (prepareDirectory c) ''xtrabackup_info''"

definition finalMetadataLocation :: "client \<Rightarrow> string \<Rightarrow> string" where
  "finalMetadataLocation c uuid =
     path_Join (OutputDir (cl_config c)) (artifactName c uuid @ ''.txt'')"

subsection \<open>createDirectories\<close>

text \<open>
  One assignment from \<^verbatim>\<open>ioutil.TempDir\<close>: the field gets the name, or the empty string when
  the call fails.
\<close>

definition make_tmp :: "client_env \<Rightarrow> (string \<Rightarrow> client \<Rightarrow> client) \<Rightarrow> string \<Rightarrow> cstep" where
  "make_tmp V set_dir pattern s =
     (case ioutil_TempDir (ce_os V) (TmpDir (cl_config (fst s))) pattern (snd s) of
        (Inl e, w) \<Rightarrow>
          (Some e, clog ERROR (''Error creating temporary directory '' @ [CHR 0x27] @ pattern @ [CHR 0x27])
             (Some e) [] (set_dir [] (fst s), w))
      | (Inr d, w) \<Rightarrow> (None, (set_dir d (fst s), w)))"

definition dir_data :: "client \<Rightarrow> (string \<times> log_value) list" where
  "dir_data c = [(''downloadDirectory'', LStr (downloadDirectory c)),
     (''prepareDirectory'', LStr (prepareDirectory c)),
     (''encryptDirectory'', LStr (encryptDirectory c))]"

definition createDirectories :: "client_env \<Rightarrow> cstep" where
  "createDirectories V =
     run_steps
       [log_step DEBUG ''Creating directories'' (\<lambda>_. []),
        make_tmp V (\<lambda>d. downloadDirectory_update (\<lambda>_. d)) ''mysql-backup-downloads'',
        make_tmp V (\<lambda>d. prepareDirectory_update (\<lambda>_. d)) ''mysql-backup-prepare'',
        make_tmp V (\<lambda>d. encryptDirectory_update (\<lambda>_. d)) ''mysql-backup-encrypt'',
        log_step DEBUG ''Created directories'' dir_data]"

subsection \<open>downloadAndUnpackBackup and prepareBackup\<close>

definition backup_url :: "client \<Rightarrow> string \<Rightarrow> string" where
  "backup_url c ip =
     ''https://'' @ ip @ '':'' @ decimal (BackupServerPort (cl_config c)) @ ''/backup?format=xbstream''"

definition prepare_path_data :: "client \<Rightarrow> (string \<times> log_value) list" where
  "prepare_path_data c = [(''backup-prepare-path'', LStr (prepareDirectory c))]"

definition call_downloader :: "client_env \<Rightarrow> string \<Rightarrow> cstep" where
  "call_downloader V ip s =
     on_world (cl_downloader (fst s) (backup_url (fst s) ip)
       (Unpacker_WriteStream (ce_programs V) (NewUnpacker (prepareDirectory (fst s))))) s"

definition downloadAndUnpackBackup :: "client_env \<Rightarrow> string \<Rightarrow> cstep" where
  "downloadAndUnpackBackup V ip =
     run_steps
       [log_step INFO ''Starting download of backup'' prepare_path_data,
        logging ''DownloadBackup failed'' [] (call_downloader V ip),
        log_step INFO ''Finished downloading backup'' prepare_path_data]"

definition prepare_cmd :: "client \<Rightarrow> cmd" where
  "prepare_cmd c = cl_backupPreparer c (prepareDirectory c)"

definition run_prepare :: "client_env \<Rightarrow> cstep" where
  "run_prepare V s =
     (case CombinedOutput (ce_programs V) (prepare_cmd (fst s)) no_stdin (snd s) of
        (output, Some e, u, w) \<Rightarrow>
          (Some e, clog ERROR ''Preparing the backup failed'' (Some e) [(''output'', LBytes output)] (fst s, w))
      | (output, None, u, w) \<Rightarrow> (None, (fst s, w)))"

definition prepareBackup :: "client_env \<Rightarrow> cstep" where
  "prepareBackup V =
     run_steps
       [log_step DEBUG ''Backup prepare command''
          (\<lambda>c. [(''command'', LCmd (cmd_name (prepare_cmd c)) (cmd_args (prepare_cmd c))),
                (''args'', LStrs (cmd_name (prepare_cmd c) # cmd_args (prepare_cmd c)))]),
        log_step INFO ''Starting prepare of backup''
          (\<lambda>c. [(''prepareDirectory'', LStr (prepareDirectory c))]),
        run_prepare V,
        log_step INFO ''Successfully prepared a backup'' (\<lambda>_. [])]"

subsection \<open>writeMetadataFile\<close>

text \<open>\<^verbatim>\<open>for key, value := range src { dst[key] = value }\<close>.\<close>

definition merge_fields :: "string gomap \<Rightarrow> string gomap \<Rightarrow> string gomap" where
  "merge_fields kvs m = fold (\<lambda>(k, v). AList.update k v) kvs m"

definition write_field :: "client_env \<Rightarrow> string \<Rightarrow> string \<times> string \<Rightarrow> cstep" where
  "write_field V dst kv =
     logging ''Writing metadata file failed'' []
       (on_world (WriteLineToFile (ce_os V) dst (field_line (fst kv) (snd kv))))"

definition extract_and_write :: "client_env \<Rightarrow> string \<Rightarrow> string \<Rightarrow> cstep" where
  "extract_and_write V src dst s =
     (case ExtractFileFields (ce_os V) src (snd s) of
        (Inl e, w) \<Rightarrow> (Some e, clog ERROR ''Opening xtrabackup-info file failed'' (Some e) [] (fst s, w))
      | (Inr backupMetadataMap, w) \<Rightarrow>
          run_steps
            (map (write_field V dst)
              (ce_iter V (merge_fields (ce_iter V (cl_metadataFields (fst s))) backupMetadataMap)))
            (fst s, w))"

definition writeMetadataFile :: "client_env \<Rightarrow> string \<Rightarrow> cstep" where
  "writeMetadataFile V uuid s =
     (let src = originalMetadataLocation (fst s); dst = finalMetadataLocation (fst s) uuid
      in run_steps
           [log_step INFO ''Copying metadata file'' (\<lambda>_. [(''from'', LStr src), (''to'', LStr dst)]),
            on_world (os_Create (ce_os V) dst),
            extract_and_write V src dst,
            log_step INFO ''Finished writing metadata file'' (\<lambda>_. [])] s)"

subsection \<open>tarAndEncryptBackup\<close>

text \<open>
  The tar process writes into a pipe that the encryption reads. When the encryption fails,
  the method returns without waiting for tar.
\<close>

definition encrypt_output :: "client_env \<Rightarrow> string \<Rightarrow> outcome \<Rightarrow> cmd \<Rightarrow> cstep" where
  "encrypt_output V dst oc tarCmd s =
     run_steps
       [logging ''Error while encrypting backup file'' []
          (on_world (Encrypt (ce_pgp V) (cl_encryptor (fst s)) (stdout_reader oc) (os_Write (ce_os V) dst))),
        logging ''Error while executing tar command'' [] (on_world (cmd_Wait oc tarCmd)),
        log_step INFO ''Successfully encrypted backup'' (\<lambda>_. [])] s"

definition start_and_encrypt :: "client_env \<Rightarrow> string \<Rightarrow> cmd \<Rightarrow> cstep" where
  "start_and_encrypt V dst tarCmd s =
     (let oc = ce_programs V tarCmd [] (w_fs (snd s))
      in run_steps
           [logging ''Error starting tar command'' [] (on_world (cmd_Start (ce_programs V) tarCmd)),
            encrypt_output V dst oc tarCmd] s)"

definition tarAndEncryptBackup :: "client_env \<Rightarrow> string \<Rightarrow> cstep" where
  "tarAndEncryptBackup V uuid s0 =
     (let s = clog INFO ''Starting encrypting backup'' None [] s0;
          tarCmd = TarClient_Tar (cl_tarClient (fst s)) (prepareDirectory (fst s));
          dst = encryptedBackupLocation (fst s) uuid
      in case logging ''Error creating encrypted backup file'' [] (on_world (os_Create (ce_os V) dst)) s of
           (Some e, s1) \<Rightarrow> (Some e, s1)
         | (None, s1) \<Rightarrow>
             (let (e, s2) = run_steps
                    [logging ''Error attaching stdout to encryption'' [] (on_world (cmd_StdoutPipe (ce_os V))),
                     start_and_encrypt V dst tarCmd] s1
              in (e, snd (on_world (os_Close (ce_os V) dst) s2))))"

subsection \<open>Cleaning up\<close>

definition clean_dir :: "client_env \<Rightarrow> (client \<Rightarrow> string) \<Rightarrow> string \<Rightarrow> cstep" where
  "clean_dir V dir what s =
     run_steps
       [logging (''Failed to remove '' @ dir (fst s)) [] (on_world (os_RemoveAll (ce_os V) (dir (fst s)))),
        log_step DEBUG (''Cleaned '' @ what @ '' directory'') (\<lambda>_. [])] s"

definition cleanDownloadDirectory :: "client_env \<Rightarrow> cstep" where
  "cleanDownloadDirectory V = clean_dir V downloadDirectory ''download''"

definition cleanPrepareDirectory :: "client_env \<Rightarrow> cstep" where
  "cleanPrepareDirectory V = clean_dir V prepareDirectory ''prepare''"

definition cleanEncryptDirectory :: "client_env \<Rightarrow> cstep" where
  "cleanEncryptDirectory V = clean_dir V encryptDirectory ''encrypt''"

text \<open>\<^verbatim>\<open>cleanDirectories\<close> goes on after a failed removal and returns no error.\<close>

definition cleanDirectories :: "client_env \<Rightarrow> cstate \<Rightarrow> cstate" where
  "cleanDirectories V s =
     (let s = clog DEBUG ''Cleaning directories'' None (dir_data (fst s)) s;
          s = snd (cleanDownloadDirectory V s);
          s = snd (cleanPrepareDirectory V s)
      in snd (cleanEncryptDirectory V s))"

definition remove_tmp :: "client_env \<Rightarrow> string \<Rightarrow> cstep" where
  "remove_tmp V dir =
     logging (''Failed to remove tmp directory '' @ dir) [] (on_world (os_RemoveAll (ce_os V) dir))"

definition cleanTmpDirectories :: "client_env \<Rightarrow> cstep" where
  "cleanTmpDirectories V s0 =
     (let tmp = TmpDir (cl_config (fst s0));
          s = clog DEBUG ''Cleaning tmp directory'' None [(''tmpDirectory'', LStr tmp)] s0
      in case filepath_Glob (ce_os V) (path_Join tmp ''mysql-backup*'') (snd s) of
           (Inl e, w) \<Rightarrow> (Some e, (fst s, w))
         | (Inr tmpDirs, w) \<Rightarrow>
             run_steps (map (remove_tmp V) tmpDirs
               @ [log_step DEBUG ''Cleaned tmp directory'' (\<lambda>_. [])]) (fst s, w))"

subsection \<open>BackupNode and Execute\<close>

definition BackupNode :: "client_env \<Rightarrow> Instance \<Rightarrow> cstep" where
  "BackupNode V inst =
     run_steps
       [createDirectories V,
        downloadAndUnpackBackup V (Address inst),
        prepareBackup V,
        writeMetadataFile V (UUID inst),
        tarAndEncryptBackup V (UUID inst)]"

text \<open>
  The loop over the instances that looks for the node with the largest index: a failing call
  is logged, its index is compared all the same, and a later node wins a tie.
\<close>

fun select_instance ::
  "(string \<Rightarrow> int \<times> err) \<Rightarrow> Instance list \<Rightarrow> int \<Rightarrow> Instance \<Rightarrow> cstate \<Rightarrow> Instance \<times> cstate" where
  "select_instance wsrep [] largest inst s = (inst, s)"
| "select_instance wsrep (i # is) largest inst s =
     (let (wsrepIndex, e) = wsrep (Address i);
          s' = (case e of None \<Rightarrow> s
                | Some x \<Rightarrow> clog ERROR ''Fetching node status from galera agent failed'' (Some x)
                    [(''ip'', LStr (Address i))] s)
      in if largest \<le> wsrepIndex then select_instance wsrep is wsrepIndex i s'
         else select_instance wsrep is largest inst s')"

definition no_instance :: Instance where
  "no_instance = \<lparr>Address = [], UUID = []\<rparr>"

definition choose_instances :: "cstate \<Rightarrow> (go_error + Instance list) run \<times> cstate" where
  "choose_instances s =
     (let c = cl_config (fst s)
      in if BackupAllMasters c then (Returned (Inr (Instances c)), s)
         else if BackupFromInactiveNode c then
           (case select_instance (cl_galeraAgentCaller (fst s)) (Instances c) 0 no_instance s of
              (inst, s') \<Rightarrow>
                if Address inst = [] then (Returned (Inl (ErrorString ''No healthy nodes found'')), s')
                else (Returned (Inr [inst]), s'))
         else if Instances c = [] then (Panicked index_out_of_range, s)
         else (Returned (Inr [last (Instances c)]), s))"

text \<open>The version of the backup and the logger session for an instance.\<close>

definition start_instance :: "client_env \<Rightarrow> Instance \<Rightarrow> cstate \<Rightarrow> cstate" where
  "start_instance V inst s =
     (let (t, w) = time_now (ce_os V) (snd s);
          n = Suc (w_sessions w);
          lg = Session (config_Logger (cl_config (fst s))) n (''backup-'' @ Address inst)
                 [(''ip'', LStr (Address inst))]
      in ((fst s)\<lparr>cl_version := t, cl_logger := lg\<rparr>, w\<lparr>w_sessions := n\<rparr>))"

definition backup_instance :: "client_env \<Rightarrow> Instance \<Rightarrow> cstate \<Rightarrow> err \<times> cstate" where
  "backup_instance V inst s =
     (case BackupNode V inst (start_instance V inst s) of
        (e, s') \<Rightarrow> (e, cleanDirectories V s'))"

fun backup_loop :: "client_env \<Rightarrow> Instance list \<Rightarrow> go_error list \<Rightarrow> cstate \<Rightarrow> go_error list \<times> cstate" where
  "backup_loop V [] allErrors s = (allErrors, s)"
| "backup_loop V (i # is) allErrors s =
     (case backup_instance V i s of
        (Some e, s') \<Rightarrow> backup_loop V is (allErrors @ [e]) s'
      | (None, s') \<Rightarrow> backup_loop V is allErrors s')"

definition Execute :: "client_env \<Rightarrow> cstate \<Rightarrow> err run \<times> cstate" where
  "Execute V s =
     (case cleanTmpDirectories V s of
        (Some e, s1) \<Rightarrow> (Returned (Some e), s1)
      | (None, s1) \<Rightarrow>
          (case choose_instances s1 of
             (Panicked x, s2) \<Rightarrow> (Panicked x, s2)
           | (OsExit n, s2) \<Rightarrow> (OsExit n, s2)
           | (Returned (Inl e), s2) \<Rightarrow> (Returned (Some e), s2)
           | (Returned (Inr instances), s2) \<Rightarrow>
               (case backup_loop V instances [] s2 of
                  (allErrors, s3) \<Rightarrow>
                    (Returned (if length allErrors = length instances
                               then Some (MultiError allErrors) else None), s3))))"

end
