(* ===== verification/Client_Steps.thy ===== *)
theory Client_Steps
  imports Client
begin

text \<open>
  Which part of the tree each method of the client can change, and that all but
  \<^verbatim>\<open>createDirectories\<close> leave the client's record alone.
\<close>

subsection \<open>Steps that keep the client\<close>

text \<open>A relation between the file systems before and after.\<close>

definition fs_kept :: "(fs \<Rightarrow> fs \<Rightarrow> bool) \<Rightarrow> cstate \<Rightarrow> cstate \<Rightarrow> bool" where
  "fs_kept R s t \<longleftrightarrow> fst t = fst s \<and> R (w_fs (snd s)) (w_fs (snd t))"

text \<open>Only a region is changed.\<close>

abbreviation kept :: "(string list \<Rightarrow> bool) \<Rightarrow> cstate \<Rightarrow> cstate \<Rightarrow> bool" where
  "kept Q \<equiv> fs_kept (same_except Q)"

named_theorems kept_intros \<open>steps that keep the client and relate the file systems\<close>

lemma kept_def: "kept Q s t \<longleftrightarrow> fst t = fst s \<and> same_except Q (w_fs (snd s)) (w_fs (snd t))"
  by (simp add: fs_kept_def)

lemma kept_refl [simp]: "kept Q s s"
  by (simp add: kept_def)

lemma kept_trans: "kept Q s t \<Longrightarrow> kept Q t u \<Longrightarrow> kept Q s u"
  by (auto simp: kept_def intro: same_except_trans)

lemma kept_mono: "kept Q s t \<Longrightarrow> (\<And>q. Q q \<Longrightarrow> R q) \<Longrightarrow> kept R s t"
  by (auto simp: kept_def intro: same_except_mono)

lemma kept_client: "fs_kept R s t \<Longrightarrow> fst t = fst s"
  by (simp add: fs_kept_def)

lemma kept_fs: "fs_kept R s t \<Longrightarrow> R (w_fs (snd s)) (w_fs (snd t))"
  by (simp add: fs_kept_def)

lemma clog_simps [simp]:
  "fst (clog l a e d s) = fst s" "w_fs (snd (clog l a e d s)) = w_fs (snd s)"
  "w_procs (snd (clog l a e d s)) = w_procs (snd s)"
  "w_clock (snd (clog l a e d s)) = w_clock (snd s)"
  by (simp_all add: clog_def)

lemma kept_clog_left [simp]: "fs_kept R (clog l a e d s) t = fs_kept R s t"
  by (simp add: fs_kept_def)

lemma kept_clog_right [simp]: "fs_kept R s (clog l a e d t) = fs_kept R s t"
  by (simp add: fs_kept_def)

lemma kept_logging [kept_intros]: "fs_kept R s (snd (f s)) \<Longrightarrow> fs_kept R s (snd (logging m d f s))"
  by (auto simp: logging_def split: prod.split option.split)

lemma on_world_simps [simp]:
  "fst (on_world f s) = fst (f (snd s))" "fst (snd (on_world f s)) = fst s"
  "snd (snd (on_world f s)) = snd (f (snd s))"
  by (simp_all add: on_world_def split_beta)

lemma kept_on_world [kept_intros]:
  "R (w_fs (snd s)) (w_fs (snd (f (snd s)))) \<Longrightarrow> fs_kept R s (snd (on_world f s))"
  by (simp add: fs_kept_def)

text \<open>The children of the world, as a second invariant of the same steps.\<close>

definition same_procs :: "cstate \<Rightarrow> cstate \<Rightarrow> bool" where
  "same_procs s t \<longleftrightarrow> w_procs (snd t) = w_procs (snd s)"

subsection \<open>Relations that creating and writing files respects\<close>

text \<open>
  What the methods below do to the tree directly is creating files and writing to them, at
  places for which \<open>W\<close> holds.
\<close>

locale file_relation =
  fixes R :: "fs \<Rightarrow> fs \<Rightarrow> bool" and W :: "string list \<Rightarrow> bool"
  assumes R_refl: "R a a"
    and R_trans: "R a b \<Longrightarrow> R b c \<Longrightarrow> R a c"
    and R_create: "W (resolve p) \<Longrightarrow> R (w_fs w) (w_fs (snd (os_Create E p w)))"
    and R_write: "W (resolve p) \<Longrightarrow> R (w_fs w) (w_fs (snd (os_Write E p x w)))"
begin

lemma rel_refl: "fs_kept R s s"
  by (simp add: fs_kept_def R_refl)

lemma rel_trans: "fs_kept R s t \<Longrightarrow> fs_kept R t u \<Longrightarrow> fs_kept R s u"
  by (auto simp: fs_kept_def intro: R_trans)

lemma rel_log_step: "fs_kept R s (snd (log_step l a d s))"
  by (simp add: log_step_def rel_refl)

lemma rel_run_steps:
  assumes "\<And>f t. f \<in> set fs \<Longrightarrow> fst t = fst s \<Longrightarrow> fs_kept R t (snd (f t))"
  shows "fs_kept R s (snd (run_steps fs s))"
proof (rule run_steps_preserves [where P = "fs_kept R s"])
  fix f t
  assume f: "f \<in> set fs" and k: "fs_kept R s t"
  from assms [OF f kept_client [OF k]] k show "fs_kept R s (snd (f t))" by (rule rel_trans [rotated])
qed (rule rel_refl)

lemma rel_same: "w_fs (snd (f (snd s))) = w_fs (snd s) \<Longrightarrow> fs_kept R s (snd (on_world f s))"
  by (simp add: fs_kept_def R_refl)

lemma rel_WriteLine: "W (resolve p) \<Longrightarrow> R (w_fs w) (w_fs (snd (WriteLineToFile E p l w)))"
  unfolding WriteLineToFile_def
  by (rule run_steps_rel [where R = "\<lambda>w w'. R (w_fs w) (w_fs w')"])
    (auto simp: frame_simps R_refl intro: R_write R_trans)

lemma rel_Encrypt:
  assumes "W (resolve p)"
  shows "R (w_fs w) (w_fs (snd (Encrypt L k r (os_Write E p) w)))"
  by (rule Encrypt_preserves [where P = "\<lambda>v. R (w_fs w) (w_fs v)"])
    (auto simp: R_refl intro: R_trans R_write assms)

end

text \<open>Changing a region only is such a relation.\<close>

interpretation region: file_relation "same_except Q" Q
  by unfold_locales
    (auto intro: same_except_trans same_except_os_Create same_except_os_Write)

lemmas kept_run_steps = region.rel_run_steps and kept_log_step [kept_intros] = region.rel_log_step

subsection \<open>Programs that keep to their directory\<close>

definition confined :: "programs \<Rightarrow> cmd \<Rightarrow> (string list \<Rightarrow> bool) \<Rightarrow> bool" where
  "confined P c Q \<longleftrightarrow> (\<forall>input fs. same_except Q fs (oc_fs (P c input fs)))"

text \<open>
  The documented behaviour of the three programs: \<^verbatim>\<open>xbstream -x -C dir\<close> and
  \<^verbatim>\<open>xtrabackup --prepare --target-dir dir\<close> change the directory only, and \<^verbatim>\<open>tar cvf -\<close>
  changes nothing.
\<close>

definition programs_confined :: "programs \<Rightarrow> client \<Rightarrow> bool" where
  "programs_confined P c \<longleftrightarrow> (\<forall>d.
     confined P (Unpacker_cmd (NewUnpacker d)) (within (resolve d))
     \<and> confined P (cl_backupPreparer c d) (within (resolve d))
     \<and> confined P (TarClient_Tar (cl_tarClient c) d) (\<lambda>_. False))"

lemma Unpacker_confined:
  assumes "confined P (Unpacker_cmd us) Q"
  shows "same_except Q (w_fs w) (w_fs (snd (snd (Unpacker_WriteStream P us r w))))"
  using assms by (auto simp: Unpacker_fs confined_def Let_def)

subsection \<open>The methods\<close>

definition runs_in :: "(fs \<Rightarrow> fs \<Rightarrow> bool) \<Rightarrow> programs \<Rightarrow> cmd \<Rightarrow> bool" where
  "runs_in R P c \<longleftrightarrow> (\<forall>input fs. R fs (oc_fs (P c input fs)))"

lemma confined_runs: "confined P c Q = runs_in (same_except Q) P c"
  by (simp add: confined_def runs_in_def)

context download_service
begin

lemma rel_download:
  assumes "file_relation R W" and "cl_downloader (fst s) = dl"
    and "runs_in R (ce_programs V) (Unpacker_cmd (NewUnpacker (prepareDirectory (fst s))))"
  shows "fs_kept R s (snd (downloadAndUnpackBackup V ip s))"
  unfolding downloadAndUnpackBackup_def
proof (rule file_relation.rel_run_steps [OF assms(1)])
  fix f and t :: cstate
  note refl = file_relation.R_refl [OF assms(1)]
  assume f: "f \<in> set [log_step INFO ''Starting download of backup'' prepare_path_data,
      logging ''DownloadBackup failed'' [] (call_downloader V ip),
      log_step INFO ''Finished downloading backup'' prepare_path_data]" and t: "fst t = fst s"
  have "R (w_fs w) (w_fs (snd (snd (Unpacker_WriteStream (ce_programs V)
      (NewUnpacker (prepareDirectory (fst s))) r w))))" for r w
    using assms(3) refl by (auto simp: Unpacker_fs runs_in_def Let_def)
  then have "R (w_fs w) (w_fs (snd (dl url (Unpacker_WriteStream (ce_programs V)
      (NewUnpacker (prepareDirectory (fst s)))) w)))" for url w
    by (rule dl_rel [where R = R, OF _ refl])
  then have "fs_kept R t (snd (call_downloader V ip t))"
    unfolding call_downloader_def using t assms(2) by (intro kept_on_world) simp
  with f show "fs_kept R t (snd (f t))"
    by (auto intro: kept_intros file_relation.rel_log_step [OF assms(1)])
qed

lemma kept_download:
  assumes "cl_downloader (fst s) = dl"
    and "confined (ce_programs V) (Unpacker_cmd (NewUnpacker (prepareDirectory (fst s)))) Q"
  shows "kept Q s (snd (downloadAndUnpackBackup V ip s))"
  using rel_download [OF region.file_relation_axioms assms(1)] assms(2) by (simp add: confined_runs)

text \<open>A download that succeeds is a run of xbstream that succeeds.\<close>

lemma download_None:
  assumes "cl_downloader (fst s) = dl" and "downloadAndUnpackBackup V ip s = (None, t)"
  obtains r where "fst t = fst s"
    and "oc_start (ce_programs V (Unpacker_cmd (NewUnpacker (prepareDirectory (fst s)))) r (w_fs (snd s))) = None"
    and "oc_exit (ce_programs V (Unpacker_cmd (NewUnpacker (prepareDirectory (fst s)))) r (w_fs (snd s))) = Exited 0"
    and "w_fs (snd t) = oc_fs (ce_programs V (Unpacker_cmd (NewUnpacker (prepareDirectory (fst s)))) r (w_fs (snd s)))"
    and "length r \<le> oc_takes (ce_programs V (Unpacker_cmd (NewUnpacker (prepareDirectory (fst s)))) r (w_fs (snd s)))
      \<Longrightarrow> src (backup_url (fst s) ip) r"
proof -
  let ?U = "NewUnpacker (prepareDirectory (fst s))"
  let ?ws = "Unpacker_WriteStream (ce_programs V) ?U"
  from assms(2) obtain u v where u: "log_step INFO ''Starting download of backup'' prepare_path_data s = (None, u)"
    and v: "logging ''DownloadBackup failed'' [] (call_downloader V ip) u = (None, v)"
    and t: "log_step INFO ''Finished downloading backup'' prepare_path_data v = (None, t)"
    by (auto simp: downloadAndUnpackBackup_def)
  from u have us: "fst u = fst s" "w_fs (snd u) = w_fs (snd s)" by (auto simp: log_step_def)
  from v have "call_downloader V ip u = (None, v)" by (auto simp: logging_def split: prod.splits option.splits)
  with us assms(1) have d: "dl (backup_url (fst s) ip) ?ws (snd u) = (None, snd v)" and vc: "fst v = fst s"
    by (auto simp: call_downloader_def on_world_def split: prod.splits)
  from dl_None [OF d] obtain r w1 x w2 where ws: "?ws r w1 = (None, x, w2)"
    and e: "w_fs w1 = w_fs (snd u)" "w_fs (snd v) = w_fs w2"
    and sc: "su_end x \<longrightarrow> rd_err r = None \<longrightarrow> src (backup_url (fst s) ip) (rd_chunks r)"
    by (elim exE conjE) (rule that)
  from t have ts: "fst t = fst v" "w_fs (snd t) = w_fs (snd v)" by (auto simp: log_step_def)
  note un = Unpacker_None [OF ws]
  have "length (rd_chunks r) \<le> oc_takes (ce_programs V (Unpacker_cmd ?U) (rd_chunks r) (w_fs (snd s)))
      \<Longrightarrow> src (backup_url (fst s) ip) (rd_chunks r)"
    using un(4,5) sc e us by simp
  with un(1,2,3) e us ts vc show thesis
    by (intro that [of "rd_chunks r"]) simp_all
qed

end

lemma CombinedOutput_fs:
  "w_fs (snd (snd (snd (CombinedOutput P c r w)))) =
     (let oc = P c (rd_chunks r) (w_fs w) in if oc_start oc = None then oc_fs oc else w_fs w)"
  by (simp add: CombinedOutput_def Let_def split: option.split prod.split)

lemma run_prepare_snd:
  "fst (snd (run_prepare V s)) = fst s"
  "w_fs (snd (snd (run_prepare V s)))
     = w_fs (snd (snd (snd (CombinedOutput (ce_programs V) (prepare_cmd (fst s)) no_stdin (snd s)))))"
  by (auto simp: run_prepare_def split: prod.split option.split)

context file_relation
begin

lemma rel_prepare:
  assumes "runs_in R (ce_programs V) (prepare_cmd (fst s))"
  shows "fs_kept R s (snd (prepareBackup V s))"
  unfolding prepareBackup_def
proof (rule rel_run_steps, goal_cases)
  case (1 f t)
  have "fs_kept R t (snd (run_prepare V t))"
    using assms 1(2) by (simp add: fs_kept_def run_prepare_snd CombinedOutput_fs runs_in_def R_refl Let_def)
  with 1 show ?case by (auto intro: kept_intros rel_log_step)
qed

lemma rel_metadata:
  assumes "W (resolve (finalMetadataLocation (fst s) uuid))"
  shows "fs_kept R s (snd (writeMetadataFile V uuid s))"
  unfolding writeMetadataFile_def Let_def
proof (rule rel_run_steps, goal_cases)
  case (1 f t)
  let ?src = "originalMetadataLocation (fst s)" and ?dst = "finalMetadataLocation (fst s) uuid"
  have wr: "fs_kept R u (snd (write_field V ?dst kv u))" for u kv
    unfolding write_field_def by (intro kept_intros rel_WriteLine assms)
  have "fs_kept R t (snd (extract_and_write V ?src ?dst t))"
  proof (cases "ExtractFileFields (ce_os V) ?src (snd t)")
    case (Pair r w)
    with ExtractFileFields_frame(1) [of "ce_os V" ?src "snd t"] have "w_fs w = w_fs (snd t)" by simp
    then have k: "fs_kept R t (fst t, w)" by (simp add: fs_kept_def R_refl)
    have "fs_kept R (fst t, w) (snd (run_steps (map (write_field V ?dst) l) (fst t, w)))" for l
      by (rule rel_run_steps) (auto intro: wr)
    with k Pair show ?thesis
      by (auto simp: extract_and_write_def split: sum.split intro: rel_trans)
  qed
  moreover have "fs_kept R t (snd (on_world (os_Create (ce_os V) ?dst) t))"
    by (intro kept_intros R_create assms)
  ultimately show ?case using 1 by (auto intro: kept_intros rel_log_step)
qed

lemma rel_encrypt_output:
  assumes "W (resolve dst)"
  shows "fs_kept R s (snd (encrypt_output V dst oc tarCmd s))"
  unfolding encrypt_output_def
proof (rule rel_run_steps, goal_cases)
  case (1 f t)
  have "fs_kept R t (snd (on_world (Encrypt L this r (os_Write E dst)) t))" for L this r E
    by (intro kept_intros rel_Encrypt assms)
  moreover have "fs_kept R t (snd (on_world (cmd_Wait oc tarCmd) t))" by (rule rel_same) (simp add: cmd_Wait_def)
  ultimately show ?case using 1 by (auto intro: kept_intros rel_log_step)
qed

lemma rel_start_and_encrypt:
  assumes "W (resolve dst)" and "runs_in R (ce_programs V) tarCmd"
  shows "fs_kept R s (snd (start_and_encrypt V dst tarCmd s))"
  unfolding start_and_encrypt_def Let_def
proof (rule rel_run_steps, goal_cases)
  case (1 f t)
  have "R (w_fs w) (w_fs (snd (cmd_Start (ce_programs V) tarCmd w)))" for w
    using assms(2) by (auto simp: cmd_Start_def Let_def runs_in_def R_refl split: option.split)
  then have "fs_kept R t (snd (on_world (cmd_Start (ce_programs V) tarCmd) t))" by (intro kept_intros)
  moreover have "fs_kept R t (snd (encrypt_output V dst (ce_programs V tarCmd [] (w_fs (snd s))) tarCmd t))"
    by (rule rel_encrypt_output [OF assms(1)])
  ultimately show ?case using 1 by (auto intro: kept_intros)
qed

lemma rel_tarAndEncrypt:
  assumes "W (resolve (encryptedBackupLocation (fst s) uuid))"
    and "runs_in R (ce_programs V) (TarClient_Tar (cl_tarClient (fst s)) (prepareDirectory (fst s)))"
  shows "fs_kept R s (snd (tarAndEncryptBackup V uuid s))"
proof -
  let ?dst = "encryptedBackupLocation (fst s) uuid"
  let ?tar = "TarClient_Tar (cl_tarClient (fst s)) (prepareDirectory (fst s))"
  let ?s = "clog INFO ''Starting encrypting backup'' None [] s"
  obtain e s1 where c: "logging ''Error creating encrypted backup file'' []
      (on_world (os_Create (ce_os V) ?dst)) ?s = (e, s1)" by (metis surj_pair)
  have "fs_kept R ?s (snd (logging ''Error creating encrypted backup file'' []
      (on_world (os_Create (ce_os V) ?dst)) ?s))"
    by (intro kept_intros R_create assms(1))
  with c have k1: "fs_kept R ?s s1" by simp
  let ?steps = "[logging ''Error attaching stdout to encryption'' [] (on_world (cmd_StdoutPipe (ce_os V))),
      start_and_encrypt V ?dst ?tar]"
  obtain e2 s2 where r: "run_steps ?steps s1 = (e2, s2)" by (metis surj_pair)
  have "fs_kept R s1 (snd (run_steps ?steps s1))"
  proof (rule rel_run_steps, goal_cases)
    case (1 f t)
    have "fs_kept R t (snd (on_world (cmd_StdoutPipe (ce_os V)) t))"
      by (rule rel_same) (simp add: cmd_StdoutPipe_def)
    moreover have "fs_kept R t (snd (start_and_encrypt V ?dst ?tar t))"
      by (rule rel_start_and_encrypt [OF assms])
    ultimately show ?case using 1 by (auto intro: kept_intros)
  qed
  with r have k2: "fs_kept R s1 s2" by simp
  have k3: "fs_kept R s2 (snd (on_world (os_Close (ce_os V) ?dst) s2))"
    by (rule rel_same) (simp add: os_Close_def)
  from k1 rel_trans [OF k1 rel_trans [OF k2 k3]] c r show ?thesis
    by (cases e) (simp_all add: tarAndEncryptBackup_def Let_def)
qed

end

lemma kept_prepare:
  assumes "confined (ce_programs V) (prepare_cmd (fst s)) Q"
  shows "kept Q s (snd (prepareBackup V s))"
  using region.rel_prepare assms by (simp add: confined_runs)

lemma prepare_None:
  assumes "prepareBackup V s = (None, t)"
  defines "oc \<equiv> ce_programs V (prepare_cmd (fst s)) [] (w_fs (snd s))"
  shows "fst t = fst s" and "oc_start oc = None" and "oc_exit oc = Exited 0"
    and "w_fs (snd t) = oc_fs oc"
proof -
  define u where "u = clog INFO ''Starting prepare of backup'' None
      [(''prepareDirectory'', LStr (prepareDirectory (fst s)))]
    (clog DEBUG ''Backup prepare command'' None
      [(''command'', LCmd (cmd_name (prepare_cmd (fst s))) (cmd_args (prepare_cmd (fst s)))),
       (''args'', LStrs (cmd_name (prepare_cmd (fst s)) # cmd_args (prepare_cmd (fst s))))] s)"
  have u: "fst u = fst s" "w_fs (snd u) = w_fs (snd s)" by (simp_all add: u_def)
  from assms(1) obtain v where r: "run_prepare V u = (None, v)"
    and t: "t = clog INFO ''Successfully prepared a backup'' None [] v"
    by (auto simp: prepareBackup_def log_step_def u_def)
  from r obtain out x w where "CombinedOutput (ce_programs V) (prepare_cmd (fst u)) no_stdin (snd u)
      = (out, None, x, w)" and v: "v = (fst u, w)"
    by (auto simp: run_prepare_def split: prod.splits option.splits)
  from CombinedOutput_None [OF this(1)] u t v
  show "fst t = fst s" "oc_start oc = None" "oc_exit oc = Exited 0" "w_fs (snd t) = oc_fs oc"
    by (simp_all add: oc_def no_stdin_def)
qed

lemma kept_metadata:
  assumes "Q (resolve (finalMetadataLocation (fst s) uuid))"
  shows "kept Q s (snd (writeMetadataFile V uuid s))"
  by (rule region.rel_metadata [where Q = Q, OF assms])

text \<open>Removing the working directories.\<close>

context file_relation
begin

lemma rel_clean_dir:
  assumes "\<And>w. R (w_fs w) (w_fs (snd (os_RemoveAll (ce_os V) (dir (fst s)) w)))"
  shows "fs_kept R s (snd (clean_dir V dir what s))"
  unfolding clean_dir_def
proof (rule rel_run_steps, goal_cases)
  case (1 f t)
  have "fs_kept R t (snd (on_world (os_RemoveAll (ce_os V) (dir (fst s))) t))"
    by (intro kept_intros assms)
  with 1 show ?case by (auto intro: kept_intros rel_log_step)
qed

lemma rel_cleanDirectories:
  assumes "\<And>d w. d \<in> {downloadDirectory (fst s), prepareDirectory (fst s), encryptDirectory (fst s)}
    \<Longrightarrow> R (w_fs w) (w_fs (snd (os_RemoveAll (ce_os V) d w)))"
  shows "fs_kept R s (cleanDirectories V s)"
proof -
  let ?s0 = "clog DEBUG ''Cleaning directories'' None (dir_data (fst s)) s"
  let ?s1 = "snd (cleanDownloadDirectory V ?s0)"
  let ?s2 = "snd (cleanPrepareDirectory V ?s1)"
  have 1: "fs_kept R s ?s1"
    using rel_clean_dir [of V downloadDirectory ?s0 "''download''"] assms
    by (simp add: cleanDownloadDirectory_def)
  note f1 = kept_client [OF 1]
  have 2: "fs_kept R ?s1 ?s2"
    using rel_clean_dir [of V prepareDirectory ?s1 "''prepare''"] assms f1
    by (simp add: cleanPrepareDirectory_def)
  note f2 = kept_client [OF 2]
  have 3: "fs_kept R ?s2 (snd (cleanEncryptDirectory V ?s2))"
    using rel_clean_dir [of V encryptDirectory ?s2 "''encrypt''"] assms f1 f2
    by (simp add: cleanEncryptDirectory_def)
  from rel_trans [OF rel_trans [OF 1 2] 3] show ?thesis
    by (simp only: cleanDirectories_def Let_def)
qed

end

text \<open>The region the three working directories of a client cover.\<close>

definition work_region :: "client \<Rightarrow> string list \<Rightarrow> bool" where
  "work_region c q \<longleftrightarrow>
     (\<exists>d \<in> {downloadDirectory c, prepareDirectory c, encryptDirectory c}. d \<noteq> [] \<and> within (resolve d) q)"

lemma kept_cleanDirectories: "kept (work_region (fst s)) s (cleanDirectories V s)"
proof (rule region.rel_cleanDirectories)
  fix d w
  assume d: "d \<in> {downloadDirectory (fst s), prepareDirectory (fst s), encryptDirectory (fst s)}"
  show "same_except (work_region (fst s)) (w_fs w) (w_fs (snd (os_RemoveAll (ce_os V) d w)))"
  proof (cases "d = []")
    case False
    with d show ?thesis by (intro same_except_os_RemoveAll) (auto simp: work_region_def)
  qed (simp add: os_RemoveAll_def)
qed

end
