(* ===== verification/Client_Frame.thy ===== *)
theory Client_Frame
  imports Client_Steps
begin

text \<open>
  The frame of a whole run: whatever fails, the client only changes entries of its temporary
  directory whose names start with \<^verbatim>\<open>mysql-backup\<close>, and the artifacts of its instances in the
  output directory.
\<close>

subsection \<open>tarAndEncryptBackup\<close>

lemma cmd_Wait_fs [simp]: "w_fs (snd (cmd_Wait oc c w)) = w_fs w"
  by (simp add: cmd_Wait_def)

lemma cmd_StdoutPipe_fs [simp]: "w_fs (snd (cmd_StdoutPipe E w)) = w_fs w"
  by (simp add: cmd_StdoutPipe_def)

lemma os_Close_fs [simp]: "w_fs (snd (os_Close E p w)) = w_fs w"
  by (simp add: os_Close_def)

lemma confined_mono: "confined P c Q \<Longrightarrow> (\<And>q. Q q \<Longrightarrow> R q) \<Longrightarrow> confined P c R"
  by (auto simp: confined_def intro: same_except_mono)

lemma kept_tarAndEncrypt:
  assumes "Q (resolve (encryptedBackupLocation (fst s) uuid))"
    and "confined (ce_programs V) (TarClient_Tar (cl_tarClient (fst s)) (prepareDirectory (fst s))) Q"
  shows "kept Q s (snd (tarAndEncryptBackup V uuid s))"
  using region.rel_tarAndEncrypt [where Q = Q, OF assms(1)] assms(2) by (simp add: confined_runs)

subsection \<open>The state of the client across instances\<close>

text \<open>The part of the client that no method changes.\<close>

definition base :: "client \<Rightarrow> client" where
  "base c = c\<lparr>cl_version := 0, cl_logger := NewLogger [], downloadDirectory := [],
     prepareDirectory := [], encryptDirectory := []\<rparr>"

lemma base_fields:
  assumes "base c = base d"
  shows "cl_config c = cl_config d" "cl_tarClient c = cl_tarClient d"
    "cl_backupPreparer c = cl_backupPreparer d" "cl_downloader c = cl_downloader d"
    "cl_galeraAgentCaller c = cl_galeraAgentCaller d" "cl_encryptor c = cl_encryptor d"
    "cl_metadataFields c = cl_metadataFields d"
  using arg_cong [OF assms, of cl_config] arg_cong [OF assms, of cl_tarClient]
    arg_cong [OF assms, of cl_backupPreparer] arg_cong [OF assms, of cl_downloader]
    arg_cong [OF assms, of cl_galeraAgentCaller] arg_cong [OF assms, of cl_encryptor]
    arg_cong [OF assms, of cl_metadataFields]
  by (simp_all add: base_def)

definition tmp_prefix :: string where
  "tmp_prefix = ''mysql-backup''"

text \<open>
  Each working directory is unset or the name of a temporary entry of \<^verbatim>\<open>TmpDir\<close> that
  \<^verbatim>\<open>os.RemoveAll\<close> does not refuse.
\<close>

definition work_dir :: "string \<Rightarrow> string \<Rightarrow> bool" where
  "work_dir tmp d \<longleftrightarrow> temp_entry tmp tmp_prefix (resolve d) \<and> \<not> ends_with_dot d"

definition dirs_ok :: "client \<Rightarrow> bool" where
  "dirs_ok c \<longleftrightarrow> (\<forall>d \<in> {downloadDirectory c, prepareDirectory c, encryptDirectory c}.
     d \<noteq> [] \<longrightarrow> work_dir (TmpDir (cl_config c)) d)"

definition tmp_region :: "client_config \<Rightarrow> string list \<Rightarrow> bool" where
  "tmp_region cfg q \<longleftrightarrow> (\<exists>e. temp_entry (TmpDir cfg) tmp_prefix e \<and> within e q)"

definition artifact_region :: "client_config \<Rightarrow> string \<Rightarrow> string list \<Rightarrow> bool" where
  "artifact_region cfg uuid q \<longleftrightarrow>
     (\<exists>v ext. ext \<in> {''.txt'', ''.tar.gpg''}
        \<and> q = resolve (OutputDir cfg) @ [''mysql-backup-'' @ decimal v @ ''-'' @ uuid @ ext])"

definition run_region :: "client_config \<Rightarrow> string list \<Rightarrow> bool" where
  "run_region cfg q \<longleftrightarrow> tmp_region cfg q \<or> (\<exists>i \<in> set (Instances cfg). artifact_region cfg (UUID i) q)"

text \<open>The part of the region that one instance covers.\<close>

definition inst_region :: "client_config \<Rightarrow> string \<Rightarrow> string list \<Rightarrow> bool" where
  "inst_region cfg uuid q \<longleftrightarrow> tmp_region cfg q \<or> artifact_region cfg uuid q"

definition instances_region :: "client_config \<Rightarrow> Instance list \<Rightarrow> string list \<Rightarrow> bool" where
  "instances_region cfg is q \<longleftrightarrow> tmp_region cfg q \<or> (\<exists>i \<in> set is. artifact_region cfg (UUID i) q)"

definition evolves :: "(string list \<Rightarrow> bool) \<Rightarrow> cstate \<Rightarrow> cstate \<Rightarrow> bool" where
  "evolves Q s t \<longleftrightarrow> base (fst t) = base (fst s) \<and> (dirs_ok (fst s) \<longrightarrow> dirs_ok (fst t))
     \<and> same_except Q (w_fs (snd s)) (w_fs (snd t))"

lemma evolves_refl [simp]: "evolves Q s s"
  by (simp add: evolves_def)

lemma evolves_trans: "evolves Q s t \<Longrightarrow> evolves Q t u \<Longrightarrow> evolves Q s u"
  by (auto simp: evolves_def intro: same_except_trans)

lemma evolves_mono: "evolves Q s t \<Longrightarrow> (\<And>q. Q q \<Longrightarrow> R q) \<Longrightarrow> evolves R s t"
  by (auto simp: evolves_def intro: same_except_mono)

lemma kept_evolves: "kept Q s t \<Longrightarrow> evolves Q s t"
  by (simp add: kept_def evolves_def)

lemma evolves_run_steps:
  assumes "\<And>f t. f \<in> set fs \<Longrightarrow> evolves Q s t \<Longrightarrow> evolves Q t (snd (f t))"
  shows "evolves Q s (snd (run_steps fs s))"
proof (rule run_steps_preserves [where P = "evolves Q s"])
  fix f t
  assume "f \<in> set fs" and k: "evolves Q s t"
  from assms [OF this] k show "evolves Q s (snd (f t))" by (rule evolves_trans [rotated])
qed simp

subsection \<open>createDirectories\<close>

lemma tmp_patterns:
  assumes "pat \<in> {''mysql-backup-downloads'', ''mysql-backup-prepare'', ''mysql-backup-encrypt''}"
  shows "plain_name pat" "pat \<noteq> [CHR ''.'']" "HasPrefix pat tmp_prefix"
  using assms by (auto simp: plain_name_def dot_def dotdot_def HasPrefix_def tmp_prefix_def)

lemma HasPrefix_trans: "HasPrefix n p \<Longrightarrow> HasPrefix p q \<Longrightarrow> HasPrefix n q"
  unfolding HasPrefix_def by (metis length_take min.absorb_iff1 nat_le_linear take_all take_take)

lemma temp_entry_mono: "temp_entry d p q \<Longrightarrow> HasPrefix p r \<Longrightarrow> temp_entry d r q"
  by (auto simp: temp_entry_def intro: HasPrefix_trans)

text \<open>A successful \<open>make_tmp\<close>, taken apart.\<close>

lemma make_tmp_None:
  assumes "make_tmp V set_dir pat s = (None, t)" and "TmpDir (cl_config (fst s)) \<noteq> []"
    and "pat \<in> {''mysql-backup-downloads'', ''mysql-backup-prepare'', ''mysql-backup-encrypt''}"
  obtains d where "fst t = set_dir d (fst s)" and "d \<noteq> []" and "\<not> ends_with_dot d"
    and "temp_entry (TmpDir (cl_config (fst s))) pat (resolve d)"
    and "fs_lookup (w_fs (snd s)) (resolve d) = None"
    and "w_fs (snd t) = fs_put (resolve d) Dir (w_fs (snd s))"
proof -
  from assms(1) obtain d w where d: "ioutil_TempDir (ce_os V) (TmpDir (cl_config (fst s))) pat (snd s) = (Inr d, w)"
    and t: "t = (set_dir d (fst s), w)"
    by (auto simp: make_tmp_def split: prod.splits sum.splits)
  from TempDir_Inr [OF d assms(2) tmp_patterns(1,2) [OF assms(3)]] t show thesis
    by (intro that [of d]) simp_all
qed

lemma make_tmp_Some:
  assumes "make_tmp V set_dir pat s = (Some e, t)"
  shows "fst t = set_dir [] (fst s)" and "w_fs (snd t) = w_fs (snd s)"
  using assms by (auto simp: make_tmp_def split: prod.splits sum.splits dest: TempDir_Inl_fs)

lemma evolves_make_tmp:
  assumes pat: "pat \<in> {''mysql-backup-downloads'', ''mysql-backup-prepare'', ''mysql-backup-encrypt''}"
    and tmp: "TmpDir (cl_config (fst s)) \<noteq> []"
    and Q: "\<And>q. tmp_region (cl_config (fst s)) q \<Longrightarrow> Q q"
    and set_dir: "\<And>d c. base (set_dir d c) = base c"
      "\<And>d c. dirs_ok c \<Longrightarrow> d = [] \<or> work_dir (TmpDir (cl_config c)) d \<Longrightarrow> dirs_ok (set_dir d c)"
  shows "evolves Q s (snd (make_tmp V set_dir pat s))"
proof -
  obtain e t where m: "make_tmp V set_dir pat s = (e, t)" by (metis surj_pair)
  show ?thesis
  proof (cases e)
    case None
    with m make_tmp_None [of V set_dir pat s t, OF _ tmp pat] obtain d where t: "fst t = set_dir d (fst s)"
      and nd: "\<not> ends_with_dot d" and d: "temp_entry (TmpDir (cl_config (fst s))) pat (resolve d)"
      and fs: "w_fs (snd t) = fs_put (resolve d) Dir (w_fs (snd s))" by blast
    from temp_entry_mono [OF d tmp_patterns(3) [OF pat]]
    have te: "temp_entry (TmpDir (cl_config (fst s))) tmp_prefix (resolve d)" .
    then have "Q (resolve d)" by (intro Q) (auto simp: tmp_region_def)
    moreover from te have "resolve d \<noteq> []" by (auto simp: temp_entry_def)
    ultimately have "same_except Q (w_fs (snd s)) (w_fs (snd t))"
      unfolding fs by (intro same_except_put)
    with m t te nd set_dir show ?thesis by (simp add: evolves_def work_dir_def)
  next
    case (Some x)
    with m make_tmp_Some [of V set_dir pat s x t] set_dir show ?thesis by (simp add: evolves_def)
  qed
qed

lemma evolves_config: "evolves Q s t \<Longrightarrow> cl_config (fst t) = cl_config (fst s)"
  using base_fields(1) [of "fst t" "fst s"] by (simp add: evolves_def)

lemma evolves_createDirectories:
  assumes tmp: "TmpDir (cl_config (fst s)) \<noteq> []"
    and Q: "\<And>q. tmp_region (cl_config (fst s)) q \<Longrightarrow> Q q"
  shows "evolves Q s (snd (createDirectories V s))"
  unfolding createDirectories_def
proof (rule evolves_run_steps, goal_cases)
  case (1 f t)
  from evolves_config [OF 1(2)] tmp Q
  have tmp: "TmpDir (cl_config (fst t)) \<noteq> []" and Q: "\<And>q. tmp_region (cl_config (fst t)) q \<Longrightarrow> Q q"
    by simp_all
  have "evolves Q t (snd (make_tmp V (\<lambda>d. downloadDirectory_update (\<lambda>_. d)) ''mysql-backup-downloads'' t))"
    by (rule evolves_make_tmp [OF _ tmp Q]) (auto simp: base_def dirs_ok_def)
  moreover have "evolves Q t (snd (make_tmp V (\<lambda>d. prepareDirectory_update (\<lambda>_. d)) ''mysql-backup-prepare'' t))"
    by (rule evolves_make_tmp [OF _ tmp Q]) (auto simp: base_def dirs_ok_def)
  moreover have "evolves Q t (snd (make_tmp V (\<lambda>d. encryptDirectory_update (\<lambda>_. d)) ''mysql-backup-encrypt'' t))"
    by (rule evolves_make_tmp [OF _ tmp Q]) (auto simp: base_def dirs_ok_def)
  moreover have "evolves Q t (snd (log_step l a d t))" for l a d
    by (rule kept_evolves [OF kept_log_step])
  ultimately show ?case using 1(1) by auto
qed

text \<open>After a successful \<open>createDirectories\<close> all three directories are set.\<close>

lemma createDirectories_None:
  assumes "createDirectories V s = (None, t)" and "TmpDir (cl_config (fst s)) \<noteq> []"
  obtains d p e where "downloadDirectory (fst t) = d" "prepareDirectory (fst t) = p" "encryptDirectory (fst t) = e"
    and "d \<noteq> []" "p \<noteq> []" "e \<noteq> []"
    and "temp_entry (TmpDir (cl_config (fst s))) ''mysql-backup-prepare'' (resolve p)"
    and "cl_version (fst t) = cl_version (fst s)"
    and "w_fs (snd t) = fs_put (resolve e) Dir (fs_put (resolve p) Dir (fs_put (resolve d) Dir (w_fs (snd s))))"
    and "base (fst t) = base (fst s)"
proof -
  let ?s1 = "clog DEBUG ''Creating directories'' None [] s"
  from assms(1) obtain s2 s3 s4 where
    m1: "make_tmp V (\<lambda>d. downloadDirectory_update (\<lambda>_. d)) ''mysql-backup-downloads'' ?s1 = (None, s2)"
    and m2: "make_tmp V (\<lambda>d. prepareDirectory_update (\<lambda>_. d)) ''mysql-backup-prepare'' s2 = (None, s3)"
    and m3: "make_tmp V (\<lambda>d. encryptDirectory_update (\<lambda>_. d)) ''mysql-backup-encrypt'' s3 = (None, s4)"
    and t: "t = clog DEBUG ''Created directories'' None (dir_data (fst s4)) s4"
    by (auto simp: createDirectories_def log_step_def)
  from make_tmp_None [OF m1] assms(2) obtain d where 1: "fst s2 = (fst s)\<lparr>downloadDirectory := d\<rparr>"
    "d \<noteq> []" "w_fs (snd s2) = fs_put (resolve d) Dir (w_fs (snd s))" by auto
  from make_tmp_None [OF m2] assms(2) 1(1) obtain p where 2: "fst s3 = (fst s2)\<lparr>prepareDirectory := p\<rparr>"
    "p \<noteq> []" "temp_entry (TmpDir (cl_config (fst s))) ''mysql-backup-prepare'' (resolve p)"
    "w_fs (snd s3) = fs_put (resolve p) Dir (w_fs (snd s2))" by auto
  from make_tmp_None [OF m3] assms(2) 1(1) 2(1) obtain e where 3: "fst s4 = (fst s3)\<lparr>encryptDirectory := e\<rparr>"
    "e \<noteq> []" "w_fs (snd s4) = fs_put (resolve e) Dir (w_fs (snd s3))" by auto
  from 1 2 3 t show thesis by (intro that [of d p e]) (simp_all add: base_def)
qed

subsection \<open>Artifacts\<close>

lemma decimal_plain: "CHR ''/'' \<notin> set (decimal v)"
  using decimal_chars [of v] digit_chars_plain(1) by auto

lemma artifact_plain:
  assumes "CHR ''/'' \<notin> set uuid" and "ext \<in> {''.txt'', ''.tar.gpg''}"
  shows "plain_name (''mysql-backup-'' @ decimal v @ ''-'' @ uuid @ ext)"
  using assms decimal_plain [of v] by (auto simp: plain_name_def dot_def dotdot_def)

lemma artifact_locations:
  assumes "CHR ''/'' \<notin> set uuid"
  shows "resolve (finalMetadataLocation c uuid)
      = resolve (OutputDir (cl_config c)) @ [''mysql-backup-'' @ decimal (cl_version c) @ ''-'' @ uuid @ ''.txt'']"
    and "resolve (encryptedBackupLocation c uuid)
      = resolve (OutputDir (cl_config c)) @ [''mysql-backup-'' @ decimal (cl_version c) @ ''-'' @ uuid @ ''.tar.gpg'']"
  using resolve_Join_plain [OF artifact_plain [OF assms, of "''.txt''" "cl_version c"]]
    resolve_Join_plain [OF artifact_plain [OF assms, of "''.tar.gpg''" "cl_version c"]]
  by (simp_all add: finalMetadataLocation_def encryptedBackupLocation_def artifactName_def)

lemma artifact_regions:
  assumes "CHR ''/'' \<notin> set uuid"
  shows "artifact_region (cl_config c) uuid (resolve (finalMetadataLocation c uuid))"
    and "artifact_region (cl_config c) uuid (resolve (encryptedBackupLocation c uuid))"
  unfolding artifact_region_def artifact_locations [OF assms] by blast+

subsection \<open>A node\<close>

text \<open>What a run needs of the configuration and of the programs for its frame.\<close>

definition frame_ok :: "client_env \<Rightarrow> client \<Rightarrow> bool" where
  "frame_ok V c \<longleftrightarrow> TmpDir (cl_config c) \<noteq> [] \<and> programs_confined (ce_programs V) c
     \<and> list_all (\<lambda>i. CHR ''/'' \<notin> set (UUID i)) (Instances (cl_config c))"

lemma frame_ok_base:
  assumes "base c = base d"
  shows "frame_ok V c = frame_ok V d"
  using base_fields [OF assms] by (simp add: frame_ok_def programs_confined_def)

lemma frame_ok_evolves: "evolves Q s t \<Longrightarrow> frame_ok V (fst s) \<Longrightarrow> frame_ok V (fst t)"
  using frame_ok_base [of "fst t" "fst s" V] by (simp add: evolves_def)

lemma dirs_ok_within:
  assumes "dirs_ok c" and "work_region c q"
  shows "tmp_region (cl_config c) q"
  using assms by (auto simp: dirs_ok_def work_dir_def work_region_def tmp_region_def)

lemma prepare_dir_within:
  assumes "dirs_ok c" and "prepareDirectory c \<noteq> []" and "within (resolve (prepareDirectory c)) q"
  shows "tmp_region (cl_config c) q"
  using assms by (intro dirs_ok_within) (auto simp: work_region_def)

text \<open>The steps after \<open>createDirectories\<close>, which keep the client.\<close>

definition node_steps :: "client_env \<Rightarrow> Instance \<Rightarrow> cstep list" where
  "node_steps V inst =
     [downloadAndUnpackBackup V (Address inst), prepareBackup V, writeMetadataFile V (UUID inst),
      tarAndEncryptBackup V (UUID inst)]"

lemma BackupNode_steps: "BackupNode V inst = run_steps (createDirectories V # node_steps V inst)"
  by (simp add: BackupNode_def node_steps_def)

text \<open>The three programs, on the directory of a client.\<close>

definition node_runs :: "(fs \<Rightarrow> fs \<Rightarrow> bool) \<Rightarrow> programs \<Rightarrow> client \<Rightarrow> bool" where
  "node_runs R P c \<longleftrightarrow> runs_in R P (Unpacker_cmd (NewUnpacker (prepareDirectory c)))
     \<and> runs_in R P (cl_backupPreparer c (prepareDirectory c))
     \<and> runs_in R P (TarClient_Tar (cl_tarClient c) (prepareDirectory c))"

lemma programs_confined_runs:
  assumes "programs_confined P c" and "\<And>q. within (resolve (prepareDirectory c)) q \<Longrightarrow> Q q"
  shows "node_runs (same_except Q) P c"
  using assms unfolding node_runs_def confined_runs [symmetric]
  by (auto simp: programs_confined_def intro: confined_mono)

text \<open>Where the backup of a node writes.\<close>

definition node_region :: "client \<Rightarrow> string \<Rightarrow> string list \<Rightarrow> bool" where
  "node_region c uuid q \<longleftrightarrow> tmp_region (cl_config c) q
     \<or> q = resolve (finalMetadataLocation c uuid) \<or> q = resolve (encryptedBackupLocation c uuid)"

lemma node_region_inst:
  assumes "CHR ''/'' \<notin> set uuid" and "node_region c uuid q"
  shows "inst_region (cl_config c) uuid q"
  using assms(2) artifact_regions [OF assms(1), of c] by (auto simp: node_region_def inst_region_def)

lemma location_eq:
  assumes "cl_config c = cl_config d" and "cl_version c = cl_version d"
  shows "finalMetadataLocation c uuid = finalMetadataLocation d uuid"
    and "encryptedBackupLocation c uuid = encryptedBackupLocation d uuid"
  by (simp_all add: finalMetadataLocation_def encryptedBackupLocation_def artifactName_def assms)

context download_service
begin

lemma rel_node_steps:
  assumes "file_relation R W" and "cl_downloader (fst s) = dl" and "node_runs R (ce_programs V) (fst s)"
    and "W (resolve (finalMetadataLocation (fst s) (UUID inst)))"
    and "W (resolve (encryptedBackupLocation (fst s) (UUID inst)))"
  shows "fs_kept R s (snd (run_steps (node_steps V inst) s))"
proof (rule file_relation.rel_run_steps [OF assms(1)], goal_cases)
  case (1 f t)
  have "fs_kept R t (snd (downloadAndUnpackBackup V (Address inst) t))"
    using assms(2,3) 1(2) by (intro rel_download [OF assms(1)]) (simp_all add: node_runs_def)
  moreover have "fs_kept R t (snd (prepareBackup V t))"
    using assms(3) 1(2) by (intro file_relation.rel_prepare [OF assms(1)]) (simp add: node_runs_def prepare_cmd_def)
  moreover have "fs_kept R t (snd (writeMetadataFile V (UUID inst) t))"
    using assms(4) 1(2) by (intro file_relation.rel_metadata [OF assms(1)]) simp
  moreover have "fs_kept R t (snd (tarAndEncryptBackup V (UUID inst) t))"
    using assms(3,5) 1(2) by (intro file_relation.rel_tarAndEncrypt [OF assms(1)]) (simp_all add: node_runs_def)
  ultimately show ?case using 1(1) by (auto simp: node_steps_def)
qed

lemma kept_node_steps:
  assumes "cl_downloader (fst s) = dl" and "programs_confined (ce_programs V) (fst s)"
    and Q: "\<And>q. within (resolve (prepareDirectory (fst s))) q \<or> q = resolve (finalMetadataLocation (fst s) (UUID inst))
      \<or> q = resolve (encryptedBackupLocation (fst s) (UUID inst)) \<Longrightarrow> Q q"
  shows "kept Q s (snd (run_steps (node_steps V inst) s))"
  by (rule rel_node_steps [OF region.file_relation_axioms assms(1) programs_confined_runs [OF assms(2)]])
    (simp_all add: Q)

text \<open>A node changes its temporary directories and the two artifacts of its version.\<close>

lemma evolves_BackupNode_exact:
  assumes "cl_downloader (fst s) = dl" and "frame_ok V (fst s)" and "dirs_ok (fst s)"
  shows "evolves (node_region (fst s) (UUID inst)) s (snd (BackupNode V inst s))"
proof -
  let ?Q = "node_region (fst s) (UUID inst)"
  obtain e t where c: "createDirectories V s = (e, t)" by (metis surj_pair)
  have "evolves ?Q s (snd (createDirectories V s))"
    by (rule evolves_createDirectories) (use assms(2) in \<open>simp_all add: frame_ok_def node_region_def\<close>)
  with c have et: "evolves ?Q s t" by simp
  show ?thesis
  proof (cases e)
    case (Some x)
    with c et show ?thesis by (simp add: BackupNode_steps run_steps_Cons)
  next
    case None
    from assms(2) have tmp: "TmpDir (cl_config (fst s)) \<noteq> []" by (simp add: frame_ok_def)
    from createDirectories_None [OF c [unfolded None] tmp] have p: "prepareDirectory (fst t) \<noteq> []"
      and v: "cl_version (fst t) = cl_version (fst s)" by metis+
    from et have b: "base (fst t) = base (fst s)" and "dirs_ok (fst t)"
      using assms(3) by (simp_all add: evolves_def)
    moreover have "programs_confined (ce_programs V) (fst t)"
      using frame_ok_evolves [OF et assms(2)] by (simp add: frame_ok_def)
    ultimately have "kept ?Q t (snd (run_steps (node_steps V inst) t))"
      using prepare_dir_within [of "fst t"] p assms(1) base_fields(1,4) [OF b]
        location_eq [OF base_fields(1) [OF b] v]
      by (intro kept_node_steps) (auto simp: node_region_def)
    from evolves_trans [OF et kept_evolves [OF this]] c None show ?thesis
      by (simp add: BackupNode_steps run_steps_Cons)
  qed
qed

lemma evolves_backup_instance_exact:
  assumes "cl_downloader (fst s) = dl" and "frame_ok V (fst s)" and "dirs_ok (fst s)"
  shows "evolves (node_region (fst (start_instance V inst s)) (UUID inst)) s (snd (backup_instance V inst s))"
proof -
  let ?s = "start_instance V inst s"
  let ?Q = "node_region (fst ?s) (UUID inst)"
  obtain e t where n: "BackupNode V inst ?s = (e, t)" by (metis surj_pair)
  have b: "base (fst ?s) = base (fst s)" "dirs_ok (fst ?s) = dirs_ok (fst s)" "w_fs (snd ?s) = w_fs (snd s)"
    by (simp_all add: start_instance_def time_now_def base_def dirs_ok_def)
  from b have 1: "evolves ?Q s ?s" by (simp add: evolves_def)
  note bf = base_fields [OF b(1)]
  have "evolves ?Q ?s (snd (BackupNode V inst ?s))"
    by (rule evolves_BackupNode_exact) (use assms b bf frame_ok_base [OF b(1)] in simp_all)
  with n have 2: "evolves ?Q ?s t" by simp
  from 1 2 have st: "evolves ?Q s t" by (rule evolves_trans)
  then have "dirs_ok (fst t)" and cfg: "cl_config (fst t) = cl_config (fst ?s)"
    using assms(3) evolves_config [OF 2] by (simp_all add: evolves_def)
  then have "kept ?Q t (cleanDirectories V t)"
    using dirs_ok_within [of "fst t"]
    by (intro kept_mono [OF kept_cleanDirectories]) (auto simp: node_region_def)
  from evolves_trans [OF st kept_evolves [OF this]] n show ?thesis
    by (simp add: backup_instance_def)
qed

lemma evolves_BackupNode:
  assumes "cl_downloader (fst s) = dl" and "frame_ok V (fst s)" and "dirs_ok (fst s)"
    and "inst \<in> set (Instances (cl_config (fst s)))"
  shows "evolves (inst_region (cl_config (fst s)) (UUID inst)) s (snd (BackupNode V inst s))"
  using assms(2,4) node_region_inst
  by (intro evolves_mono [OF evolves_BackupNode_exact [OF assms(1-3)]]) (auto simp: frame_ok_def list_all_iff)

lemma evolves_backup_instance:
  assumes "cl_downloader (fst s) = dl" and "frame_ok V (fst s)" and "dirs_ok (fst s)"
    and "inst \<in> set (Instances (cl_config (fst s)))"
  shows "evolves (inst_region (cl_config (fst s)) (UUID inst)) s (snd (backup_instance V inst s))"
proof (rule evolves_mono [OF evolves_backup_instance_exact [OF assms(1-3)]])
  fix q
  assume "node_region (fst (start_instance V inst s)) (UUID inst) q"
  moreover have "CHR ''/'' \<notin> set (UUID inst)" using assms(2,4) by (auto simp: frame_ok_def list_all_iff)
  ultimately show "inst_region (cl_config (fst s)) (UUID inst) q"
    using node_region_inst by (fastforce simp: start_instance_def time_now_def)
qed

lemma evolves_instances:
  assumes "cl_downloader (fst s) = dl" and "frame_ok V (fst s)" and "dirs_ok (fst s)"
    and "set is \<subseteq> set (Instances (cl_config (fst s)))"
  shows "evolves (instances_region (cl_config (fst s)) is) s (snd (backup_loop V is errs s))"
  using assms
proof (induction "is" arbitrary: errs s)
  case (Cons i "is")
  let ?Q = "instances_region (cl_config (fst s)) (i # is)"
  obtain e t where b: "backup_instance V i s = (e, t)" by (metis surj_pair)
  from evolves_backup_instance [of s V i] Cons.prems b
  have "evolves (inst_region (cl_config (fst s)) (UUID i)) s t" by simp
  then have st: "evolves ?Q s t"
    by (rule evolves_mono) (auto simp: inst_region_def instances_region_def)
  then have bt: "base (fst t) = base (fst s)" by (simp add: evolves_def)
  note bf = base_fields [OF bt]
  have "evolves (instances_region (cl_config (fst t)) is) t (snd (backup_loop V is errs' t))" for errs'
    by (rule Cons.IH) (use Cons.prems bf frame_ok_base [OF bt] st in \<open>simp_all add: evolves_def\<close>)
  then have "evolves ?Q t (snd (backup_loop V is errs' t))" for errs'
    by (rule evolves_mono) (use bf in \<open>auto simp: instances_region_def\<close>)
  from evolves_trans [OF st this] b show ?case by (cases e) simp_all
qed simp

lemma evolves_backup_loop:
  assumes "cl_downloader (fst s) = dl" and "frame_ok V (fst s)" and "dirs_ok (fst s)"
    and "set is \<subseteq> set (Instances (cl_config (fst s)))"
  shows "evolves (run_region (cl_config (fst s))) s (snd (backup_loop V is errs s))"
  by (rule evolves_mono [OF evolves_instances [OF assms]])
    (use assms(4) in \<open>auto simp: instances_region_def run_region_def\<close>)

end

subsection \<open>The start of a run\<close>

text \<open>Names of existing entries are ordinary file names.\<close>

definition fs_plain :: "fs \<Rightarrow> bool" where
  "fs_plain fs \<longleftrightarrow> list_all (\<lambda>(p, _). list_all plain_name p) fs"

lemma fs_plain_key: "fs_plain fs \<Longrightarrow> p \<in> set (map fst fs) \<Longrightarrow> list_all plain_name p"
  by (auto simp: fs_plain_def list_all_iff)

lemma tmp_prefix_facts: "no_meta tmp_prefix" "plain_name (tmp_prefix @ ''*'')"
  by (simp_all add: tmp_prefix_def no_meta_def meta_char_def plain_name_def dot_def dotdot_def)

lemma Glob_tmp:
  assumes "list_all no_meta (resolve d)"
  shows "filepath_Glob E (path_Join d ''mysql-backup*'') w =
    (Inr (case fault_now E w of Some _ \<Rightarrow> []
          | None \<Rightarrow> map abs_path (sort (filter (temp_entry d tmp_prefix) (map fst (w_fs w))))), ticked w)"
  using Glob_prefix [OF assms tmp_prefix_facts] by (simp add: tmp_prefix_def)

context file_relation
begin

lemma rel_cleanTmp:
  assumes "list_all no_meta (resolve (TmpDir (cl_config (fst s))))" and "fs_plain (w_fs (snd s))"
    and "\<And>p d w. temp_entry (TmpDir (cl_config (fst s))) tmp_prefix p \<Longrightarrow> resolve d = p
      \<Longrightarrow> R (w_fs w) (w_fs (snd (os_RemoveAll (ce_os V) d w)))"
  shows "fs_kept R s (snd (cleanTmpDirectories V s))"
proof -
  let ?tmp = "TmpDir (cl_config (fst s))"
  define u where "u = clog DEBUG ''Cleaning tmp directory'' None [(''tmpDirectory'', LStr ?tmp)] s"
  have u: "fst u = fst s" "w_fs (snd u) = w_fs (snd s)" by (simp_all add: u_def)
  obtain ds where g: "filepath_Glob (ce_os V) (path_Join ?tmp ''mysql-backup*'') (snd u) = (Inr ds, ticked (snd u))"
    and ds: "\<forall>d \<in> set ds. \<exists>p \<in> set (map fst (w_fs (snd s))). d = abs_path p \<and> temp_entry ?tmp tmp_prefix p"
    unfolding Glob_tmp [OF assms(1)] u by (cases "fault_now (ce_os V) (snd u)") auto
  have rm: "fs_kept R t (snd (remove_tmp V d t))" if "d \<in> set ds" for d t
  proof -
    from ds that obtain p where p: "p \<in> set (map fst (w_fs (snd s)))" "d = abs_path p"
      "temp_entry ?tmp tmp_prefix p" by blast
    with resolve_abs_path [OF fs_plain_key [OF assms(2) p(1)]] show ?thesis
      unfolding remove_tmp_def by (intro kept_intros assms(3)) simp_all
  qed
  have "fs_kept R (fst u, ticked (snd u))
      (snd (run_steps (map (remove_tmp V) ds @ [log_step DEBUG ''Cleaned tmp directory'' (\<lambda>_. [])])
        (fst u, ticked (snd u))))"
    by (rule rel_run_steps) (auto intro: rm rel_log_step)
  moreover have "fs_kept R s (fst u, ticked (snd u))" by (simp add: fs_kept_def u R_refl)
  ultimately have "fs_kept R s (snd (run_steps
      (map (remove_tmp V) ds @ [log_step DEBUG ''Cleaned tmp directory'' (\<lambda>_. [])]) (fst u, ticked (snd u))))"
    by (rule rel_trans [rotated])
  moreover have "cleanTmpDirectories V s = run_steps
      (map (remove_tmp V) ds @ [log_step DEBUG ''Cleaned tmp directory'' (\<lambda>_. [])]) (fst u, ticked (snd u))"
    using g by (simp add: cleanTmpDirectories_def Let_def u_def)
  ultimately show ?thesis by simp
qed

end

lemma kept_remove_tmp: "kept (\<lambda>_. True) s (snd (remove_tmp V p s))"
  unfolding remove_tmp_def by (intro kept_intros) (simp add: same_except_def)

lemma kept_cleanTmp:
  assumes "list_all no_meta (resolve (TmpDir (cl_config (fst s))))" and "fs_plain (w_fs (snd s))"
  shows "kept (tmp_region (cl_config (fst s))) s (snd (cleanTmpDirectories V s))"
  by (rule region.rel_cleanTmp [OF assms], rule same_except_os_RemoveAll) (auto simp: tmp_region_def)

lemma select_instance_keeps:
  "select_instance wsrep is k i0 s = (i, t) \<Longrightarrow>
   i \<in> insert i0 (set is) \<and> fst t = fst s \<and> w_fs (snd t) = w_fs (snd s)
   \<and> w_procs (snd t) = w_procs (snd s)"
proof (induction "is" arbitrary: k i0 s)
  case (Cons a "is")
  obtain x e where w: "wsrep (Address a) = (x, e)" by (metis surj_pair)
  define s' where "s' = (case e of None \<Rightarrow> s
      | Some x \<Rightarrow> clog ERROR ''Fetching node status from galera agent failed'' (Some x)
          [(''ip'', LStr (Address a))] s)"
  have s': "fst s' = fst s" "w_fs (snd s') = w_fs (snd s)" "w_procs (snd s') = w_procs (snd s)"
    by (simp_all add: s'_def split: option.split)
  from Cons.prems w have sel: "(if k \<le> x then select_instance wsrep is x a s'
      else select_instance wsrep is k i0 s') = (i, t)"
    unfolding s'_def by (cases "k \<le> x") (simp_all add: Let_def)
  show ?case
  proof (cases "k \<le> x")
    case True
    with sel Cons.IH [of x a s'] s' show ?thesis by auto
  next
    case False
    with sel Cons.IH [of k i0 s'] s' show ?thesis by auto
  qed
qed simp

lemma choose_instances_facts:
  assumes "choose_instances s = (r, t)"
  shows "fst t = fst s" and "w_fs (snd t) = w_fs (snd s)"
    and "r = Returned (Inr is) \<Longrightarrow> set is \<subseteq> set (Instances (cl_config (fst s)))"
proof -
  obtain i u where sel: "select_instance (cl_galeraAgentCaller (fst s)) (Instances (cl_config (fst s))) 0
      no_instance s = (i, u)" by (metis surj_pair)
  note f = select_instance_keeps [OF sel]
  have i: "i \<in> set (Instances (cl_config (fst s)))" if "Address i \<noteq> []"
    using f that by (auto simp: no_instance_def)
  let ?c = "cl_config (fst s)"
  have "t = s \<and> (\<forall>is. r = Returned (Inr is) \<longrightarrow> set is \<subseteq> set (Instances ?c))
    \<or> t = u \<and> (\<forall>is. r = Returned (Inr is) \<longrightarrow> is = [i] \<and> Address i \<noteq> [])"
  proof (cases "BackupAllMasters ?c")
    case True
    with assms show ?thesis by (auto simp: choose_instances_def Let_def)
  next
    case False
    note nm = False
    show ?thesis
    proof (cases "BackupFromInactiveNode ?c")
      case True
      with nm assms sel show ?thesis by (cases "Address i = []") (auto simp: choose_instances_def Let_def)
    next
      case False
      with nm assms show ?thesis by (cases "Instances ?c = []") (auto simp: choose_instances_def Let_def)
    qed
  qed
  then show "fst t = fst s" "w_fs (snd t) = w_fs (snd s)"
    "r = Returned (Inr is) \<Longrightarrow> set is \<subseteq> set (Instances ?c)"
    using f i by (elim disjE conjE; simp)+
qed

context download_service
begin

text \<open>The frame of \<^verbatim>\<open>Execute\<close>, for every environment.\<close>

lemma evolves_Execute:
  assumes "cl_downloader (fst s) = dl" and "frame_ok V (fst s)" and "dirs_ok (fst s)"
    and "list_all no_meta (resolve (TmpDir (cl_config (fst s))))" and "fs_plain (w_fs (snd s))"
  shows "evolves (run_region (cl_config (fst s))) s (snd (Execute V s))"
proof -
  let ?Q = "run_region (cl_config (fst s))"
  obtain e s1 where c: "cleanTmpDirectories V s = (e, s1)" by (metis surj_pair)
  from kept_cleanTmp [OF assms(4,5), of V] c
  have "kept (tmp_region (cl_config (fst s))) s s1" by simp
  then have k1: "kept ?Q s s1" by (rule kept_mono) (simp add: run_region_def)
  obtain r s2 where ch: "choose_instances s1 = (r, s2)" by (metis surj_pair)
  from choose_instances_facts(1,2) [OF ch] have "kept ?Q s1 s2" by (simp add: kept_def)
  from kept_trans [OF k1 this] have k2: "kept ?Q s s2" .
  note f = kept_client [OF k1] kept_client [OF k2]
  have loop: "evolves ?Q s (snd (backup_loop V is [] s2))" if "r = Returned (Inr is)" for "is"
  proof -
    have "evolves (run_region (cl_config (fst s2))) s2 (snd (backup_loop V is [] s2))"
      by (rule evolves_backup_loop)
        (use assms f choose_instances_facts(3) [OF ch that] in simp_all)
    with f evolves_trans [OF kept_evolves [OF k2]] show ?thesis by simp
  qed
  show ?thesis
    using c ch kept_evolves [OF k1] kept_evolves [OF k2] loop
    by (simp add: Execute_def split_beta split: option.split run.split sum.split)
qed

end

end
