(* ===== verification/Client_Backup.thy ===== *)
theory Client_Backup
  imports Client_Frame
begin

text \<open>
  What a successful backup of a node leaves behind: the metadata file and the encrypted
  archive, in terms of what the child programs did and of the prepared directory.
\<close>

subsection \<open>The metadata file\<close>

text \<open>The bytes of a file, none for anything else.\<close>

definition file_text :: "fs \<Rightarrow> string list \<Rightarrow> string" where
  "file_text fs p = (case fs_lookup fs p of Some (File m c) \<Rightarrow> c | _ \<Rightarrow> [])"

lemma run_write_fields:
  assumes "run_steps (map (write_field V dst) kvs) s = (None, t)"
    and "fs_lookup (w_fs (snd s)) (resolve dst) = Some (File m c)"
  shows "fs_lookup (w_fs (snd t)) (resolve dst) = Some (File m (c @ fields_text kvs))"
    and "fst t = fst s"
proof -
  have "fs_lookup (w_fs (snd t)) (resolve dst) = Some (File m (c @ fields_text kvs)) \<and> fst t = fst s"
    using assms
  proof (induction kvs arbitrary: s c)
    case Nil
    then show ?case by (simp add: fields_text_def)
  next
    case (Cons kv kvs)
    from Cons.prems(1) obtain u where f: "write_field V dst kv s = (None, u)"
      and rest: "run_steps (map (write_field V dst) kvs) u = (None, t)" by auto
    from f have w: "WriteLineToFile (ce_os V) dst (field_line (fst kv) (snd kv)) (snd s) = (None, snd u)"
      and us: "fst u = fst s"
      by (auto simp: write_field_def logging_def on_world_def split: prod.splits option.splits)
    from WriteLine_None(1) [OF w] Cons.prems(2)
    have "fs_lookup (w_fs (snd u)) (resolve dst)
        = Some (File m (c @ field_line (fst kv) (snd kv) @ [nl]))"
      by (simp add: append_file_lookup)
    from Cons.IH [OF rest this] us show ?case by (simp add: fields_text_def split_beta)
  qed
  then show "fs_lookup (w_fs (snd t)) (resolve dst) = Some (File m (c @ fields_text kvs))"
    "fst t = fst s" by blast+
qed

text \<open>The fields of the metadata file, in the order they are written.\<close>

definition final_fields :: "client_env \<Rightarrow> client \<Rightarrow> string \<Rightarrow> string gomap" where
  "final_fields V c info =
     ce_iter V (merge_fields (ce_iter V (cl_metadataFields c)) (extract_fields (fst (scan_lines info)) []))"

lemma Extract_no_faults:
  assumes "ExtractFileFields E src w = (Inr m, w')" and "no_faults E"
  shows "m = extract_fields (fst (scan_lines (file_text (w_fs w) (resolve src)))) []" and "w_fs w' = w_fs w"
proof -
  from assms obtain w1 where o: "os_Open E src w = (None, w1)"
    by (auto simp: ExtractFileFields_def split: prod.splits option.splits)
  then have f: "w_fs w1 = w_fs w" by (auto simp: os_Open_def)
  from assms o f show "m = extract_fields (fst (scan_lines (file_text (w_fs w) (resolve src)))) []"
    by (auto simp: ExtractFileFields_def os_read_all_def file_text_def split: option.splits node.splits)
  show "w_fs w' = w_fs w" using ExtractFileFields_frame(1) [of E src w] assms(1) by simp
qed

lemma metadata_None:
  assumes "writeMetadataFile V uuid s = (None, t)" and "no_faults (ce_os V)"
    and "CHR ''/'' \<notin> set uuid"
  obtains m where "fst t = fst s"
    and "fs_lookup (w_fs (snd t)) (resolve (finalMetadataLocation (fst s) uuid)) =
      Some (File m (fields_text (final_fields V (fst s)
        (file_text (w_fs (snd s)) (resolve (prepareDirectory (fst s)) @ [''xtrabackup_info''])))))"
proof -
  let ?src = "originalMetadataLocation (fst s)" and ?dst = "finalMetadataLocation (fst s) uuid"
  define u where "u = clog INFO ''Copying metadata file'' None [(''from'', LStr ?src), (''to'', LStr ?dst)] s"
  have u: "fst u = fst s" "w_fs (snd u) = w_fs (snd s)" by (simp_all add: u_def)
  from assms(1) obtain v x where c: "on_world (os_Create (ce_os V) ?dst) u = (None, v)"
    and e: "extract_and_write V ?src ?dst v = (None, x)"
    and t: "t = clog INFO ''Finished writing metadata file'' None [] x"
    by (auto simp: writeMetadataFile_def Let_def log_step_def u_def)
  from c have c': "os_Create (ce_os V) ?dst (snd u) = (None, snd v)" and vc: "fst v = fst s"
    using u by (auto simp: on_world_def split: prod.splits)
  from os_Create_None(1) [OF c'] obtain m where dst: "fs_lookup (w_fs (snd v)) (resolve ?dst) = Some (File m [])"
    by blast
  have src: "resolve ?src = resolve (prepareDirectory (fst s)) @ [''xtrabackup_info'']"
    by (simp add: originalMetadataLocation_def plain_name_def dot_def dotdot_def)
  have "resolve ?src \<noteq> resolve ?dst"
    unfolding src artifact_locations(1) [OF assms(3)] by simp
  then have same: "fs_lookup (w_fs (snd v)) (resolve ?src) = fs_lookup (w_fs (snd s)) (resolve ?src)"
    using os_Create_None(2) [OF c'] u by simp
  from e obtain fm w where x: "ExtractFileFields (ce_os V) ?src (snd v) = (Inr fm, w)"
    and r: "run_steps (map (write_field V ?dst)
      (ce_iter V (merge_fields (ce_iter V (cl_metadataFields (fst v))) fm))) (fst v, w) = (None, x)"
    by (auto simp: extract_and_write_def split: prod.splits sum.splits)
  note f = Extract_no_faults [OF x assms(2)]
  have fm: "fm = extract_fields (fst (scan_lines (file_text (w_fs (snd s)) (resolve ?src)))) []"
    using f(1) same by (simp add: file_text_def)
  from run_write_fields [OF r, of m "[]"] dst f(2)
  have "fs_lookup (w_fs (snd x)) (resolve ?dst) = Some (File m (fields_text
      (ce_iter V (merge_fields (ce_iter V (cl_metadataFields (fst v))) fm))))" "fst x = fst v" by simp_all
  with t vc fm show thesis by (intro that [of m]) (simp_all add: final_fields_def src)
qed

text \<open>The fields as a map: those of the xtrabackup file, overridden by the configured ones.\<close>

lemma final_fields_map:
  assumes "rearrangement (ce_iter V)" and "gomap_ok (cl_metadataFields c)"
  shows "gomap_ok (final_fields V c info)"
    and "map_of (final_fields V c info) =
      map_of (extract_fields (fst (scan_lines info)) []) ++ map_of (cl_metadataFields c)"
proof -
  let ?m = "extract_fields (fst (scan_lines info)) []"
  let ?i = "ce_iter V (cl_metadataFields c)"
  have m: "gomap_ok (merge_fields ?i ?m)"
    unfolding merge_fields_def by (intro gomap_ok_updates gomap_ok_extract_fields) simp
  from rearranged_map(1) [OF assms(1) m] show "gomap_ok (final_fields V c info)"
    by (simp add: final_fields_def)
  have i: "gomap_ok ?i" "map_of ?i = map_of (cl_metadataFields c)"
    using rearranged_map [OF assms] by simp_all
  have "map_of (merge_fields ?i ?m) = map_of ?m ++ map_of ?i"
    unfolding merge_fields_def map_of_updates rearranged_map(2) [OF rearrangement_rev i(1)] ..
  with rearranged_map(2) [OF assms(1) m] i(2)
  show "map_of (final_fields V c info) = map_of ?m ++ map_of (cl_metadataFields c)"
    by (simp add: final_fields_def)
qed

subsection \<open>The encrypted archive\<close>

lemma run_writes_no_faults:
  assumes "no_faults E"
  obtains w' where "run_steps (map (os_Write E p) cs) w = (None, w')"
proof -
  have "\<exists>w'. run_steps (map (os_Write E p) cs) w = (None, w')"
  proof (induction cs arbitrary: w)
    case (Cons c cs)
    from assms obtain u where "os_Write E p c w = (None, u)" by (simp add: os_Write_def)
    moreover from Cons.IH obtain w' where "run_steps (map (os_Write E p) cs) u = (None, w')" by blast
    ultimately show ?case by auto
  qed simp
  with that show thesis by blast
qed

text \<open>An encryption into a file that no fault disturbs writes a complete message.\<close>

lemma Encrypt_file:
  assumes "Encrypt L this r (os_Write E p) w = (None, w')" and "no_faults E"
    and "fs_lookup (w_fs w) (resolve p) = Some (File m [])"
  shows "fs_lookup (w_fs w') (resolve p) = Some (File m (message_text L (ck_key this) (rd_chunks r)))"
    and "rd_err r = None"
proof -
  from assms(1) obtain w2 where h: "run_steps (map (os_Write E p) (message_head L (ck_key this) (rd_chunks r))) w = (None, w2)"
    and cl: "w' = snd (run_steps (map (os_Write E p) (pgp_close L (ck_key this) (rd_chunks r))) w2)"
    and "rd_err r = None"
    unfolding Encrypt_None_iff by blast
  then show "rd_err r = None" by simp
  obtain w3 where c: "run_steps (map (os_Write E p) (pgp_close L (ck_key this) (rd_chunks r))) w2 = (None, w3)"
    by (rule run_writes_no_faults [OF assms(2)])
  from run_steps_writes [OF c run_steps_writes [OF h assms(3)]] c cl
  show "fs_lookup (w_fs w') (resolve p) = Some (File m (message_text L (ck_key this) (rd_chunks r)))"
    by (simp add: message_text_def)
qed

lemma logging_None: "logging m d f s = (None, t) \<longleftrightarrow> f s = (None, t)"
  by (auto simp: logging_def split: prod.splits option.splits)

lemma on_world_None: "on_world f s = (None, t) \<longleftrightarrow> fst t = fst s \<and> f (snd s) = (None, snd t)"
  by (cases t) (auto simp: on_world_def split: prod.splits)

lemma cmd_Start_None:
  assumes "cmd_Start P c w = (None, w')"
  shows "oc_start (P c [] (w_fs w)) = None" and "w_fs w' = oc_fs (P c [] (w_fs w))"
    and "w_procs w' = c # w_procs w"
  using assms by (auto simp: cmd_Start_def Let_def split: option.splits)

lemma cmd_Wait_None:
  assumes "cmd_Wait oc c w = (None, w')"
  shows "oc_exit oc = Exited 0" and "w_fs w' = w_fs w" and "w_procs w' = remove1 c (w_procs w)"
  using assms by (cases "oc_exit oc"; auto simp: cmd_Wait_def split: if_splits)+

lemma tarAndEncrypt_None:
  assumes "tarAndEncryptBackup V uuid s = (None, t)" and "no_faults (ce_os V)"
    and "confined (ce_programs V) (TarClient_Tar (cl_tarClient (fst s)) (prepareDirectory (fst s))) (\<lambda>_. False)"
  defines "dst \<equiv> resolve (encryptedBackupLocation (fst s) uuid)"
  obtains fs m where "same_except (\<lambda>q. q = dst) (w_fs (snd s)) fs"
    and "fst t = fst s"
    and "oc_start (ce_programs V (TarClient_Tar (cl_tarClient (fst s)) (prepareDirectory (fst s))) [] fs) = None"
    and "oc_exit (ce_programs V (TarClient_Tar (cl_tarClient (fst s)) (prepareDirectory (fst s))) [] fs) = Exited 0"
    and "fs_lookup (w_fs (snd t)) dst = Some (File m (message_text (ce_pgp V) (ck_key (cl_encryptor (fst s)))
      (oc_out (ce_programs V (TarClient_Tar (cl_tarClient (fst s)) (prepareDirectory (fst s))) [] fs))))"
    and "w_procs (snd t) = w_procs (snd s)"
proof -
  let ?dst = "encryptedBackupLocation (fst s) uuid"
  let ?tar = "TarClient_Tar (cl_tarClient (fst s)) (prepareDirectory (fst s))"
  let ?u = "clog INFO ''Starting encrypting backup'' None [] s"
  from assms(1) obtain s1 s2 where c: "on_world (os_Create (ce_os V) ?dst) ?u = (None, s1)"
    and r: "run_steps [logging ''Error attaching stdout to encryption'' [] (on_world (cmd_StdoutPipe (ce_os V))),
                     start_and_encrypt V ?dst ?tar] s1 = (None, s2)"
    and t: "t = snd (on_world (os_Close (ce_os V) ?dst) s2)"
    by (auto simp: tarAndEncryptBackup_def Let_def logging_None split: prod.splits option.splits)
  from c have c': "os_Create (ce_os V) ?dst (snd ?u) = (None, snd s1)" and c1: "fst s1 = fst s"
    by (simp_all add: on_world_None)
  from os_Create_None(1) [OF c'] obtain m where dst: "fs_lookup (w_fs (snd s1)) (resolve ?dst) = Some (File m [])" by blast
  have fr: "same_except (\<lambda>q. q = dst) (w_fs (snd s)) (w_fs (snd s1))"
    using os_Create_None(2) [OF c'] by (simp add: same_except_def dst_def)
  from r obtain s1' where pipe: "on_world (cmd_StdoutPipe (ce_os V)) s1 = (None, s1')"
    and st: "start_and_encrypt V ?dst ?tar s1' = (None, s2)"
    unfolding run_steps_None_Cons logging_None by auto
  from pipe have p: "fst s1' = fst s1" "w_fs (snd s1') = w_fs (snd s1)" "w_procs (snd s1') = w_procs (snd s1)"
    by (auto simp: on_world_None cmd_StdoutPipe_def dest: arg_cong [where f = w_fs] arg_cong [where f = w_procs])
  define oc where "oc = ce_programs V ?tar [] (w_fs (snd s1))"
  from st p obtain s3 where b: "cmd_Start (ce_programs V) ?tar (snd s1') = (None, snd s3)" "fst s3 = fst s"
    and eo: "encrypt_output V ?dst oc ?tar s3 = (None, s2)"
    using c1 by (auto simp: start_and_encrypt_def Let_def logging_None on_world_None oc_def)
  from cmd_Start_None [OF b(1)] p have os: "oc_start oc = None" and f3: "w_fs (snd s3) = oc_fs oc"
    and p3: "w_procs (snd s3) = ?tar # w_procs (snd s1)"
    by (simp_all add: oc_def)
  from assms(3) have "same_except (\<lambda>_. False) (w_fs (snd s1)) (oc_fs oc)" by (simp add: confined_def oc_def)
  with dst f3 have dst3: "fs_lookup (w_fs (snd s3)) (resolve ?dst) = Some (File m [])"
    by (simp add: same_except_def)
  from eo b(2) obtain s4 s5 where en: "Encrypt (ce_pgp V) (cl_encryptor (fst s)) (stdout_reader oc)
        (os_Write (ce_os V) ?dst) (snd s3) = (None, snd s4)" and c4: "fst s4 = fst s3"
    and wt: "cmd_Wait oc ?tar (snd s4) = (None, snd s5)" "fst s5 = fst s4"
    and s2: "s2 = clog INFO ''Successfully encrypted backup'' None [] s5"
    by (auto simp: encrypt_output_def logging_None on_world_None log_step_def)
  note ef = Encrypt_file [OF en assms(2) dst3]
  have p4: "w_procs (snd s4) = w_procs (snd s3)"
    using Encrypt_preserves [where P = "\<lambda>w. w_procs w = w_procs (snd s3)" and s = "snd s3" and wr = "os_Write (ce_os V) ?dst"]
      os_Write_frame(2) en by (metis snd_conv)
  note wn = cmd_Wait_None [OF wt(1)]
  have t': "fst t = fst s2" "w_fs (snd t) = w_fs (snd s2)" "w_procs (snd t) = w_procs (snd s2)"
    using t by (simp_all add: os_Close_def)
  have pr: "w_procs (snd s1) = w_procs (snd s)"
    using os_Create_frame(2) [of "ce_os V" ?dst "snd ?u"] c' by simp
  show thesis
  proof (rule that [OF fr])
    show "fst t = fst s" using t' s2 wt(2) c4 b(2) by simp
    show "oc_start (ce_programs V ?tar [] (w_fs (snd s1))) = None"
      "oc_exit (ce_programs V ?tar [] (w_fs (snd s1))) = Exited 0"
      using os wn(1) by (simp_all add: oc_def)
    show "fs_lookup (w_fs (snd t)) dst = Some (File m (message_text (ce_pgp V) (ck_key (cl_encryptor (fst s)))
        (oc_out (ce_programs V ?tar [] (w_fs (snd s1))))))"
      using ef(1) t' s2 wn(2) by (simp add: dst_def stdout_reader_def oc_def)
    show "w_procs (snd t) = w_procs (snd s)"
      using t' s2 wn(3) p4 p3 pr by simp
  qed
qed

subsection \<open>A node\<close>

text \<open>
  What a successful backup of a node means: xbstream unpacked into the prepare directory,
  xtrabackup prepared it, both files are in the output directory, the metadata file with the
  fields of the prepared directory, the archive with the complete message for what tar
  produced from a tree that differs from the prepared one in the artifacts only. When
  xbstream read its input to the end, that input was one that \<open>src\<close> allows.
\<close>

definition node_backed_up_from ::
  "(string list \<Rightarrow> bool) \<Rightarrow> client_env \<Rightarrow> client \<Rightarrow> string \<Rightarrow> fs \<Rightarrow> bool" where
  "node_backed_up_from src V c uuid fs \<longleftrightarrow>
     (\<exists>r f0 f2 m1 m2.
        let P = ce_programs V; p = prepareDirectory c;
            oc1 = P (Unpacker_cmd (NewUnpacker p)) r f0;
            oc2 = P (cl_backupPreparer c p) [] (oc_fs oc1);
            oc3 = P (TarClient_Tar (cl_tarClient c) p) [] f2
        in oc_start oc1 = None \<and> oc_exit oc1 = Exited 0 \<and> oc_start oc2 = None \<and> oc_exit oc2 = Exited 0
         \<and> oc_start oc3 = None \<and> oc_exit oc3 = Exited 0
         \<and> (length r \<le> oc_takes oc1 \<longrightarrow> src r)
         \<and> same_except (artifact_region (cl_config c) uuid) (oc_fs oc2) f2
         \<and> fs_lookup fs (resolve (finalMetadataLocation c uuid)) = Some (File m1 (fields_text (final_fields V c
             (file_text (oc_fs oc2) (resolve p @ [''xtrabackup_info''])))))
         \<and> fs_lookup fs (resolve (encryptedBackupLocation c uuid)) =
             Some (File m2 (message_text (ce_pgp V) (ck_key (cl_encryptor c)) (oc_out oc3))))"

text \<open>The same where nothing is known of the input.\<close>

abbreviation node_backed_up :: "client_env \<Rightarrow> client \<Rightarrow> string \<Rightarrow> fs \<Rightarrow> bool" where
  "node_backed_up \<equiv> node_backed_up_from (\<lambda>_. True)"

lemma artifacts_distinct:
  assumes "CHR ''/'' \<notin> set uuid"
  shows "resolve (finalMetadataLocation c uuid) \<noteq> resolve (encryptedBackupLocation c uuid)"
  unfolding artifact_locations [OF assms] by simp

context download_service
begin

lemma node_steps_None:
  assumes "run_steps (node_steps V inst) s = (None, t)" and "cl_downloader (fst s) = dl"
    and "no_faults (ce_os V)" and "CHR ''/'' \<notin> set (UUID inst)"
    and "programs_confined (ce_programs V) (fst s)"
  shows "fst t = fst s"
    and "node_backed_up_from (src (backup_url (fst s) (Address inst))) V (fst s) (UUID inst) (w_fs (snd t))"
proof -
  let ?c = "fst s" and ?P = "ce_programs V"
  let ?R = "artifact_region (cl_config ?c) (UUID inst)"
  from assms(1) obtain s1 s2 s3 where d: "downloadAndUnpackBackup V (Address inst) s = (None, s1)"
    and p: "prepareBackup V s1 = (None, s2)" and m: "writeMetadataFile V (UUID inst) s2 = (None, s3)"
    and t: "tarAndEncryptBackup V (UUID inst) s3 = (None, t)"
    unfolding node_steps_def run_steps_None_Cons by auto
  from download_None [OF assms(2) d] obtain r where 1: "fst s1 = ?c"
    "oc_start (?P (Unpacker_cmd (NewUnpacker (prepareDirectory ?c))) r (w_fs (snd s))) = None"
    "oc_exit (?P (Unpacker_cmd (NewUnpacker (prepareDirectory ?c))) r (w_fs (snd s))) = Exited 0"
    "w_fs (snd s1) = oc_fs (?P (Unpacker_cmd (NewUnpacker (prepareDirectory ?c))) r (w_fs (snd s)))"
    and sc: "length r \<le> oc_takes (?P (Unpacker_cmd (NewUnpacker (prepareDirectory ?c))) r (w_fs (snd s)))
      \<longrightarrow> src (backup_url ?c (Address inst)) r"
    by blast
  note 2 = prepare_None [OF p, unfolded 1(1) prepare_cmd_def]
  from metadata_None [OF m assms(3,4)] 2(1) obtain m1 where 3: "fst s3 = ?c"
    "fs_lookup (w_fs (snd s3)) (resolve (finalMetadataLocation ?c (UUID inst))) =
      Some (File m1 (fields_text (final_fields V ?c
        (file_text (w_fs (snd s2)) (resolve (prepareDirectory ?c) @ [''xtrabackup_info''])))))"
    by metis
  have ar: "?R (resolve (finalMetadataLocation ?c (UUID inst)))" "?R (resolve (encryptedBackupLocation ?c (UUID inst)))"
    using artifact_regions [OF assms(4)] by simp_all
  have "kept ?R s2 (snd (writeMetadataFile V (UUID inst) s2))"
    using kept_metadata [where Q = ?R and s = s2 and uuid = "UUID inst" and V = V] ar(1) 2(1) by simp
  with m have k3: "same_except ?R (w_fs (snd s2)) (w_fs (snd s3))" by (simp add: kept_def)
  have tar: "confined ?P (TarClient_Tar (cl_tarClient (fst s3)) (prepareDirectory (fst s3))) (\<lambda>_. False)"
    using assms(5) 3(1) by (simp add: programs_confined_def)
  from tarAndEncrypt_None [OF t assms(3) tar, unfolded 3(1)] obtain fs m2 where
    4: "same_except (\<lambda>q. q = resolve (encryptedBackupLocation ?c (UUID inst))) (w_fs (snd s3)) fs"
    "fst t = ?c" "oc_start (?P (TarClient_Tar (cl_tarClient ?c) (prepareDirectory ?c)) [] fs) = None"
    "oc_exit (?P (TarClient_Tar (cl_tarClient ?c) (prepareDirectory ?c)) [] fs) = Exited 0"
    "fs_lookup (w_fs (snd t)) (resolve (encryptedBackupLocation ?c (UUID inst))) =
      Some (File m2 (message_text (ce_pgp V) (ck_key (cl_encryptor ?c))
        (oc_out (?P (TarClient_Tar (cl_tarClient ?c) (prepareDirectory ?c)) [] fs))))" by blast
  then show "fst t = ?c" by simp
  have "same_except ?R (w_fs (snd s3)) fs" using 4(1) ar(2) by (auto intro: same_except_mono)
  with k3 have f2: "same_except ?R (w_fs (snd s2)) fs" by (rule same_except_trans)
  let ?E = "\<lambda>q. q = resolve (encryptedBackupLocation ?c (UUID inst))"
  have "kept ?E s3 (snd (tarAndEncryptBackup V (UUID inst) s3))"
    using tar 3(1) by (intro kept_tarAndEncrypt) (auto intro: confined_mono)
  with t have "same_except ?E (w_fs (snd s3)) (w_fs (snd t))" by (simp add: kept_def)
  from same_exceptD [OF this artifacts_distinct [OF assms(4)]] 3(2)
  have meta: "fs_lookup (w_fs (snd t)) (resolve (finalMetadataLocation ?c (UUID inst))) =
      Some (File m1 (fields_text (final_fields V ?c
        (file_text (w_fs (snd s2)) (resolve (prepareDirectory ?c) @ [''xtrabackup_info''])))))" by simp
  have f: "w_fs (snd s2) = oc_fs (?P (cl_backupPreparer ?c (prepareDirectory ?c)) []
      (oc_fs (?P (Unpacker_cmd (NewUnpacker (prepareDirectory ?c))) r (w_fs (snd s)))))"
    using 2(4) 1(4) by simp
  show "node_backed_up_from (src (backup_url ?c (Address inst))) V ?c (UUID inst) (w_fs (snd t))"
    unfolding node_backed_up_from_def Let_def
    using 1 2 4 f2 meta f sc
    by (intro exI [of _ r] exI [of _ "w_fs (snd s)"] exI [of _ fs] exI [of _ m1] exI [of _ m2]) simp
qed

lemma BackupNode_None:
  assumes "BackupNode V inst s = (None, t)" and "cl_downloader (fst s) = dl"
    and "no_faults (ce_os V)" and "frame_ok V (fst s)" and "inst \<in> set (Instances (cl_config (fst s)))"
  shows "node_backed_up_from (src (backup_url (fst s) (Address inst))) V (fst t) (UUID inst) (w_fs (snd t))"
    and "cl_version (fst t) = cl_version (fst s)" and "base (fst t) = base (fst s)"
    and "temp_entry (TmpDir (cl_config (fst s))) ''mysql-backup-prepare'' (resolve (prepareDirectory (fst t)))"
proof -
  from assms(1) obtain u where c: "createDirectories V s = (None, u)"
    and r: "run_steps (node_steps V inst) u = (None, t)"
    unfolding BackupNode_steps run_steps_None_Cons by blast
  have tmp: "TmpDir (cl_config (fst s)) \<noteq> []" using assms(4) by (simp add: frame_ok_def)
  from createDirectories_None [OF c tmp] have b: "base (fst u) = base (fst s)"
    and v: "cl_version (fst u) = cl_version (fst s)"
    and te: "temp_entry (TmpDir (cl_config (fst s))) ''mysql-backup-prepare'' (resolve (prepareDirectory (fst u)))"
    by metis+
  have sl: "CHR ''/'' \<notin> set (UUID inst)"
    using assms(4,5) by (auto simp: frame_ok_def list_all_iff)
  have pc: "programs_confined (ce_programs V) (fst u)"
    using frame_ok_base [OF b, of V] assms(4) by (simp add: frame_ok_def)
  have dl: "cl_downloader (fst u) = dl" using base_fields(4) [OF b] assms(2) by simp
  note n = node_steps_None [OF r dl assms(3) sl pc]
  from n base_fields(1) [OF b]
  show "node_backed_up_from (src (backup_url (fst s) (Address inst))) V (fst t) (UUID inst) (w_fs (snd t))"
    by (simp add: backup_url_def)
  from n(1) v show "cl_version (fst t) = cl_version (fst s)" by simp
  from n(1) b show "base (fst t) = base (fst s)" by simp
  from n(1) te show "temp_entry (TmpDir (cl_config (fst s))) ''mysql-backup-prepare'' (resolve (prepareDirectory (fst t)))"
    by simp
qed

end

subsection \<open>A run\<close>

text \<open>The output directory is not a temporary entry, nor inside one, nor their parent.\<close>

definition output_apart :: "client_config \<Rightarrow> bool" where
  "output_apart cfg \<longleftrightarrow> resolve (OutputDir cfg) \<noteq> resolve (TmpDir cfg) \<and> \<not> tmp_region cfg (resolve (OutputDir cfg))"

lemma artifact_not_tmp:
  assumes "output_apart cfg" and "artifact_region cfg uuid q"
  shows "\<not> tmp_region cfg q"
proof
  from assms(2) obtain n where q: "q = resolve (OutputDir cfg) @ [n]" by (auto simp: artifact_region_def)
  assume "tmp_region cfg q"
  then obtain m where m: "temp_entry (TmpDir cfg) tmp_prefix (resolve (TmpDir cfg) @ [m])"
    and w: "prefix (resolve (TmpDir cfg) @ [m]) q"
    by (auto simp: tmp_region_def temp_entry_def within_def)
  from w q have "resolve (TmpDir cfg) @ [m] = q \<or> prefix (resolve (TmpDir cfg) @ [m]) (resolve (OutputDir cfg))"
    by (simp add: prefix_snoc)
  with m q assms(1) show False by (auto simp: output_apart_def tmp_region_def within_def)
qed

text \<open>Artifacts of instances with different ids have different names.\<close>

lemma nat_decimal_no_dash: "CHR ''-'' \<notin> set (nat_decimal n)"
  by (rule contra_subsetD [OF nat_decimal_digits digit_chars_plain(4)])

lemma after_dash:
  assumes "CHR ''-'' \<notin> set x" and "CHR ''-'' \<notin> set y" and "x @ CHR ''-'' # a = y @ CHR ''-'' # b"
  shows "x = y" and "a = b"
proof -
  have "cut CHR ''-'' (y @ CHR ''-'' # b) = Some (x, a)"
    unfolding assms(3) [symmetric] by (rule cut_append [OF assms(1)])
  then show "x = y" "a = b" unfolding cut_append [OF assms(2)] by simp_all
qed

lemma after_decimal:
  assumes "decimal v @ CHR ''-'' # a = decimal w @ CHR ''-'' # b"
  shows "a = b" and "v = w"
proof -
  have "a = b \<and> v = w"
  proof (cases "v < 0"; cases "w < 0")
    assume n: "v < 0" "w < 0"
    with assms have "nat_decimal (nat (- v)) @ CHR ''-'' # a = nat_decimal (nat (- w)) @ CHR ''-'' # b"
      by (simp add: decimal_def)
    from after_dash [OF nat_decimal_no_dash nat_decimal_no_dash this] n show ?thesis
      by (auto dest: nat_decimal_inject)
  next
    assume "v < 0" "\<not> w < 0"
    with assms have "CHR ''-'' # nat_decimal (nat (- v)) @ CHR ''-'' # a = nat_decimal (nat w) @ CHR ''-'' # b"
      by (simp add: decimal_def)
    with nat_decimal_no_dash [of "nat w"] show ?thesis by (cases "nat_decimal (nat w)") auto
  next
    assume "\<not> v < 0" "w < 0"
    with assms have "CHR ''-'' # nat_decimal (nat (- w)) @ CHR ''-'' # b = nat_decimal (nat v) @ CHR ''-'' # a"
      by (simp add: decimal_def)
    with nat_decimal_no_dash [of "nat v"] show ?thesis by (cases "nat_decimal (nat v)") auto
  next
    assume n: "\<not> v < 0" "\<not> w < 0"
    with assms have "nat_decimal (nat v) @ CHR ''-'' # a = nat_decimal (nat w) @ CHR ''-'' # b"
      by (simp add: decimal_def)
    from after_dash [OF nat_decimal_no_dash nat_decimal_no_dash this] n show ?thesis
      by (auto dest: nat_decimal_inject)
  qed
  then show "a = b" "v = w" by simp_all
qed

lemma artifact_regions_disjoint:
  assumes "artifact_region cfg u q" and "artifact_region cfg u' q"
  shows "u = u'"
proof -
  from assms obtain v e v' e' where e: "e \<in> {''.txt'', ''.tar.gpg''}" "e' \<in> {''.txt'', ''.tar.gpg''}"
    and q: "decimal v @ CHR ''-'' # (u @ e) = decimal v' @ CHR ''-'' # (u' @ e')"
    by (auto simp: artifact_region_def)
  from after_decimal(1) [OF q] have "u @ e = u' @ e'" .
  then have r: "rev e @ rev u = rev e' @ rev u'" by (metis rev_append)
  from e r show ?thesis by auto
qed

lemma node_backed_up_fs:
  assumes "node_backed_up_from src V c uuid fs" and "CHR ''/'' \<notin> set uuid"
    and "\<And>q. artifact_region (cl_config c) uuid q \<Longrightarrow> fs_lookup fs' q = fs_lookup fs q"
  shows "node_backed_up_from src V c uuid fs'"
  using assms(1) unfolding node_backed_up_from_def assms(3) [OF artifact_regions(1) [OF assms(2)]]
    assms(3) [OF artifact_regions(2) [OF assms(2)]] .

lemma node_backed_up_from_mono:
  assumes "node_backed_up_from src V c uuid fs" and "\<And>r. src r \<Longrightarrow> src' r"
  shows "node_backed_up_from src' V c uuid fs"
  using assms unfolding node_backed_up_from_def Let_def by blast

text \<open>The errors among the outcomes of the instances.\<close>

fun errors_of :: "err list \<Rightarrow> go_error list" where
  "errors_of [] = []"
| "errors_of (None # es) = errors_of es"
| "errors_of (Some e # es) = e # errors_of es"

lemma errors_of_length: "length (errors_of es) \<le> length es"
  by (induction es rule: errors_of.induct) simp_all

lemma errors_of_all: "length (errors_of es) = length es \<longleftrightarrow> None \<notin> set es"
proof (induction es rule: errors_of.induct)
  case (2 es)
  then show ?case using errors_of_length [of es] by simp
qed simp_all

definition instance_ok ::
  "(string \<Rightarrow> string list \<Rightarrow> bool) \<Rightarrow> client_env \<Rightarrow> client \<Rightarrow> Instance \<Rightarrow> fs \<Rightarrow> bool" where
  "instance_ok src V c0 i fs \<longleftrightarrow>
     (\<exists>c. base c = base c0 \<and> node_backed_up_from (src (backup_url c0 (Address i))) V c (UUID i) fs)"

lemma backup_url_base:
  assumes "base c = base d"
  shows "backup_url c ip = backup_url d ip"
  unfolding backup_url_def base_fields(1) [OF assms] ..

lemma instance_ok_base:
  assumes "base c = base d"
  shows "instance_ok src V c i fs = instance_ok src V d i fs"
  unfolding instance_ok_def backup_url_base [OF assms] assms ..

context download_service
begin

text \<open>What the configuration and the environment have to satisfy.\<close>

definition run_ok :: "client_env \<Rightarrow> client \<Rightarrow> bool" where
  "run_ok V c \<longleftrightarrow> cl_downloader c = dl \<and> no_faults (ce_os V) \<and> frame_ok V c \<and> dirs_ok c
     \<and> output_apart (cl_config c)"

lemma backup_instance_stored:
  assumes "backup_instance V i s = (None, t)" and "run_ok V (fst s)"
    and "i \<in> set (Instances (cl_config (fst s)))"
  shows "\<exists>c. base c = base (fst s) \<and> cl_version c = os_now (ce_os V) (w_clock (snd s))
    \<and> node_backed_up_from (src (backup_url (fst s) (Address i))) V c (UUID i) (w_fs (snd t))"
proof -
  let ?s = "start_instance V i s"
  obtain u where n: "BackupNode V i ?s = (None, u)" and t: "t = cleanDirectories V u"
    using assms(1) by (auto simp: backup_instance_def split: prod.splits)
  have b: "base (fst ?s) = base (fst s)" "dirs_ok (fst ?s) = dirs_ok (fst s)"
    "cl_version (fst ?s) = os_now (ce_os V) (w_clock (snd s))"
    by (simp_all add: start_instance_def time_now_def base_def dirs_ok_def)
  note bf = base_fields [OF b(1)]
  from assms(2) have h: "cl_downloader (fst ?s) = dl" "no_faults (ce_os V)" "frame_ok V (fst ?s)"
    "dirs_ok (fst ?s)" "i \<in> set (Instances (cl_config (fst ?s)))"
    using b bf frame_ok_base [OF b(1), of V] assms(3) by (simp_all add: run_ok_def)
  note g = BackupNode_None [OF n h(1,2,3,5)]
  from evolves_BackupNode [OF h(1,3,4,5)] n have "dirs_ok (fst u)" using h(4) by (simp add: evolves_def)
  have cfg: "cl_config (fst u) = cl_config (fst s)" using base_fields(1) [OF g(3)] bf(1) by simp
  have sl: "CHR ''/'' \<notin> set (UUID i)"
    using h(3,5) by (auto simp: frame_ok_def list_all_iff)
  have "fs_lookup (w_fs (snd t)) q = fs_lookup (w_fs (snd u)) q"
    if "artifact_region (cl_config (fst u)) (UUID i) q" for q
  proof -
    have "\<not> work_region (fst u) q"
      using artifact_not_tmp [OF _ that] dirs_ok_within [OF \<open>dirs_ok (fst u)\<close>] cfg assms(2)
      by (auto simp: run_ok_def)
    with kept_fs [OF kept_cleanDirectories [of u V]] t show ?thesis by (simp add: same_except_def)
  qed
  from node_backed_up_fs [OF g(1) sl this] g(2,3) b(1,3) show ?thesis
    by (intro exI [of _ "fst u"]) (simp add: backup_url_base [OF b(1)])
qed

lemma backup_instance_None:
  assumes "backup_instance V i s = (None, t)" and "run_ok V (fst s)"
    and "i \<in> set (Instances (cl_config (fst s)))"
  shows "instance_ok src V (fst s) i (w_fs (snd t))"
  using backup_instance_stored [OF assms] unfolding instance_ok_def by blast

text \<open>
  Every instance of the loop has an outcome, which is what \<^verbatim>\<open>BackupNode\<close> returned for it; the
  instances without an error have their artifacts in place at the end.
\<close>

definition node_outcome :: "client_env \<Rightarrow> client \<Rightarrow> fs \<Rightarrow> Instance \<Rightarrow> err \<Rightarrow> bool" where
  "node_outcome V c0 fs i e \<longleftrightarrow>
     (\<exists>u v. base (fst u) = base c0 \<and> BackupNode V i u = (e, v)) \<and> (e = None \<longrightarrow> instance_ok src V c0 i fs)"

lemma node_outcome_base:
  assumes "base c = base d"
  shows "node_outcome V c fs i e = node_outcome V d fs i e"
  unfolding node_outcome_def instance_ok_base [OF assms] assms ..

lemma backup_instance_outcome:
  assumes "backup_instance V i s = (e, t)" and "run_ok V (fst s)"
    and "i \<in> set (Instances (cl_config (fst s)))"
  shows "node_outcome V (fst s) (w_fs (snd t)) i e"
proof -
  have "base (fst (start_instance V i s)) = base (fst s)"
    by (simp add: start_instance_def time_now_def base_def)
  moreover obtain v where "BackupNode V i (start_instance V i s) = (e, v)"
    using assms(1) by (auto simp: backup_instance_def split: prod.splits)
  moreover have "instance_ok src V (fst s) i (w_fs (snd t))" if "e = None"
    using backup_instance_None [OF assms(1) [unfolded that] assms(2,3)] .
  ultimately show ?thesis unfolding node_outcome_def by blast
qed

text \<open>Later instances do not touch the artifacts of an earlier one.\<close>

lemma node_outcome_later:
  assumes "node_outcome V c0 fs i e" and "run_ok V c0" and "i \<in> set (Instances (cl_config c0))"
    and "same_except (instances_region (cl_config c0) is) fs fs'" and "UUID i \<notin> UUID ` set is"
  shows "node_outcome V c0 fs' i e"
proof -
  have "instance_ok src V c0 i fs'" if ok: "instance_ok src V c0 i fs"
  proof -
    from ok obtain c where c: "base c = base c0"
      "node_backed_up_from (src (backup_url c0 (Address i))) V c (UUID i) fs"
      by (auto simp: instance_ok_def)
    have sl: "CHR ''/'' \<notin> set (UUID i)"
      using assms(2,3) by (auto simp: run_ok_def frame_ok_def list_all_iff)
    have "fs_lookup fs' q = fs_lookup fs q" if a: "artifact_region (cl_config c) (UUID i) q" for q
    proof -
      have cfg: "cl_config c = cl_config c0" using base_fields(1) [OF c(1)] .
      have "\<not> tmp_region (cl_config c0) q"
        using artifact_not_tmp [OF _ a] assms(2) cfg by (simp add: run_ok_def)
      moreover have "\<not> artifact_region (cl_config c0) (UUID j) q" if "j \<in> set is" for j
        using artifact_regions_disjoint [of "cl_config c0" "UUID i" q "UUID j"] a cfg that assms(5) by auto
      ultimately show ?thesis using same_exceptD [OF assms(4)] by (simp add: instances_region_def)
    qed
    from node_backed_up_fs [OF c(2) sl this] c(1) show ?thesis by (auto simp: instance_ok_def)
  qed
  with assms(1) show ?thesis by (simp add: node_outcome_def)
qed

lemma backup_loop_outcomes:
  assumes "backup_loop V is errs s = (es, t)" and "run_ok V (fst s)"
    and "set is \<subseteq> set (Instances (cl_config (fst s)))" and "distinct (map UUID is)"
  shows "\<exists>outs. list_all2 (node_outcome V (fst s) (w_fs (snd t))) is outs \<and> es = errs @ errors_of outs"
  using assms
proof (induction "is" arbitrary: errs s)
  case Nil
  then show ?case by (intro exI [of _ "[]"]) simp
next
  case (Cons i "is")
  obtain e u where b: "backup_instance V i s = (e, u)" by (metis surj_pair)
  from Cons.prems(2,3) evolves_backup_instance [of s V i] b
  have ev: "evolves (inst_region (cl_config (fst s)) (UUID i)) s u" by (simp add: run_ok_def)
  then have bs: "base (fst u) = base (fst s)" by (simp add: evolves_def)
  note bf = base_fields [OF bs]
  have ru: "run_ok V (fst u)"
    using Cons.prems(2) bf frame_ok_base [OF bs, of V] ev by (simp add: run_ok_def evolves_def)
  have sub: "set is \<subseteq> set (Instances (cl_config (fst u)))" "distinct (map UUID is)"
    using Cons.prems(3,4) bf by simp_all
  obtain errs' where l: "backup_loop V is errs' u = (es, t)"
    and errs': "errs' = errs @ errors_of [e]"
    using Cons.prems(1) b by (cases e) auto
  from Cons.IH [OF l ru sub] obtain outs where
    o: "list_all2 (node_outcome V (fst u) (w_fs (snd t))) is outs" "es = errs' @ errors_of outs" by blast
  have "evolves (instances_region (cl_config (fst u)) is) u t"
    using evolves_instances [of u V "is" errs'] ru sub(1) l by (simp add: run_ok_def)
  then have later: "same_except (instances_region (cl_config (fst s)) is) (w_fs (snd u)) (w_fs (snd t))"
    using bf(1) by (simp add: evolves_def)
  have i: "i \<in> set (Instances (cl_config (fst s)))" "UUID i \<notin> UUID ` set is"
    using Cons.prems(3,4) by auto
  from node_outcome_later [OF backup_instance_outcome [OF b Cons.prems(2) i(1)] Cons.prems(2) i(1) later i(2)]
  have "node_outcome V (fst s) (w_fs (snd t)) i e" .
  moreover have "node_outcome V (fst u) (w_fs (snd t)) = node_outcome V (fst s) (w_fs (snd t))"
    by (intro ext node_outcome_base [OF bs])
  ultimately show ?case using o errs'
    by (intro exI [of _ "e # outs"]) (cases e; simp)
qed

end

subsection \<open>The choice of instances\<close>

text \<open>The index a node answers with.\<close>

definition node_index :: "(string \<Rightarrow> int \<times> err) \<Rightarrow> Instance \<Rightarrow> int" where
  "node_index wsrep i = fst (wsrep (Address i))"

lemma last_filter_Cons: "\<exists>x \<in> set xs. P x \<Longrightarrow> last (filter P (a # xs)) = last (filter P xs)"
  by (auto simp: filter_empty_conv)

text \<open>The loop finds the last of the nodes with the largest index, if one reaches \<open>k\<close>.\<close>

lemma select_instance_last_max:
  "fst (select_instance wsrep is k i0 s) =
     (if \<exists>j \<in> set is. k \<le> node_index wsrep j
      then last (filter (\<lambda>j. node_index wsrep j = Max (node_index wsrep ` set is)) is) else i0)"
proof (induction "is" arbitrary: k i0 s)
  case (Cons a "is")
  let ?f = "node_index wsrep"
  obtain x e where w: "wsrep (Address a) = (x, e)" by (metis surj_pair)
  then have x: "?f a = x" by (simp add: node_index_def)
  have step: "\<exists>s'. select_instance wsrep (a # is) k i0 s =
      (if k \<le> x then select_instance wsrep is x a s' else select_instance wsrep is k i0 s')"
    by (rule exI [of _ "case e of None \<Rightarrow> s
      | Some x \<Rightarrow> clog ERROR ''Fetching node status from galera agent failed'' (Some x)
          [(''ip'', LStr (Address a))] s"])
      (use w in \<open>simp add: Let_def\<close>)
  show ?case
  proof (cases "\<exists>j \<in> set is. max k x \<le> ?f j")
    case True
    then obtain j where j: "j \<in> set is" "k \<le> ?f j" "x \<le> ?f j" by auto
    then have "x \<le> Max (?f ` set is)" by (meson Max_ge finite_imageI finite_set image_eqI order_trans)
    then have M: "Max (?f ` set (a # is)) = Max (?f ` set is)"
      using x j(1) by (subst list.set(2), subst image_insert, subst Max_insert) auto
    have "Max (?f ` set is) \<in> ?f ` set is" using j(1) by (intro Max_in) auto
    then have "\<exists>j \<in> set is. ?f j = Max (?f ` set is)" by auto
    from last_filter_Cons [OF this, of a] M
    have l: "last (filter (\<lambda>j. ?f j = Max (?f ` set (a # is))) (a # is))
        = last (filter (\<lambda>j. ?f j = Max (?f ` set is)) is)" by simp
    have a: "\<exists>j \<in> set (a # is). k \<le> ?f j" "\<exists>j \<in> set is. x \<le> ?f j" "\<exists>j \<in> set is. k \<le> ?f j"
      using j by auto
    obtain s' where st: "select_instance wsrep (a # is) k i0 s =
      (if k \<le> x then select_instance wsrep is x a s' else select_instance wsrep is k i0 s')"
      using step by blast
    have "fst (select_instance wsrep (a # is) k i0 s) = last (filter (\<lambda>j. ?f j = Max (?f ` set is)) is)"
      unfolding st using a(2,3) Cons.IH [of x a s'] Cons.IH [of k i0 s'] by auto
    with l a(1) show ?thesis by (simp only: if_True)
  next
    case False
    note none = False
    show ?thesis
    proof (cases "k \<le> x")
      case True
      with none have lt: "\<forall>j \<in> set is. ?f j < x" by auto
      then have M: "Max (?f ` set (a # is)) = x"
        using x by (intro Max_eqI) auto
      from lt x have "filter (\<lambda>j. ?f j = x) (a # is) = [a]" by (auto simp: filter_empty_conv)
      with M have l: "last (filter (\<lambda>j. ?f j = Max (?f ` set (a # is))) (a # is)) = a" by simp
      have ex: "\<exists>j \<in> set (a # is). k \<le> ?f j" using True x by auto
      have no: "\<not> (\<exists>j \<in> set is. x \<le> ?f j)" using lt by auto
      obtain s' where st: "select_instance wsrep (a # is) k i0 s = select_instance wsrep is x a s'"
        using step True by auto
      have "fst (select_instance wsrep (a # is) k i0 s) = a"
        unfolding st Cons.IH [of x a s'] using no by simp
      with l ex show ?thesis by (simp only: if_True)
    next
      case False
      with none x have no: "\<not> (\<exists>j \<in> set (a # is). k \<le> ?f j)" by auto
      obtain s' where st: "select_instance wsrep (a # is) k i0 s = select_instance wsrep is k i0 s'"
        using step False by auto
      have "fst (select_instance wsrep (a # is) k i0 s) = i0"
        unfolding st Cons.IH [of k i0 s'] using no by auto
      with no show ?thesis by (simp only: if_False)
    qed
  qed
qed simp

lemma choose_instances_shape:
  assumes "choose_instances s = (Returned (Inr is), t)"
  shows "is = Instances (cl_config (fst s)) \<or> (\<exists>i. is = [i])"
  using assms by (auto simp: choose_instances_def Let_def split: if_splits prod.splits)

lemma Execute_Returned:
  assumes "Execute V s = (Returned r, t)"
  obtains (clean) e where "r = Some e" and "cleanTmpDirectories V s = (Some e, t)"
  | (choice) s1 e where "r = Some e" and "cleanTmpDirectories V s = (None, s1)"
      and "choose_instances s1 = (Returned (Inl e), t)"
  | (loop) s1 s2 "is" es where "cleanTmpDirectories V s = (None, s1)"
      and "choose_instances s1 = (Returned (Inr is), s2)" and "backup_loop V is [] s2 = (es, t)"
      and "r = (if length es = length is then Some (MultiError es) else None)"
proof -
  obtain e s1 where c: "cleanTmpDirectories V s = (e, s1)" by (metis surj_pair)
  obtain x s2 where ch: "choose_instances s1 = (x, s2)" by (metis surj_pair)
  show thesis
  proof (cases e)
    case (Some e')
    with c assms show thesis by (intro clean [of e']) (simp_all add: Execute_def)
  next
    case None
    show thesis
    proof (cases x)
      case (Returned y)
      show thesis
      proof (cases y)
        case (Inl e')
        with c ch None Returned assms show thesis by (intro choice [of e' s1]) (simp_all add: Execute_def)
      next
        case (Inr "is")
        obtain es v where l: "backup_loop V is [] s2 = (es, v)" by (metis surj_pair)
        show thesis
          by (rule loop [of s1 "is" s2 es]) (use c ch None Returned Inr l assms in \<open>simp_all add: Execute_def\<close>)
      qed
    qed (use c ch None assms in \<open>simp_all add: Execute_def\<close>)
  qed
qed

context download_service
begin

text \<open>What the result of a run says of the instances it chose.\<close>

lemma Execute_outcomes:
  assumes "Execute V s = (Returned r, t)" and "run_ok V (fst s)"
    and "list_all no_meta (resolve (TmpDir (cl_config (fst s))))" and "fs_plain (w_fs (snd s))"
    and "distinct (map UUID (Instances (cl_config (fst s))))"
    and "cleanTmpDirectories V s = (None, s1)" and "choose_instances s1 = (Returned (Inr is), s2)"
  shows "\<exists>outs. list_all2 (node_outcome V (fst s) (w_fs (snd t))) is outs
    \<and> r = (if None \<in> set outs then None else Some (MultiError (errors_of outs)))"
proof -
  obtain es t' where l: "backup_loop V is [] s2 = (es, t')" by (metis surj_pair)
  with assms(1,6,7) have r: "r = (if length es = length is then Some (MultiError es) else None)" "t' = t"
    by (auto simp: Execute_def)
  from kept_cleanTmp [OF assms(3,4), of V] assms(6) have f1: "fst s1 = fst s" by (simp add: kept_def)
  note ch = choose_instances_facts [OF assms(7)]
  have f2: "fst s2 = fst s" using ch(1) f1 by simp
  have sub: "set is \<subseteq> set (Instances (cl_config (fst s)))" using ch(3) f1 by auto
  have d: "distinct (map UUID is)"
    using choose_instances_shape [OF assms(7)] f1 assms(5) by auto
  from backup_loop_outcomes [OF l] assms(2) f2 sub d r(2) obtain outs where
    o: "list_all2 (node_outcome V (fst s) (w_fs (snd t))) is outs" "es = errors_of outs" by auto
  with r(1) list_all2_lengthD [OF o(1)] errors_of_all [of outs] show ?thesis by auto
qed

text \<open>Success of a run: one of the instances has its artifacts in place at the end.\<close>

lemma Execute_None:
  assumes "Execute V s = (Returned None, t)" and "run_ok V (fst s)"
    and "list_all no_meta (resolve (TmpDir (cl_config (fst s))))" and "fs_plain (w_fs (snd s))"
    and "distinct (map UUID (Instances (cl_config (fst s))))"
  shows "\<exists>i \<in> set (Instances (cl_config (fst s))). instance_ok src V (fst s) i (w_fs (snd t))"
  using assms(1)
proof (cases rule: Execute_Returned)
  case (loop s1 s2 "is" es)
  from Execute_outcomes [OF assms loop(1,2)] obtain outs where
    o: "list_all2 (node_outcome V (fst s) (w_fs (snd t))) is outs" "None \<in> set outs"
    by (auto split: if_splits)
  from kept_cleanTmp [OF assms(3,4), of V] loop(1) have f1: "fst s1 = fst s" by (simp add: kept_def)
  from o obtain k where k: "k < length is" "outs ! k = None" "node_outcome V (fst s) (w_fs (snd t)) (is ! k) (outs ! k)"
    by (metis in_set_conv_nth list_all2_conv_all_nth)
  then have "instance_ok src V (fst s) (is ! k) (w_fs (snd t))" by (simp add: node_outcome_def)
  moreover have "is ! k \<in> set (Instances (cl_config (fst s)))"
    using choose_instances_facts(3) [OF loop(2)] f1 k(1) by auto
  ultimately show ?thesis by blast
qed simp_all

end

end
