(* ===== verification/Client_Main.thy ===== *)
theory Client_Main
  imports Client_Backup
begin

text \<open>
  \<^verbatim>\<open>main.go\<close> of the client: reading the configuration, building the client from the real
  components, and running it. Every failure ends in \<^verbatim>\<open>logger.Fatal\<close>, which logs and panics.
\<close>

definition client_of ::
  "x509 \<Rightarrow> download_env \<Rightarrow> (tls_config option \<Rightarrow> request \<Rightarrow> go_error + http_response)
   \<Rightarrow> client_config \<Rightarrow> TarClient \<Rightarrow> client" where
  "client_of X D G cfg tarClient =
     NewClient cfg tarClient BackupPreparer_Command (DownloadBackup D cfg)
       (WsrepLocalIndex \<lparr>gac_GaleraAgentPort = GaleraAgentPort cfg,
          gac_TLSEnabled = Backend_Enabled (config_BackendTLS cfg), gac_HTTPClient = HTTPClient X cfg\<rparr> G)"

definition client_main ::
  "client_env \<Rightarrow> x509 \<Rightarrow> (string \<rightharpoonup> string) \<Rightarrow> (string \<Rightarrow> client_config \<Rightarrow> err \<times> client_config)
   \<Rightarrow> string \<Rightarrow> download_env \<Rightarrow> (tls_config option \<Rightarrow> request \<Rightarrow> go_error + http_response)
   \<Rightarrow> string list \<Rightarrow> world \<Rightarrow> unit run \<times> world" where
  "client_main V X getenv unmarshal goos D G osArgs w =
     (case NewConfig (ce_os V) X getenv unmarshal osArgs w of
        (OsExit n, w1) \<Rightarrow> (OsExit n, w1)
      | (Panicked e, w1) \<Rightarrow> (Panicked e, w1)
      | (Returned (Some e, cfg), w1) \<Rightarrow>
          (Panicked e, log_at FATAL (config_Logger cfg) ''Error parsing config file'' (Some e) [] w1)
      | (Returned (None, cfg), w1) \<Rightarrow>
          (case NewSystemTarClient goos of
             OsExit n \<Rightarrow> (OsExit n, w1)
           | Panicked e \<Rightarrow> (Panicked e, w1)
           | Returned tarClient \<Rightarrow>
               (case Execute V (client_of X D G cfg tarClient, w1) of
                  (OsExit n, c, w2) \<Rightarrow> (OsExit n, w2)
                | (Panicked e, c, w2) \<Rightarrow> (Panicked e, w2)
                | (Returned None, c, w2) \<Rightarrow> (Returned (), w2)
                | (Returned (Some e), c, w2) \<Rightarrow>
                    (Panicked e, log_at FATAL (config_Logger cfg)
                       ''All backups failed. Not able to generate a valid backup artifact. See error(s) below: %s''
                       (Some e) [] w2))))"

lemma client_of_simps [simp]:
  "cl_config (client_of X D G cfg t) = cfg" "cl_downloader (client_of X D G cfg t) = DownloadBackup D cfg"
  "cl_tarClient (client_of X D G cfg t) = t" "cl_backupPreparer (client_of X D G cfg t) = BackupPreparer_Command"
  "cl_encryptor (client_of X D G cfg t) = NewCryptKeeper (SymmetricKey cfg)"
  "cl_metadataFields (client_of X D G cfg t) = MetadataFields cfg"
  "dirs_ok (client_of X D G cfg t)"
  by (simp_all add: client_of_def NewClient_def dirs_ok_def)

end
