(* ===== verification/Backup_Handler.thy ===== *)
theory Backup_Handler
  imports Go_HTTP
begin

text \<open>
  \<^verbatim>\<open>api/backup_handler.go\<close> of the server: the handler of \<^verbatim>\<open>/backup\<close>. It checks the format,
  streams the backup into the response and reports a failure in a trailer, since the status
  has been sent by then.
\<close>

definition server_TrailerKey :: string where
  "server_TrailerKey = ''X-Backup-Error''"

record BackupHandler =
  BackupWriter :: "string \<Rightarrow> response_writer \<Rightarrow> err \<times> response_writer"
  bh_Logger :: logger

subsection \<open>The message for a wrong format\<close>

text \<open>
  \<^verbatim>\<open>json.Marshal\<close> of a string: quotes, control characters and HTML characters are escaped,
  bytes that are not UTF-8 are replaced.
\<close>

definition cont_byte :: "char \<Rightarrow> bool" where
  "cont_byte c \<longleftrightarrow> CHR 0x80 \<le> c \<and> c \<le> CHR 0xBF"

definition utf8_length :: "string \<Rightarrow> nat" where
  "utf8_length s =
     (case s of
        a # b # r \<Rightarrow>
          if CHR 0xC2 \<le> a \<and> a \<le> CHR 0xDF \<and> cont_byte b then 2
          else (case r of
            c # r' \<Rightarrow>
              if CHR 0xE0 \<le> a \<and> a \<le> CHR 0xEF \<and> cont_byte b \<and> cont_byte c
                 \<and> (a = CHR 0xE0 \<longrightarrow> CHR 0xA0 \<le> b) \<and> (a = CHR 0xED \<longrightarrow> b \<le> CHR 0x9F) then 3
              else (case r' of
                d # _ \<Rightarrow>
                  if CHR 0xF0 \<le> a \<and> a \<le> CHR 0xF4 \<and> cont_byte b \<and> cont_byte c \<and> cont_byte d
                     \<and> (a = CHR 0xF0 \<longrightarrow> CHR 0x90 \<le> b) \<and> (a = CHR 0xF4 \<longrightarrow> b \<le> CHR 0x8F) then 4 else 0
              | [] \<Rightarrow> 0)
          | [] \<Rightarrow> 0)
      | _ \<Rightarrow> 0)"

definition bsl :: char where "bsl = CHR 0x5C"

definition escape_ascii :: "char \<Rightarrow> string" where
  "escape_ascii c =
     (if c = CHR 0x22 \<or> c = bsl then [bsl, c]
      else if c = nl then [bsl, CHR ''n''] else if c = cr then [bsl, CHR ''r'']
      else if c = CHR 0x09 then [bsl, CHR ''t'']
      else if c = CHR 0x08 then [bsl, CHR ''b''] else if c = CHR 0x0C then [bsl, CHR ''f'']
      else if c < CHR 0x20 \<or> c = CHR ''<'' \<or> c = CHR ''>'' \<or> c = CHR ''&'' then
        [bsl, CHR ''u'', CHR ''0'', CHR ''0'', ''0123456789abcdef'' ! (of_char c div 16),
         ''0123456789abcdef'' ! (of_char c mod 16)]
      else [c])"

fun json_escape :: "nat \<Rightarrow> string \<Rightarrow> string" where
  "json_escape 0 s = []"
| "json_escape (Suc n) [] = []"
| "json_escape (Suc n) (c # r) =
     (if c < CHR 0x80 then escape_ascii c @ json_escape n r
      else let k = utf8_length (c # r); q = take k (c # r) in
        if k = 0 then bsl # ''ufffd'' @ json_escape n r
        else if q = [CHR 0xE2, CHR 0x80, CHR 0xA8] then bsl # ''u2028'' @ json_escape n (drop 3 (c # r))
        else if q = [CHR 0xE2, CHR 0x80, CHR 0xA9] then bsl # ''u2029'' @ json_escape n (drop 3 (c # r))
        else q @ json_escape n (drop k (c # r)))"

definition json_string :: "string \<Rightarrow> string" where
  "json_string s = [CHR 0x22] @ json_escape (length s) s @ [CHR 0x22]"

definition format_error_body :: "string \<Rightarrow> string" where
  "format_error_body f =
     ''{'' @ json_string ''error'' @ '':''
       @ json_string (''invalid backup format '' @ [CHR 0x27] @ f @ [CHR 0x27] @ '' requested'') @ ''}''"

subsection \<open>The handler\<close>

definition request_uri :: "url \<Rightarrow> string" where
  "request_uri u = url_path u @ (if url_query u = [] then [] else ''?'' @ url_query u)"

text \<open>The format of a request, if it is a valid one.\<close>

definition request_format :: "request \<Rightarrow> string option" where
  "request_format req =
     (let f = query_Get (url_query (rq_url req)) ''format''
      in if f = [] then Some ''tar''
         else if f = ''xbstream'' \<or> f = ''tar'' then Some f
         else None)"

definition invalid_format :: "BackupHandler \<Rightarrow> string \<Rightarrow> response_writer \<Rightarrow> response_writer" where
  "invalid_format b f w =
     (let w1 = rw_log (log_entry_of (bh_Logger b) INFO ''invalid request format'' None [(''format'', LStr f)]) w;
          w2 = rw_WriteHeader 400 w1
      in snd (rw_Write (format_error_body f) w2))"

definition stream_response :: "BackupHandler \<Rightarrow> string \<Rightarrow> request \<Rightarrow> response_writer \<Rightarrow> response_writer" where
  "stream_response b format req w =
     (let w1 = rw_log (log_entry_of (bh_Logger b) INFO ''Responding to request'' None
                 [(''url'', LStr (request_uri (rq_url req))), (''method'', LStr (rq_method req))]) w;
          w2 = rw_set_header ''Trailer'' server_TrailerKey w1;
          w3 = rw_set_header ''Content-Type'' (''application/octet-stream; format='' @ format) w2;
          (e, w4) = BackupWriter b format w3
      in case e of
           None \<Rightarrow> rw_set_header server_TrailerKey [] w4
         | Some x \<Rightarrow> rw_set_header server_TrailerKey (Error x)
             (rw_log (log_entry_of (bh_Logger b) ERROR ''streaming backup failed'' (Some x) []) w4))"

definition BackupHandler_ServeHTTP :: "BackupHandler \<Rightarrow> response_writer \<Rightarrow> request \<Rightarrow> response_writer" where
  "BackupHandler_ServeHTTP b w req =
     (case request_format req of
        None \<Rightarrow> invalid_format b (query_Get (url_query (rq_url req)) ''format'') w
      | Some format \<Rightarrow> stream_response b format req w)"

subsection \<open>The interface BackupWriter\<close>

text \<open>
  \<^verbatim>\<open>api.BackupWriter\<close>: what the handler relies on. A writer only writes: the header map stays,
  and the response is as after some writes of the body.
\<close>

locale backup_writer =
  fixes st :: "string \<Rightarrow> response_writer \<Rightarrow> err \<times> response_writer"
  assumes st_header: "rw_header (snd (st f w)) = rw_header w"
    and st_writes: "\<exists>cs l lg. rw_WriteHeader 200 (snd (st f w)) =
      (rw_WriteHeader 200 w)\<lparr>rw_body := rw_body w @ cs, rw_left := l, rw_logs := lg\<rparr>"
begin

lemma st_sent:
  "rw_declared (rw_WriteHeader 200 (snd (st f w))) = rw_declared (rw_WriteHeader 200 w)"
  "rw_code (rw_WriteHeader 200 (snd (st f w))) = rw_code (rw_WriteHeader 200 w)"
  "rw_sent (rw_WriteHeader 200 (snd (st f w))) = rw_sent (rw_WriteHeader 200 w)"
  using st_writes [of f w] by auto

end

lemma rw_WriteHeader_simps [simp]:
  "rw_header (rw_WriteHeader c w) = rw_header w" "rw_body (rw_WriteHeader c w) = rw_body w"
  "rw_left (rw_WriteHeader c w) = rw_left w" "rw_logs (rw_WriteHeader c w) = rw_logs w"
  "rw_wrote (rw_WriteHeader c w)"
  by (simp_all add: rw_WriteHeader_def)

lemma rw_WriteHeader_twice [simp]: "rw_WriteHeader c (rw_WriteHeader d w) = rw_WriteHeader d w"
  by (simp add: rw_WriteHeader_def [of c])

lemma rw_WriteHeader_wrote: "rw_wrote w \<Longrightarrow> rw_WriteHeader c w = w"
  by (simp add: rw_WriteHeader_def)

lemma server_TrailerKey_canonical: "CanonicalHeaderKey server_TrailerKey = server_TrailerKey"
  by (simp add: server_TrailerKey_def) code_simp

lemma trailer_header_keys:
  "CanonicalHeaderKey ''Trailer'' = ''Trailer''" "CanonicalHeaderKey ''Content-Type'' = ''Content-Type''"
  by code_simp+

lemma declared_trailer_key:
  "declared_trailers (header_Set ''Content-Type'' ct (header_Set ''Trailer'' server_TrailerKey h)) = [server_TrailerKey]"
proof -
  have "map_of (header_Set ''Content-Type'' ct (header_Set ''Trailer'' server_TrailerKey h)) ''Trailer''
      = Some [server_TrailerKey]"
    by (simp add: header_Set_def trailer_header_keys update_conv')
  moreover have "filter (\<lambda>k. k \<noteq> []) (concat (map (\<lambda>v. map (CanonicalHeaderKey \<circ> TrimSpace)
      (split_on CHR '','' v)) [server_TrailerKey])) = [server_TrailerKey]"
    by (simp add: server_TrailerKey_def) code_simp
  ultimately show ?thesis by (simp add: declared_trailers_def)
qed

subsection \<open>What the client receives\<close>

lemma rw_log_simps [simp]:
  "rw_header (rw_log e w) = rw_header w" "rw_body (rw_log e w) = rw_body w"
  "rw_wrote (rw_log e w) = rw_wrote w" "rw_code (rw_log e w) = rw_code w"
  "rw_declared (rw_log e w) = rw_declared w" "rw_left (rw_log e w) = rw_left w"
  "rw_sent (rw_log e w) = rw_sent w"
  by (simp_all add: rw_log_def)

lemma rw_set_header_simps [simp]:
  "rw_header (rw_set_header k v w) = header_Set k v (rw_header w)"
  "rw_body (rw_set_header k v w) = rw_body w" "rw_wrote (rw_set_header k v w) = rw_wrote w"
  "rw_code (rw_set_header k v w) = rw_code w" "rw_declared (rw_set_header k v w) = rw_declared w"
  "rw_left (rw_set_header k v w) = rw_left w"
  by (simp_all add: rw_set_header_def)

lemma new_writer_simps [simp]:
  "rw_header (new_writer l) = []" "rw_wrote (new_writer l) = False" "rw_body (new_writer l) = []"
  "rw_left (new_writer l) = l" "rw_logs (new_writer l) = []"
  by (simp_all add: new_writer_def)

text \<open>Setting the error trailer does not change which trailers are announced, nor the status.\<close>

lemma set_trailer_keeps:
  "rw_declared (rw_WriteHeader 200 (rw_set_header server_TrailerKey m w)) = rw_declared (rw_WriteHeader 200 w)"
  "rw_code (rw_WriteHeader 200 (rw_set_header server_TrailerKey m w)) = rw_code (rw_WriteHeader 200 w)"
proof -
  have "declared_trailers (header_Set server_TrailerKey m h) = declared_trailers h" for h
  proof -
    have "server_TrailerKey \<noteq> ''Trailer''" by (simp add: server_TrailerKey_def)
    then have "map_of (header_Set server_TrailerKey m h) ''Trailer'' = map_of h ''Trailer''"
      by (simp add: header_Set_def server_TrailerKey_canonical update_conv')
    then show ?thesis by (simp add: declared_trailers_def)
  qed
  then show "rw_declared (rw_WriteHeader 200 (rw_set_header server_TrailerKey m w)) = rw_declared (rw_WriteHeader 200 w)"
    "rw_code (rw_WriteHeader 200 (rw_set_header server_TrailerKey m w)) = rw_code (rw_WriteHeader 200 w)"
    by (simp_all add: rw_WriteHeader_def)
qed

lemma rw_log_ready:
  "rw_declared (rw_WriteHeader 200 (rw_log e w)) = rw_declared (rw_WriteHeader 200 w)"
  "rw_code (rw_WriteHeader 200 (rw_log e w)) = rw_code (rw_WriteHeader 200 w)"
  by (simp_all add: rw_WriteHeader_def)

text \<open>The message the trailer carries: empty for success.\<close>

definition trailer_message :: "err \<Rightarrow> string" where
  "trailer_message e = (case e of None \<Rightarrow> [] | Some x \<Rightarrow> Error x)"

definition streaming_writer :: "BackupHandler \<Rightarrow> string \<Rightarrow> request \<Rightarrow> response_writer \<Rightarrow> response_writer" where
  "streaming_writer b format req w =
     rw_set_header ''Content-Type'' (''application/octet-stream; format='' @ format)
       (rw_set_header ''Trailer'' server_TrailerKey
         (rw_log (log_entry_of (bh_Logger b) INFO ''Responding to request'' None
            [(''url'', LStr (request_uri (rq_url req))), (''method'', LStr (rq_method req))]) w))"

context backup_writer
begin

lemma stream_response_received:
  assumes "BackupWriter b = st" and "st format (streaming_writer b format req (new_writer l)) = (e, w4)"
  defines "rs \<equiv> finish_response (stream_response b format req (new_writer l))"
  shows "rs_code rs = 200" and "rs_body rs = \<lparr>rd_chunks = rw_body w4, rd_err = None\<rparr>"
    and "rs_trailer rs = [(server_TrailerKey, [wire_value (trailer_message e)])]"
proof -
  let ?w3 = "streaming_writer b format req (new_writer l)"
  define w5 where "w5 = (case e of None \<Rightarrow> w4
      | Some x \<Rightarrow> rw_log (log_entry_of (bh_Logger b) ERROR ''streaming backup failed'' (Some x) []) w4)"
  have sr: "stream_response b format req (new_writer l)
      = rw_set_header server_TrailerKey (trailer_message e) w5"
    using assms(1,2)
    by (simp add: stream_response_def streaming_writer_def Let_def w5_def trailer_message_def
        split: option.split)
  have "rw_declared (rw_WriteHeader 200 ?w3) = [server_TrailerKey]" "rw_code (rw_WriteHeader 200 ?w3) = 200"
    by (simp_all add: streaming_writer_def rw_WriteHeader_def declared_trailer_key)
  with st_sent [of format ?w3] assms(2)
  have w4: "rw_declared (rw_WriteHeader 200 w4) = [server_TrailerKey]" "rw_code (rw_WriteHeader 200 w4) = 200"
    by simp_all
  then have w5: "rw_declared (rw_WriteHeader 200 w5) = [server_TrailerKey]" "rw_code (rw_WriteHeader 200 w5) = 200"
    "rw_body w5 = rw_body w4"
    by (simp_all add: w5_def rw_log_ready split: option.split)
  show "rs_code rs = 200" "rs_body rs = \<lparr>rd_chunks = rw_body w4, rd_err = None\<rparr>"
    using w5 by (simp_all add: rs_def sr finish_response_def set_trailer_keeps Let_def)
  have "map_of (header_Set server_TrailerKey m h) server_TrailerKey = Some [m]" for m h
    by (simp add: header_Set_def server_TrailerKey_canonical update_conv')
  then show "rs_trailer rs = [(server_TrailerKey, [wire_value (trailer_message e)])]"
    using w5 by (simp add: rs_def sr finish_response_def set_trailer_keeps Let_def)
qed

end

end
