(* ===== verification/Xtra_Backup.thy ===== *)
theory Xtra_Backup
  imports Backup_Handler
begin

text \<open>
  \<^verbatim>\<open>xtrabackup/xtrabackup.go\<close> of the server: running xtrabackup with its standard output
  going to the response and its standard error to the log.
\<close>

record xtra_Writer =
  DefaultsFile :: string
  xw_TmpDir :: string
  xw_Logger :: logger

text \<open>\<^verbatim>\<open>LoggerWriter.Write\<close>.\<close>

definition LoggerWriter_Write :: "logger \<Rightarrow> string \<Rightarrow> response_writer \<Rightarrow> nat \<times> response_writer" where
  "LoggerWriter_Write lg p w =
     (length p, rw_log (log_entry_of lg ERROR ''xtrabackup'' (Some (ErrorString p)) []) w)"

definition xtrabackup_cmd :: "xtra_Writer \<Rightarrow> string \<Rightarrow> cmd" where
  "xtrabackup_cmd x format =
     exec_Command ''xtrabackup''
       [''--defaults-file='' @ DefaultsFile x, ''--backup'', ''--stream='' @ format,
        ''--target-dir='' @ xw_TmpDir x]"

text \<open>\<^verbatim>\<open>StreamTo\<close>, on a file system for the child; what it logs comes after what it writes.\<close>

definition StreamTo ::
  "programs \<Rightarrow> fs \<Rightarrow> xtra_Writer \<Rightarrow> string \<Rightarrow> response_writer \<Rightarrow> err \<times> response_writer" where
  "StreamTo P fs x format w =
     (let oc = P (xtrabackup_cmd x format) [] fs;
          (e, w1) = cmd_Run oc rw_Write w
      in (e, if oc_start oc = None
             then fold (\<lambda>p w. snd (LoggerWriter_Write (xw_Logger x) p w)) (oc_stderr oc) w1
             else w1))"

subsection \<open>Laws\<close>

lemma rw_Write_writes:
  "rw_header (snd (rw_Write c w)) = rw_header w"
  "\<exists>cs l. rw_WriteHeader 200 (snd (rw_Write c w))
      = (rw_WriteHeader 200 w)\<lparr>rw_body := rw_body w @ cs, rw_left := l\<rparr>"
proof -
  show "rw_header (snd (rw_Write c w)) = rw_header w"
    by (simp add: rw_Write_def Let_def split: option.split nat.split)
  consider "rw_left w = None" | "rw_left w = Some 0" | n where "rw_left w = Some (Suc n)"
    by (metis not0_implies_Suc option.exhaust)
  then show "\<exists>cs l. rw_WriteHeader 200 (snd (rw_Write c w))
      = (rw_WriteHeader 200 w)\<lparr>rw_body := rw_body w @ cs, rw_left := l\<rparr>"
  proof cases
    case 1
    then show ?thesis
      by (intro exI [of _ "[c]"] exI [of _ None]) (simp add: rw_Write_def rw_WriteHeader_wrote)
  next
    case 2
    then show ?thesis
      by (intro exI [of _ "[]"] exI [of _ "Some 0"]) (simp add: rw_Write_def rw_WriteHeader_wrote)
  next
    case 3
    then show ?thesis
      by (intro exI [of _ "[c]"] exI [of _ "Some n"]) (simp add: rw_Write_def rw_WriteHeader_wrote)
  qed
qed

text \<open>What a step keeps if it only writes and logs.\<close>

definition only_writes :: "response_writer \<Rightarrow> response_writer \<Rightarrow> bool" where
  "only_writes w w' \<longleftrightarrow> rw_header w' = rw_header w \<and>
     (\<exists>cs l lg. rw_WriteHeader 200 w' = (rw_WriteHeader 200 w)\<lparr>rw_body := rw_body w @ cs, rw_left := l, rw_logs := lg\<rparr>)"

lemma only_writes_refl: "only_writes w w"
  unfolding only_writes_def
  by (intro conjI refl exI [of _ "[]"] exI [of _ "rw_left w"] exI [of _ "rw_logs w"])
    (simp add: rw_WriteHeader_def)

lemma only_writes_trans:
  assumes "only_writes u v" and "only_writes v w"
  shows "only_writes u w"
proof -
  from assms obtain cs l lg cs' l' lg' where
    v: "rw_WriteHeader 200 v = (rw_WriteHeader 200 u)\<lparr>rw_body := rw_body u @ cs, rw_left := l, rw_logs := lg\<rparr>"
    and w: "rw_WriteHeader 200 w = (rw_WriteHeader 200 v)\<lparr>rw_body := rw_body v @ cs', rw_left := l', rw_logs := lg'\<rparr>"
    and h: "rw_header v = rw_header u" "rw_header w = rw_header v"
    unfolding only_writes_def by blast
  from v have "rw_body (rw_WriteHeader 200 v) = rw_body u @ cs" by simp
  then have "rw_body v = rw_body u @ cs" by simp
  with v w have "rw_WriteHeader 200 w
      = (rw_WriteHeader 200 u)\<lparr>rw_body := rw_body u @ (cs @ cs'), rw_left := l', rw_logs := lg'\<rparr>"
    by simp
  with h show ?thesis unfolding only_writes_def by auto
qed

lemma only_writes_Write: "only_writes w (snd (rw_Write c w))"
proof -
  from rw_Write_writes(2) [of c w] obtain cs l where
    "rw_WriteHeader 200 (snd (rw_Write c w)) = (rw_WriteHeader 200 w)\<lparr>rw_body := rw_body w @ cs, rw_left := l\<rparr>"
    by blast
  then have "rw_WriteHeader 200 (snd (rw_Write c w))
      = (rw_WriteHeader 200 w)\<lparr>rw_body := rw_body w @ cs, rw_left := l, rw_logs := rw_logs w\<rparr>"
    by (simp add: rw_WriteHeader_def)
  with rw_Write_writes(1) [of c w] show ?thesis unfolding only_writes_def by blast
qed

lemma only_writes_log: "only_writes w (rw_log e w)"
  unfolding only_writes_def rw_log_def
  by (intro conjI exI [of _ "[]"] exI [of _ "rw_left w"] exI [of _ "rw_logs w @ [e]"])
    (simp_all add: rw_WriteHeader_def)

lemma only_writes_Run: "only_writes w (snd (cmd_Run oc rw_Write w))"
proof -
  have "only_writes w (snd (run_steps (map rw_Write cs) w))" for cs
    by (rule run_steps_rel [where R = only_writes])
      (auto intro: only_writes_refl only_writes_Write only_writes_trans)
  then show ?thesis
    by (auto simp: cmd_Run_def only_writes_refl split: option.split prod.split)
      (metis snd_conv)+
qed

lemma only_writes_stderr:
  "only_writes w (fold (\<lambda>p w. snd (LoggerWriter_Write lg p w)) ps w)"
proof (induction ps arbitrary: w)
  case (Cons p ps)
  have "only_writes w (snd (LoggerWriter_Write lg p w))"
    by (simp add: LoggerWriter_Write_def only_writes_log)
  from only_writes_trans [OF this Cons.IH] show ?case by simp
qed (simp add: only_writes_refl)

lemma only_writes_StreamTo: "only_writes w (snd (StreamTo P fs x f w))"
proof -
  obtain e w1 where r: "cmd_Run (P (xtrabackup_cmd x f) [] fs) rw_Write w = (e, w1)" by (metis surj_pair)
  from only_writes_Run [of w "P (xtrabackup_cmd x f) [] fs"] r have "only_writes w w1" by simp
  with only_writes_trans [OF this only_writes_stderr] r show ?thesis
    by (simp add: StreamTo_def Let_def)
qed

interpretation xtra: backup_writer "StreamTo P fs x"
  using only_writes_StreamTo [of _ P fs x] by unfold_locales (auto simp: only_writes_def)

end
