(* ===== verification/Basic_Auth.thy ===== *)
theory Basic_Auth
  imports Go_HTTP "HOL-Library.Word"
begin

text \<open>
  \<^verbatim>\<open>middleware/basic_auth.go\<close> of the server: a handler that lets a request through only with
  the right user name and password, which are compared in constant time.
\<close>

unbundle bit_operations_syntax

type_synonym handler = "response_writer \<Rightarrow> request \<Rightarrow> response_writer"

definition byte :: "char \<Rightarrow> 8 word" where
  "byte c = word_of_nat (of_char c)"

text \<open>\<^verbatim>\<open>subtle.ConstantTimeCompare\<close>: the differences of all bytes are gathered.\<close>

definition ConstantTimeCompare :: "string \<Rightarrow> string \<Rightarrow> int" where
  "ConstantTimeCompare x y =
     (if length x \<noteq> length y then 0
      else if fold (\<lambda>(a, b) v. v OR (byte a XOR byte b)) (zip x y) 0 = 0 then 1 else 0)"

definition secureCompare :: "string \<Rightarrow> string \<Rightarrow> bool" where
  "secureCompare v1 v2 \<longleftrightarrow> ConstantTimeCompare v1 v2 = 1"

definition unauthorized :: "response_writer \<Rightarrow> response_writer" where
  "unauthorized rw =
     http_Error ''Not Authorized'' 401
       (rw_set_header ''WWW-Authenticate''
         (''Basic realm='' @ [CHR 0x22] @ ''Authorization Required'' @ [CHR 0x22]) rw)"

definition BasicAuth :: "handler \<Rightarrow> string \<Rightarrow> string \<Rightarrow> handler" where
  "BasicAuth nxt requiredUsername requiredPassword rw req =
     (case BasicAuth_of req of
        Some (username, password) \<Rightarrow>
          if secureCompare username requiredUsername \<and> secureCompare password requiredPassword
          then nxt rw req else unauthorized rw
      | None \<Rightarrow> unauthorized rw)"

subsection \<open>The comparison\<close>

lemma byte_inj: "byte a = byte b \<longleftrightarrow> a = b"
proof
  assume "byte a = byte b"
  then have "unat (byte a) = unat (byte b)" by simp
  moreover have "of_char c < (256 :: nat)" for c by (rule nat_of_char_less_256)
  ultimately have "(of_char a :: nat) = of_char b"
    by (simp add: byte_def unat_of_nat take_bit_eq_mod)
  then show "a = b" by simp
qed simp

lemma gather_zero:
  "fold (\<lambda>(a, b) v. v OR (byte a XOR byte b)) ps v = 0 \<longleftrightarrow> v = 0 \<and> (\<forall>(a, b) \<in> set ps. a = b)"
proof (induction ps arbitrary: v)
  case (Cons p ps)
  obtain a b where p: "p = (a, b)" by fastforce
  have "v OR (byte a XOR byte b) = 0 \<longleftrightarrow> v = 0 \<and> byte a XOR byte b = 0"
    by (rule or_eq_0_iff)
  moreover have "byte a XOR byte b = 0 \<longleftrightarrow> a = b"
    unfolding byte_inj [symmetric] by (auto simp: bit_eq_iff bit_xor_iff)
  ultimately show ?case using Cons.IH p by auto
qed simp

lemma secureCompare_eq [simp]: "secureCompare v1 v2 \<longleftrightarrow> v1 = v2"
proof (cases "length v1 = length v2")
  case True
  then have "(\<forall>(a, b) \<in> set (zip v1 v2). a = b) \<longleftrightarrow> v1 = v2"
    by (induction v1 v2 rule: list_induct2) auto
  with True show ?thesis by (auto simp: secureCompare_def ConstantTimeCompare_def gather_zero)
next
  case False
  then show ?thesis by (auto simp: secureCompare_def ConstantTimeCompare_def)
qed

end
