(* ===== verification/Server_Config.thy ===== *)
theory Server_Config
  imports Tls_Config Service_Config
begin

text \<open>
  \<^verbatim>\<open>config/config.go\<close> of the server: its configuration record (with the level of the logger's
  sink), the TLS settings with the check
  of client certificates, and how the configuration is read.
\<close>

record XtraBackup =
  xb_DefaultsFile :: string
  xb_TmpDir :: string

record server_Credentials =
  srv_Username :: string
  srv_Password :: string

record server_TLSConfig =
  srv_EnableMutualTLS :: bool
  RequiredClientIdentities :: "string list"
  ServerCert :: string
  ServerKey :: string
  ClientCA :: string
  srv_TLS_Config :: "tls_config option"

record server_config =
  BindAddress :: string
  PidFile :: string
  srv_Credentials :: server_Credentials
  srv_TLS :: server_TLSConfig
  srv_Logger :: logger
  srv_stdout_level :: log_level
  srv_XtraBackup :: XtraBackup

definition zero_server_config :: server_config where
  "zero_server_config = \<lparr>BindAddress = [], PidFile = [],
     srv_Credentials = \<lparr>srv_Username = [], srv_Password = []\<rparr>,
     srv_TLS = \<lparr>srv_EnableMutualTLS = False, RequiredClientIdentities = [], ServerCert = [],
       ServerKey = [], ClientCA = [], srv_TLS_Config = None\<rparr>,
     srv_Logger = NewLogger [], srv_stdout_level = INFO,
     srv_XtraBackup = \<lparr>xb_DefaultsFile = [], xb_TmpDir = []\<rparr>\<rparr>"

definition ErrIdentity :: go_error where
  "ErrIdentity = ErrorString ''invalid client identity in presented client certificate''"

text \<open>
  \<^verbatim>\<open>verifyPeerCertificate\<close>: the leaf of the verified chain must be valid for one of the names.
  \<open>VerifyPeer\<close> of a TLS configuration holds the names when the callback is installed.
\<close>

fun verifyPeerCertificate :: "x509 \<Rightarrow> string list \<Rightarrow> string list \<Rightarrow> string \<Rightarrow> err" where
  "verifyPeerCertificate X roots [] leaf = Some ErrIdentity"
| "verifyPeerCertificate X roots (name # names) leaf =
     (if x_verify X leaf roots name then None else verifyPeerCertificate X roots names leaf)"

definition server_unmarshalTLSConfig :: "x509 \<Rightarrow> server_TLSConfig \<Rightarrow> err \<times> server_TLSConfig" where
  "server_unmarshalTLSConfig X t =
     (case x_keypair X (ServerCert t) (ServerKey t) of
        Inl e \<Rightarrow> (Some (WithStack (WithMessage ''failed to load server certificate or private key'' e)), t)
      | Inr serverCert \<Rightarrow>
          (let pool = x_append X (ClientCA t)
           in if srv_EnableMutualTLS t \<and> pool = []
              then (Some (WithStack (ErrorString ''unable to load client CA certificate'')), t)
              else case build_tls [WithInternalServiceDefaults, WithIdentity X serverCert]
                     (if srv_EnableMutualTLS t then [WithClientAuthentication pool] else []) of
                Inl e \<Rightarrow> (Some (WithStack (WithMessage ''failed to build server TLS certConfig'' e)), t)
              | Inr c \<Rightarrow>
                  (None, t\<lparr>srv_TLS_Config := Some (c\<lparr>VerifyPeer :=
                     (if srv_EnableMutualTLS t then Some (RequiredClientIdentities t) else None)\<rparr>)\<rparr>)))"

text \<open>
  What a TLS handshake asks of the client's certificate: \<open>None\<close> is no certificate; the
  standard library verifies the chain against the client CAs before it calls the callback.
\<close>

definition client_cert_accepted :: "x509 \<Rightarrow> (string \<Rightarrow> string list \<Rightarrow> bool) \<Rightarrow> tls_config \<Rightarrow> string option \<Rightarrow> bool" where
  "client_cert_accepted X chain_ok c cert =
     (case cert of
        None \<Rightarrow> \<not> RequireClientCert c
      | Some leaf \<Rightarrow>
          (\<not> RequireClientCert c \<or> chain_ok leaf (case ClientCAs c of None \<Rightarrow> [] | Some p \<Rightarrow> p))
          \<and> (case VerifyPeer c of
               None \<Rightarrow> True
             | Some names \<Rightarrow>
                 verifyPeerCertificate X (case ClientCAs c of None \<Rightarrow> [] | Some p \<Rightarrow> p) names leaf = None))"

text \<open>\<^verbatim>\<open>NewConfig\<close>: the default address is filled in when the text gives none.\<close>

definition default_address :: string where
  "default_address = ''localhost:8081''"

definition merge_defaults :: "server_config \<Rightarrow> server_config" where
  "merge_defaults c = (if BindAddress c = [] then c\<lparr>BindAddress := default_address\<rparr> else c)"

definition server_flags :: "string \<rightharpoonup> flag_kind" where
  "server_flags = service_flags ++ lager_flags"

text \<open>
  \<^verbatim>\<open>lagerflags.New\<close> panics on a level it does not know; the level is the one of the parsed flags.
\<close>

definition server_NewConfig ::
  "os_env \<Rightarrow> x509 \<Rightarrow> (string \<rightharpoonup> string) \<Rightarrow> (string \<Rightarrow> server_config \<Rightarrow> err \<times> server_config)
   \<Rightarrow> string list \<Rightarrow> world \<Rightarrow> (err \<times> server_config) run \<times> world" where
  "server_NewConfig E X getenv unmarshal osArgs w =
     (case osArgs of
        [] \<Rightarrow> (Panicked index_out_of_range, w)
      | binaryName # configurationOptions \<Rightarrow>
          (case flag_Parse server_flags configurationOptions of
             Inl code \<Rightarrow> (OsExit code, w)
           | Inr fvs \<Rightarrow>
               (case service_Read E getenv unmarshal merge_defaults fvs zero_server_config w of
                  (err, c0, w1) \<Rightarrow>
                    (case lager_level (flag_value fvs ''logLevel'' ''info'') of
                       None \<Rightarrow> (Panicked (unknown_log_level (flag_value fvs ''logLevel'' ''info'')), w1)
                     | Some lvl \<Rightarrow>
                         (let c = c0\<lparr>srv_Logger := NewLogger binaryName, srv_stdout_level := lvl\<rparr>
                          in case err of
                               Some e \<Rightarrow> (Returned (Some e, c), w1)
                             | None \<Rightarrow>
                                 (case server_unmarshalTLSConfig X (srv_TLS c) of
                                    (e, t) \<Rightarrow> (Returned (e, c\<lparr>srv_TLS := t\<rparr>), w1)))))))"

subsection \<open>Facts\<close>

lemma verifyPeer_None_iff:
  "verifyPeerCertificate X roots names leaf = None \<longleftrightarrow> list_ex (x_verify X leaf roots) names"
  by (induction names) auto

lemma server_tls_None:
  assumes "server_unmarshalTLSConfig X t = (None, t')"
  obtains c cert where "srv_TLS_Config t' = Some c" and "t' = t\<lparr>srv_TLS_Config := Some c\<rparr>"
    and "x_keypair X (ServerCert t) (ServerKey t) = Inr cert" and "Certificates c = [cert]"
    and "MinVersion c = VersionTLS12" and "MaxVersion c = VersionTLS13"
    and "RequireClientCert c = srv_EnableMutualTLS t"
    and "srv_EnableMutualTLS t \<Longrightarrow> ClientCAs c = Some (x_append X (ClientCA t)) \<and> x_append X (ClientCA t) \<noteq> []"
    and "VerifyPeer c = (if srv_EnableMutualTLS t then Some (RequiredClientIdentities t) else None)"
  using assms
  by (auto simp: server_unmarshalTLSConfig_def tls_option_defs empty_tls_def Let_def
      split: if_splits sum.splits option.splits)

end
