(* ===== verification/Server_Main.thy ===== *)
theory Server_Main
  imports Xtra_Backup Basic_Auth Server_Config
begin

text \<open>
  \<^verbatim>\<open>main.go\<close> of the server: the start-up, and the handler it serves: \<^verbatim>\<open>/backup\<close> behind basic
  authentication, unless clients authenticate with certificates.
\<close>

subsection \<open>The handler\<close>

definition backup_handler :: "programs \<Rightarrow> fs \<Rightarrow> server_config \<Rightarrow> handler" where
  "backup_handler P fs cfg =
     (let x = \<lparr>DefaultsFile = xb_DefaultsFile (srv_XtraBackup cfg),
               xw_TmpDir = xb_TmpDir (srv_XtraBackup cfg), xw_Logger = srv_Logger cfg\<rparr>;
          h = BackupHandler_ServeHTTP \<lparr>BackupWriter = StreamTo P fs x, bh_Logger = srv_Logger cfg\<rparr>
      in if \<not> srv_EnableMutualTLS (srv_TLS cfg)
         then BasicAuth h (srv_Username (srv_Credentials cfg)) (srv_Password (srv_Credentials cfg))
         else h)"

text \<open>
  \<^verbatim>\<open>http.ServeMux\<close> with the one pattern \<^verbatim>\<open>/backup\<close>: a path that is not clean is redirected,
  another one is not found.
\<close>

definition cleanPath :: "string \<Rightarrow> string" where
  "cleanPath p0 =
     (if p0 = [] then ''/''
      else let p = (if hd p0 = CHR ''/'' then p0 else ''/'' @ p0); np = path_Clean p
        in if last p = CHR ''/'' \<and> np \<noteq> ''/'' then np @ ''/'' else np)"

definition html_escape :: "string \<Rightarrow> string" where
  "html_escape s = concat (map (\<lambda>c.
     if c = CHR ''&'' then ''&amp;'' else if c = CHR ''<'' then ''&lt;''
     else if c = CHR ''>'' then ''&gt;'' else if c = CHR 0x22 then ''&#34;''
     else if c = CHR 0x27 then ''&#39;'' else [c]) s)"

definition redirect_to :: "string \<Rightarrow> handler" where
  "redirect_to target w req =
     (let w1 = rw_set_header ''Location'' target w;
          get = (rq_method req = ''GET''); head = (rq_method req = ''HEAD'');
          w2 = (if get \<or> head then rw_set_header ''Content-Type'' ''text/html; charset=utf-8'' w1 else w1);
          w3 = rw_WriteHeader 301 w2
      in if get then snd (rw_Write (''<a href='' @ [CHR 0x22] @ html_escape target @ [CHR 0x22]
                        @ ''>Moved Permanently</a>.'' @ [nl, nl]) w3)
         else w3)"

definition mux_ServeHTTP :: "handler \<Rightarrow> handler" where
  "mux_ServeHTTP h w req =
     (let p = url_path (rq_url req)
      in if rq_method req \<noteq> ''CONNECT'' \<and> cleanPath p \<noteq> p
         then redirect_to (cleanPath p @ (if url_query (rq_url req) = [] then []
                                          else ''?'' @ url_query (rq_url req))) w req
         else if p = ''/backup'' then h w req
         else http_Error ''404 page not found'' 404 w)"

definition server_handler :: "programs \<Rightarrow> fs \<Rightarrow> server_config \<Rightarrow> handler" where
  "server_handler P fs cfg = mux_ServeHTTP (backup_handler P fs cfg)"

text \<open>What the client receives for a request, when the connection takes \<open>l\<close> writes.\<close>

definition server_response :: "programs \<Rightarrow> fs \<Rightarrow> server_config \<Rightarrow> nat option \<Rightarrow> request \<Rightarrow> http_response" where
  "server_response P fs cfg l req = finish_response (server_handler P fs cfg (new_writer l) req)"

subsection \<open>Start-up\<close>

text \<open>\<^verbatim>\<open>logger.Fatal\<close> logs and panics with the error.\<close>

definition log_fatal ::
  "logger \<Rightarrow> string \<Rightarrow> go_error \<Rightarrow> (string \<times> log_value) list \<Rightarrow> world \<Rightarrow> 'a run \<times> world" where
  "log_fatal lg action e data w = (Panicked e, log_at FATAL lg action (Some e) data w)"

text \<open>\<^verbatim>\<open>os.WriteFile\<close>, whose error the program drops.\<close>

definition os_WriteFile :: "os_env \<Rightarrow> string \<Rightarrow> string \<Rightarrow> world \<Rightarrow> err \<times> world" where
  "os_WriteFile E p s w =
     (case os_Create E p w of
        (Some e, w1) \<Rightarrow> (Some e, w1)
      | (None, w1) \<Rightarrow> os_Write E p s w1)"

text \<open>
  \<^verbatim>\<open>main\<close> up to the listening: the configuration it serves, or how it ended. \<open>dump\<close> is the
  JSON text of the configuration that a failure to read it puts into the log.
\<close>

definition server_start ::
  "os_env \<Rightarrow> x509 \<Rightarrow> (string \<rightharpoonup> string) \<Rightarrow> (string \<Rightarrow> server_config \<Rightarrow> err \<times> server_config)
   \<Rightarrow> (server_config \<Rightarrow> string) \<Rightarrow> nat \<Rightarrow> string list \<Rightarrow> world \<Rightarrow> server_config run \<times> world" where
  "server_start E X getenv unmarshal dump pid osArgs w =
     (case server_NewConfig E X getenv unmarshal osArgs w of
        (OsExit n, w1) \<Rightarrow> (OsExit n, w1)
      | (Panicked e, w1) \<Rightarrow> (Panicked e, w1)
      | (Returned (Some e, c), w1) \<Rightarrow>
          log_fatal (srv_Logger c) ''Failed to read config'' e [(''config'', LStr (dump c))] w1
      | (Returned (None, c), w1) \<Rightarrow>
          (case os_Create E (PidFile c) w1 of
             (Some e, w2) \<Rightarrow> log_fatal (srv_Logger c) ''Failed to create a file'' e [] w2
           | (None, w2) \<Rightarrow>
               (Returned c, log_at INFO (srv_Logger c) ''Starting server with configuration'' None
                  [(''address'', LStr (BindAddress c))]
                  (snd (os_WriteFile E (PidFile c) (nat_decimal pid) w2)))))"

text \<open>
  The whole of \<^verbatim>\<open>main\<close>. What listening does is a parameter: \<open>listen srv\<close> is the error with which
  \<^verbatim>\<open>ListenAndServeTLS\<close> returns, or \<open>None\<close> when it goes on serving; then \<^verbatim>\<open>main\<close> does not return.
\<close>

record http_server =
  hs_Addr :: string
  hs_Handler :: handler
  hs_TLSConfig :: "tls_config option"

definition http_server_of :: "programs \<Rightarrow> fs \<Rightarrow> server_config \<Rightarrow> http_server" where
  "http_server_of P fs c =
     \<lparr>hs_Addr = BindAddress c, hs_Handler = server_handler P fs c, hs_TLSConfig = srv_TLS_Config (srv_TLS c)\<rparr>"

definition server_main ::
  "os_env \<Rightarrow> x509 \<Rightarrow> (string \<rightharpoonup> string) \<Rightarrow> (string \<Rightarrow> server_config \<Rightarrow> err \<times> server_config)
   \<Rightarrow> (server_config \<Rightarrow> string) \<Rightarrow> nat \<Rightarrow> programs \<Rightarrow> (http_server \<Rightarrow> err) \<Rightarrow> string list \<Rightarrow> world
   \<Rightarrow> (unit run \<times> world) option" where
  "server_main E X getenv unmarshal dump pid P listen osArgs w =
     (case server_start E X getenv unmarshal dump pid osArgs w of
        (OsExit n, w1) \<Rightarrow> Some (OsExit n, w1)
      | (Panicked e, w1) \<Rightarrow> Some (Panicked e, w1)
      | (Returned c, w1) \<Rightarrow>
          (case listen (http_server_of P (w_fs w1) c) of
             None \<Rightarrow> None
           | Some e \<Rightarrow> Some (log_fatal (srv_Logger c) ''Streaming backup tool has exited with an error'' e [] w1)))"

subsection \<open>Facts\<close>

lemma cleanPath_backup: "cleanPath ''/backup'' = ''/backup''"
  by code_simp

lemma server_handler_backup:
  "url_path (rq_url req) = ''/backup'' \<Longrightarrow> server_handler P fs cfg w req = backup_handler P fs cfg w req"
  unfolding server_handler_def mux_ServeHTTP_def Let_def by (simp only: cleanPath_backup) simp

definition xtra_of :: "server_config \<Rightarrow> xtra_Writer" where
  "xtra_of cfg = \<lparr>DefaultsFile = xb_DefaultsFile (srv_XtraBackup cfg),
     xw_TmpDir = xb_TmpDir (srv_XtraBackup cfg), xw_Logger = srv_Logger cfg\<rparr>"

definition handler_of :: "programs \<Rightarrow> fs \<Rightarrow> server_config \<Rightarrow> BackupHandler" where
  "handler_of P fs cfg = \<lparr>BackupWriter = StreamTo P fs (xtra_of cfg), bh_Logger = srv_Logger cfg\<rparr>"

lemma backup_handler_open:
  "backup_handler P fs cfg =
     (if srv_EnableMutualTLS (srv_TLS cfg) then BackupHandler_ServeHTTP (handler_of P fs cfg)
      else BasicAuth (BackupHandler_ServeHTTP (handler_of P fs cfg))
             (srv_Username (srv_Credentials cfg)) (srv_Password (srv_Credentials cfg)))"
  by (simp add: backup_handler_def handler_of_def xtra_of_def Let_def)

lemma unauthorized_response:
  "rs_code (finish_response (unauthorized (new_writer l))) = 401"
  by (cases l rule: option.exhaust; (cases "the l")?)
    (simp_all add: unauthorized_def http_Error_def rw_Write_def finish_response_def Let_def
      rw_WriteHeader_def split: nat.split option.split)

end
