(* ===== verification/Sample.thy ===== *)
theory Sample
  imports Client_Main Server_Main
begin

text \<open>
  A small concrete environment on which the properties are exercised: an encryption that
  puts the passphrase in front, programs that unpack one file, and a configuration with
  two instances.
\<close>

definition sample_pgp :: openpgp where
  "sample_pgp =
     \<lparr>pgp_init = (\<lambda>k. ([k], None)), pgp_write = (\<lambda>k h c. [c]), pgp_close = (\<lambda>k h. [''!'']),
      pgp_packets = (\<lambda>t. ([SymKeyPacket [], EncryptedPacket t], ErrUnexpectedEOF)),
      pgp_symkey = (\<lambda>s pass. Inr pass),
      pgp_open = (\<lambda>c k. if HasPrefix c k then Inr (drop (length k) c) else Inl ErrKeyIncorrect),
      pgp_body = (\<lambda>d. Inr \<lparr>rd_chunks = [butlast d], rd_err = (if last d = CHR ''!'' then None
                        else Some ErrUnexpectedEOF)\<rparr>)\<rparr>"

lemma sample_pieces: "write_pieces sample_pgp k h cs = cs"
  by (induction cs arbitrary: h) (simp_all add: sample_pgp_def)

lemma sample_message: "message_text sample_pgp k cs = k @ concat cs @ ''!''"
  by (simp add: message_text_def message_head_def sample_pieces) (simp add: sample_pgp_def)

lemma sample_pgp_lawful: "pgp_lawful sample_pgp k"
  unfolding pgp_lawful_def sample_message
  by (intro allI exI [of _ "[]"] exI [of _ "k @ concat cs @ ''!''" for cs]
      exI [of _ "\<lparr>rd_chunks = [concat cs], rd_err = None\<rparr>" for cs] exI [of _ k]
      exI [of _ "concat cs @ ''!''" for cs] exI [of _ ErrUnexpectedEOF])
    (simp add: sample_pgp_def rd_data_def HasPrefix_def)

definition exits :: "nat \<Rightarrow> string list \<Rightarrow> fs \<Rightarrow> outcome" where
  "exits n out fs = \<lparr>oc_start = None, oc_out = out, oc_combined = concat out, oc_stderr = [],
     oc_takes = 9, oc_exit = Exited n, oc_exit_pipe = Exited 1, oc_fs = fs\<rparr>"

text \<open>xbstream stores its input, tar delivers the file it finds.\<close>

definition sample_programs :: programs where
  "sample_programs c input fs =
     (if cmd_name c = ''xbstream'' then
        (exits 0 [] (fs_put (resolve (last (cmd_args c)) @ [''xtrabackup_info'']) (File 420 (concat input)) fs))
          \<lparr>oc_takes := length input\<rparr>
      else if cmd_name c = ''xtrabackup'' \<and> hd (cmd_args c) = ''--prepare'' then exits 0 [] fs
      else if cmd_name c = ''xtrabackup'' then exits 0 [''tool = x'', [nl]] fs
      else if cmd_name c = ''tar'' then exits 0 [file_text fs (resolve (cmd_args c ! 3) @ [''xtrabackup_info''])] fs
      else exits 1 [] fs)"

definition sample_os :: os_env where
  "sample_os = \<lparr>os_fault = (\<lambda>_. None), os_partial = (\<lambda>_. 0), os_survives = (\<lambda>_ _. False),
     os_rand = (\<lambda>n. n), os_now = (\<lambda>n. 5), os_tmp = ''/tmp''\<rparr>"

definition sample_env :: client_env where
  "sample_env = \<lparr>ce_os = sample_os, ce_programs = sample_programs, ce_pgp = sample_pgp, ce_iter = id\<rparr>"

definition sample_x509 :: x509 where
  "sample_x509 = \<lparr>x_keypair = (\<lambda>c k. Inr c), x_append = (\<lambda>s. if s = [] then [] else [s]),
     x_check = (\<lambda>c. None), x_verify = (\<lambda>l r n. l = n)\<rparr>"

text \<open>The settings of the connection as reading the configuration leaves them.\<close>

definition sample_connection :: TLSConfig where
  "sample_connection = snd (unmarshalTLSConfig sample_x509 ((config_TLS zero_config)\<lparr>ServerCACert := ''ca''\<rparr>))"

definition sample_config :: client_config where
  "sample_config = zero_config\<lparr>
     Instances := [\<lparr>Address = ''10.0.0.1'', UUID = ''a''\<rparr>, \<lparr>Address = ''10.0.0.2'', UUID = ''b''\<rparr>],
     BackupServerPort := 8081, BackupAllMasters := True,
     config_Credentials := \<lparr>Username = ''u'', Password = ''p''\<rparr>, TmpDir := ''/tmp'', OutputDir := ''/out'',
     SymmetricKey := ''key'', config_TLS := sample_connection, MetadataFields := [(''compressed'', ''N'')]\<rparr>"

definition sample_server_config :: server_config where
  "sample_server_config = zero_server_config\<lparr>
     srv_Credentials := \<lparr>srv_Username = ''u'', srv_Password = ''p''\<rparr>\<rparr>"

definition sample_download :: download_env where
  "sample_download = \<lparr>d_Do = (\<lambda>n tls rq. Inr (server_response sample_programs [] sample_server_config None rq)),
     d_ticks = (\<lambda>n i. 0), d_humanize = (\<lambda>n. ''some'')\<rparr>"

definition sample_galera :: "tls_config option \<Rightarrow> request \<Rightarrow> go_error + http_response" where
  "sample_galera tls rq = Inl (ErrorString ''refused'')"

definition sample_client :: client where
  "sample_client = client_of sample_x509 sample_download sample_galera sample_config NewGnuTarClient"

definition sample_fs :: fs where
  "sample_fs = [([''tmp''], Dir), ([''out''], Dir), ([''tmp'', ''mysql-backup-old''], Dir)]"

end
