(* ===== verification/Command_Executor.thy ===== *)
theory Command_Executor
  imports Go_Exec
begin

text \<open>
  \<^verbatim>\<open>commandexecutor/command_executor.go\<close> of the server: running a command whose output is
  copied by the caller, and interrupting it when the copy fails.
\<close>

record CommandExecutor =
  ce_command :: cmd
  ce_logger :: logger

definition NewCommandExecutor :: "cmd \<Rightarrow> logger \<Rightarrow> CommandExecutor" where
  "NewCommandExecutor command lg = \<lparr>ce_command = command, ce_logger = lg\<rparr>"

text \<open>
  The state of a run: the two writers, the log, the signals sent to the child, and whether
  the child has been started and not yet waited for.
\<close>

record 's exec_state =
  ex_stdout :: 's
  ex_stderr :: "string list"
  ex_logs :: "log_entry list"
  ex_signals :: "string list"
  ex_running :: bool

definition ex_log :: "logger \<Rightarrow> string \<Rightarrow> go_error \<Rightarrow> 's exec_state \<Rightarrow> 's exec_state" where
  "ex_log lg msg e s = s\<lparr>ex_logs := ex_logs s @ [log_entry_of lg ERROR msg (Some e) []]\<rparr>"

definition ex_wait :: "outcome \<Rightarrow> 's exec_state \<Rightarrow> 's exec_state" where
  "ex_wait oc s = s\<lparr>ex_stderr := ex_stderr s @ oc_stderr oc, ex_running := False\<rparr>"

text \<open>\<^verbatim>\<open>Run\<close>; \<open>pipe\<close> is the result of \<^verbatim>\<open>StdoutPipe\<close>, \<open>oc\<close> what the child does.\<close>

definition CommandExecutor_Run ::
  "CommandExecutor \<Rightarrow> err \<Rightarrow> outcome \<Rightarrow> 's writer \<Rightarrow> 's exec_state \<Rightarrow> err \<times> 's exec_state" where
  "CommandExecutor_Run c pipe oc stdoutWriter s =
     (case pipe of
        Some e \<Rightarrow> (Some e, ex_log (ce_logger c) ''Cannot get a Stdout Pipe'' e s)
      | None \<Rightarrow>
          (case oc_start oc of
             Some e \<Rightarrow> (Some e, ex_log (ce_logger c) ''Cannot start command'' e s)
           | None \<Rightarrow>
               (case io_Copy stdoutWriter (stdout_reader oc) (ex_stdout s) of
                  (Some e, _, out) \<Rightarrow>
                    (Some e, ex_wait oc (s\<lparr>ex_stdout := out, ex_running := True,
                       ex_signals := ex_signals s @ [''interrupt'']\<rparr>))
                | (None, _, out) \<Rightarrow>
                    ((case exit_err (oc_exit oc) of
                        Some x \<Rightarrow> Some (ErrorString (''Command did not complete successfully: '' @ Error x))
                      | None \<Rightarrow> None),
                     ex_wait oc (s\<lparr>ex_stdout := out, ex_running := True\<rparr>)))))"

lemma CommandExecutor_None:
  "CommandExecutor_Run c pipe oc wr s = (None, t) \<longleftrightarrow>
     pipe = None \<and> oc_start oc = None \<and> oc_exit oc = Exited 0
     \<and> (\<exists>out. run_steps (map wr (oc_out oc)) (ex_stdout s) = (None, out)
          \<and> t = ex_wait oc (s\<lparr>ex_stdout := out, ex_running := True\<rparr>))"
proof -
  obtain e u out where c: "io_Copy wr (stdout_reader oc) (ex_stdout s) = (e, u, out)" by (metis prod_cases3)
  have n: "exit_err (oc_exit oc) = None \<longleftrightarrow> oc_exit oc = Exited 0" by (cases "oc_exit oc") auto
  show ?thesis
  proof (cases e)
    case None
    with c have "run_steps (map wr (oc_out oc)) (ex_stdout s) = (None, out)"
      by (simp add: io_Copy_None stdout_reader_def)
    with c None n show ?thesis
      by (auto simp: CommandExecutor_Run_def split: option.splits)
  next
    case (Some x)
    have "run_steps (map wr (oc_out oc)) (ex_stdout s) \<noteq> (None, v)" for v
      using io_Copy_None [of wr "stdout_reader oc" "ex_stdout s" _ v] c Some
      by (auto simp: stdout_reader_def)
    with c Some show ?thesis
      by (auto simp: CommandExecutor_Run_def split: option.splits)
  qed
qed

end
