(* ===== verification/Server_Properties.thy ===== *)
theory Server_Properties
  imports Sample Command_Executor
begin

text \<open>
  What the backup server guarantees: who is let in, what is run for a request, what the
  response of a backup carries and when its error trailer is empty, which client
  certificates are accepted, and how the configuration is put together.
\<close>

subsection \<open>The response to a request for a backup\<close>

text \<open>Writing chunks to a response on a connection that takes \<open>n\<close> more writes.\<close>

definition takes_all :: "nat option \<Rightarrow> string list \<Rightarrow> bool" where
  "takes_all l cs = (case l of None \<Rightarrow> True | Some n \<Rightarrow> length cs \<le> n)"

lemma rw_Write_None_iff:
  "(\<exists>w'. rw_Write c w = (None, w')) \<longleftrightarrow> rw_left w \<noteq> Some 0"
  "rw_Write c w = (None, w') \<Longrightarrow> rw_body w' = rw_body w @ [c] \<and> rw_left w' = map_option (\<lambda>n. n - 1) (rw_left w)"
  "rw_Write c w = (Some e, w') \<Longrightarrow> e = ErrConnection"
  by (auto simp: rw_Write_def Let_def split: option.splits nat.splits)

lemma run_rw_Write:
  "(\<exists>w'. run_steps (map rw_Write cs) w = (None, w')) \<longleftrightarrow> takes_all (rw_left w) cs"
proof (induction cs arbitrary: w)
  case Nil
  then show ?case by (simp add: takes_all_def split: option.split)
next
  case (Cons c cs)
  consider "rw_left w = Some 0" | "rw_left w \<noteq> Some 0" by blast
  then show ?case
  proof cases
    case 1
    then show ?thesis using rw_Write_None_iff(1) [of c w] by (auto simp: takes_all_def)
  next
    case 2
    then obtain u where u: "rw_Write c w = (None, u)" using rw_Write_None_iff(1) [of c w] by blast
    from rw_Write_None_iff(2) [OF u] 2 have "takes_all (rw_left u) cs = takes_all (rw_left w) (c # cs)"
      by (auto simp: takes_all_def split: option.splits)
    with Cons.IH [of u] u show ?thesis by simp
  qed
qed

lemma run_rw_Write_body:
  "run_steps (map rw_Write cs) w = (None, w') \<Longrightarrow> rw_body w' = rw_body w @ cs"
  by (induction cs arbitrary: w) (auto dest: rw_Write_None_iff(2))

lemma run_rw_Write_error:
  "run_steps (map rw_Write cs) w = (Some e, w') \<Longrightarrow> e = ErrConnection"
  by (induction cs arbitrary: w)
    (auto simp: run_steps_Cons dest: rw_Write_None_iff(3) split: prod.splits option.splits)

text \<open>A child that cannot be started has an error message that is not blank.\<close>

definition speaks :: "outcome \<Rightarrow> bool" where
  "speaks oc = (case oc_start oc of None \<Rightarrow> True | Some e \<Rightarrow> \<not> list_all wire_blank (Error e))"

lemma exit_err_speaks: "exit_err x = Some e \<Longrightarrow> \<not> list_all wire_blank (Error e)"
  by (cases x) (auto simp: wire_blank_def split: if_splits)

lemma stderr_body [simp]:
  "rw_body (fold (\<lambda>p w. snd (LoggerWriter_Write lg p w)) ps w) = rw_body w"
  by (induction ps arbitrary: w) (simp_all add: LoggerWriter_Write_def)

text \<open>The result of the writer and what it means.\<close>

lemma StreamTo_result:
  assumes "StreamTo P fs x f w = (e, w')" and "speaks (P (xtrabackup_cmd x f) [] fs)"
  defines "oc \<equiv> P (xtrabackup_cmd x f) [] fs"
  shows "e = None \<longleftrightarrow> oc_start oc = None \<and> oc_exit oc = Exited 0 \<and> takes_all (rw_left w) (oc_out oc)"
    and "e = None \<Longrightarrow> rw_body w' = rw_body w @ oc_out oc"
    and "e = Some y \<Longrightarrow> \<not> list_all wire_blank (Error y)"
proof -
  obtain w1 where r: "cmd_Run oc rw_Write w = (e, w1)"
    and w': "rw_body w' = rw_body w1"
    using assms(1) by (auto simp: StreamTo_def oc_def Let_def split: prod.splits if_splits)
  show "e = None \<longleftrightarrow> oc_start oc = None \<and> oc_exit oc = Exited 0 \<and> takes_all (rw_left w) (oc_out oc)"
    using r run_rw_Write [of "oc_out oc" w] cmd_Run_None [of oc rw_Write w] by (metis fst_conv surj_pair)
  show "rw_body w' = rw_body w @ oc_out oc" if "e = None"
    using r w' that cmd_Run_None [of oc rw_Write w w1] run_rw_Write_body by auto
  show "\<not> list_all wire_blank (Error y)" if "e = Some y"
  proof (cases "oc_start oc")
    case (Some z)
    with r that assms(2) show ?thesis by (simp add: cmd_Run_def speaks_def oc_def)
  next
    case None
    obtain x v where s: "run_steps (map rw_Write (oc_out oc)) w = (x, v)" by (metis surj_pair)
    have "exit_err (oc_exit oc) = Some y \<or> exit_err (oc_exit_pipe oc) = Some y \<or> x = Some y"
      using r s None that by (cases x) (auto simp: cmd_Run_def split: option.splits)
    then show ?thesis
    proof (elim disjE)
      assume "x = Some y"
      with s run_rw_Write_error have "y = ErrConnection" by blast
      then show ?thesis by (simp add: ErrConnection_def wire_blank_def)
    qed (rule exit_err_speaks, assumption)+
  qed
qed

text \<open>Who is let in: a request with the right user name and password, or anybody over mutual TLS.\<close>

definition let_in :: "server_config \<Rightarrow> request \<Rightarrow> bool" where
  "let_in cfg req = (srv_EnableMutualTLS (srv_TLS cfg)
     \<or> BasicAuth_of req = Some (srv_Username (srv_Credentials cfg), srv_Password (srv_Credentials cfg)))"

definition backup_outcome :: "programs \<Rightarrow> fs \<Rightarrow> server_config \<Rightarrow> string \<Rightarrow> outcome" where
  "backup_outcome P fs cfg format = P (xtrabackup_cmd (xtra_of cfg) format) [] fs"

lemma backup_handler_let_in:
  "backup_handler P fs cfg w req =
     (if let_in cfg req then BackupHandler_ServeHTTP (handler_of P fs cfg) w req else unauthorized w)"
  by (auto simp: backup_handler_open let_in_def BasicAuth_def split: option.splits)

lemma server_response_cases:
  assumes "url_path (rq_url req) = ''/backup''"
  shows "server_response P fs cfg l req =
     finish_response
       (if \<not> let_in cfg req then unauthorized (new_writer l)
        else case request_format req of
          None \<Rightarrow> invalid_format (handler_of P fs cfg) (query_Get (url_query (rq_url req)) ''format'') (new_writer l)
        | Some format \<Rightarrow> stream_response (handler_of P fs cfg) format req (new_writer l))"
  by (simp add: server_response_def server_handler_backup [OF assms] backup_handler_let_in
      BackupHandler_ServeHTTP_def split: option.split)

lemma streaming_writer_left [simp]: "rw_left (streaming_writer b f req w) = rw_left w"
  "rw_body (streaming_writer b f req w) = rw_body w"
  by (simp_all add: streaming_writer_def)

lemma trailer_Get: "header_Get [(server_TrailerKey, [v])] server_TrailerKey = v"
  by (simp add: header_Get_def server_TrailerKey_canonical)

lemma backup_response:
  assumes "url_path (rq_url req) = ''/backup''" and "let_in cfg req" and "request_format req = Some format"
    and "speaks (backup_outcome P fs cfg format)"
  shows "rs_code (server_response P fs cfg l req) = 200"
    and "rd_err (rs_body (server_response P fs cfg l req)) = None"
    and "header_Get (rs_trailer (server_response P fs cfg l req)) server_TrailerKey = [] \<longleftrightarrow>
      oc_start (backup_outcome P fs cfg format) = None \<and> oc_exit (backup_outcome P fs cfg format) = Exited 0
      \<and> takes_all l (oc_out (backup_outcome P fs cfg format))"
    and "header_Get (rs_trailer (server_response P fs cfg l req)) server_TrailerKey = [] \<Longrightarrow>
      rd_chunks (rs_body (server_response P fs cfg l req)) = oc_out (backup_outcome P fs cfg format)"
proof -
  let ?h = "handler_of P fs cfg" and ?x = "xtra_of cfg"
  obtain e w4 where st: "StreamTo P fs ?x format (streaming_writer ?h format req (new_writer l)) = (e, w4)"
    by (metis surj_pair)
  note rec = xtra.stream_response_received [of ?h P fs ?x, OF _ st]
  define rs where "rs = server_response P fs cfg l req"
  have rs: "rs = finish_response (stream_response ?h format req (new_writer l))"
    using assms(2,3) by (simp add: rs_def server_response_cases [OF assms(1)])
  have h: "BackupWriter ?h = StreamTo P fs ?x" by (simp add: handler_of_def)
  note res = StreamTo_result [OF st, folded backup_outcome_def, OF assms(4)]
  have t: "header_Get (rs_trailer rs) server_TrailerKey = wire_value (trailer_message e)"
    using rec(3) [OF h] rs by (simp add: trailer_Get)
  have "wire_value (trailer_message e) = [] \<longleftrightarrow> e = None"
    using res(3) by (cases e) (simp_all add: wire_value_Nil_iff trailer_message_def)
  with t res(1,2) rec(1,2) [OF h] rs show "rs_code (server_response P fs cfg l req) = 200"
    "rd_err (rs_body (server_response P fs cfg l req)) = None"
    "header_Get (rs_trailer (server_response P fs cfg l req)) server_TrailerKey = [] \<longleftrightarrow>
      oc_start (backup_outcome P fs cfg format) = None \<and> oc_exit (backup_outcome P fs cfg format) = Exited 0
      \<and> takes_all l (oc_out (backup_outcome P fs cfg format))"
    "header_Get (rs_trailer (server_response P fs cfg l req)) server_TrailerKey = [] \<Longrightarrow>
      rd_chunks (rs_body (server_response P fs cfg l req)) = oc_out (backup_outcome P fs cfg format)"
    by (simp_all flip: rs_def)
qed

text \<open>
  C11: For a request that is let in and names a valid format, the server answers 200 and the
  X-Backup-Error trailer is empty exactly when xtrabackup started, exited with 0 and the
  connection took its whole output; then the body is that output.
\<close>

theorem empty_trailer_means_success:
  assumes "url_path (rq_url req) = ''/backup''" and "let_in cfg req" and "request_format req = Some format"
    and "speaks (backup_outcome P fs cfg format)"
  shows "let rs = server_response P fs cfg l req; oc = backup_outcome P fs cfg format in
    rs_code rs = 200 \<and> rd_err (rs_body rs) = None
    \<and> (header_Get (rs_trailer rs) server_TrailerKey = [] \<longleftrightarrow>
         oc_start oc = None \<and> oc_exit oc = Exited 0 \<and> takes_all l (oc_out oc))
    \<and> (header_Get (rs_trailer rs) server_TrailerKey = [] \<longrightarrow> rd_chunks (rs_body rs) = oc_out oc)"
  using backup_response [OF assms, of l] by (simp add: Let_def)

text \<open>The sample server answers a request of the sample client.\<close>

definition sample_url :: url where
  "sample_url = \<lparr>url_scheme = ''https'', url_host = ''10.0.0.1:8081'', url_path = ''/backup'',
     url_query = ''format=xbstream''\<rparr>"

definition sample_request :: request where
  "sample_request = backup_request sample_config sample_url"

lemma sample_request_facts:
  "rq_url sample_request = sample_url" "let_in sample_server_config sample_request"
  "request_format sample_request = Some ''xbstream''"
proof -
  show u: "rq_url sample_request = sample_url"
    by (simp add: sample_request_def backup_request_def SetBasicAuth_def)
  have "BasicAuth_of sample_request = Some (''u'', ''p'')"
    unfolding sample_request_def backup_request_def sample_config_def
    by (simp add: BasicAuth_SetBasicAuth)
  then show "let_in sample_server_config sample_request"
    by (simp add: let_in_def sample_server_config_def)
  have "query_Get ''format=xbstream'' ''format'' = ''xbstream''" by code_simp
  then show "request_format sample_request = Some ''xbstream''"
    by (simp add: request_format_def u sample_url_def)
qed

lemma sample_outcome:
  "backup_outcome sample_programs [] sample_server_config ''xbstream'' = exits 0 [''tool = x'', [nl]] []"
  by (simp add: backup_outcome_def xtrabackup_cmd_def sample_programs_def exec_Command_def)

theorem empty_trailer_means_success_witness:
  "let rs = server_response sample_programs [] sample_server_config (Some 1) sample_request in
     rs_code rs = 200 \<and> header_Get (rs_trailer rs) server_TrailerKey \<noteq> []"
  using empty_trailer_means_success [of sample_request sample_server_config "''xbstream''" sample_programs "[]" "Some 1"]
  by (simp add: sample_request_facts sample_outcome sample_url_def speaks_def exits_def takes_all_def Let_def)

lemma rejected_response:
  assumes "url_path (rq_url req) = ''/backup''" and "\<not> let_in cfg req \<or> request_format req = None"
  shows "rs_code (server_response P fs cfg l req) = (if let_in cfg req then 400 else 401)
    \<and> server_response P fs cfg l req = server_response P' fs' cfg l req"
proof -
  have i: "rs_code (finish_response (invalid_format b f (new_writer l))) = 400" for b f
    by (cases l rule: option.exhaust; (cases "the l")?)
      (simp_all add: invalid_format_def rw_Write_def finish_response_def Let_def rw_WriteHeader_def)
  have "invalid_format (handler_of P fs cfg) f w = invalid_format (handler_of P' fs' cfg) f w" for f w
    by (simp add: invalid_format_def handler_of_def)
  with i assms(2) show ?thesis
    by (auto simp: server_response_cases [OF assms(1)] unauthorized_response)
qed

text \<open>
  C12: A request for /backup without the right credentials is answered 401, one with an
  unknown format 400, and the answer does not depend on what the programs would do: nothing
  is run.
\<close>

theorem rejected_request_runs_nothing:
  assumes "url_path (rq_url req) = ''/backup''" and "\<not> let_in cfg req \<or> request_format req = None"
  shows "rs_code (server_response P fs cfg l req) = (if let_in cfg req then 400 else 401)
    \<and> server_response P fs cfg l req = server_response P' fs' cfg l req"
  by (rule rejected_response [OF assms])

theorem rejected_request_runs_nothing_witness:
  "rs_code (server_response sample_programs [] sample_server_config None
     (sample_request\<lparr>rq_header := []\<rparr>)) = 401"
proof -
  let ?r = "sample_request\<lparr>rq_header := []\<rparr>"
  have "BasicAuth_of ?r = None" by (simp add: BasicAuth_of_def header_Get_def Let_def)
  then have n: "\<not> let_in sample_server_config ?r"
    by (simp add: let_in_def sample_server_config_def zero_server_config_def)
  show ?thesis
    using rejected_request_runs_nothing [of ?r sample_server_config sample_programs "[]" None] n
    by (simp add: sample_request_facts sample_url_def)
qed

lemma BasicAuth_of_Set: "BasicAuth_of (SetBasicAuth user pass rq) = cut CHR '':'' (user @ '':'' @ pass)"
proof -
  have "map lower (take 6 (''Basic '' @ s)) = ''basic ''" for s by simp code_simp
  then show ?thesis
    using DecodeString_EncodeToString by (simp add: BasicAuth_of_def SetBasicAuth_def Let_def)
qed

lemma trailer_keys_agree: "TrailerKey = server_TrailerKey"
  by (simp add: TrailerKey_def server_TrailerKey_def) code_simp

text \<open>
  C26: The middleware passes a request whose Authorization header the client made with
  SetBasicAuth to the handler exactly when user:password is the required one and the
  required user name has no colon; otherwise it answers unauthorized.
\<close>

theorem basic_auth_accepts_exactly:
  "BasicAuth nxt user pass rw (SetBasicAuth user' pass' rq) =
     (if CHR '':'' \<notin> set user \<and> user' @ '':'' @ pass' = user @ '':'' @ pass
      then nxt rw (SetBasicAuth user' pass' rq) else unauthorized rw)"
proof -
  obtain a b where ab: "cut CHR '':'' (user' @ '':'' @ pass') = Some (a, b)"
    by (cases "cut CHR '':'' (user' @ '':'' @ pass')") (auto simp: cut_None_iff)
  then have of: "BasicAuth_of (SetBasicAuth user' pass' rq) = Some (a, b)" by (simp add: BasicAuth_of_Set)
  have "a = user \<and> b = pass \<longleftrightarrow> CHR '':'' \<notin> set user \<and> user' @ '':'' @ pass' = user @ '':'' @ pass"
  proof
    assume "a = user \<and> b = pass"
    with cut_SomeD [OF ab] show "CHR '':'' \<notin> set user \<and> user' @ '':'' @ pass' = user @ '':'' @ pass" by simp
  next
    assume u: "CHR '':'' \<notin> set user \<and> user' @ '':'' @ pass' = user @ '':'' @ pass"
    with ab cut_append [of "CHR '':''" user pass] show "a = user \<and> b = pass" by simp
  qed
  with of show ?thesis by (simp only: BasicAuth_def option.case prod.case secureCompare_eq)
qed


subsection \<open>Client certificates\<close>

text \<open>
  C27: With the TLS configuration the server builds, and mutual TLS enabled, a handshake is
  accepted exactly for a certificate whose chain is good and that is valid for one of the
  required identities; without mutual TLS every client is accepted.
\<close>

theorem mutual_tls_identities:
  assumes "server_unmarshalTLSConfig X t = (None, t')" and "srv_TLS_Config t' = Some c"
  shows "client_cert_accepted X chain_ok c cert \<longleftrightarrow>
    (srv_EnableMutualTLS t \<longrightarrow>
       (\<exists>leaf. cert = Some leaf \<and> chain_ok leaf (x_append X (ClientCA t))
          \<and> list_ex (x_verify X leaf (x_append X (ClientCA t))) (RequiredClientIdentities t)))"
proof -
  from server_tls_None [OF assms(1)] obtain c' where "srv_TLS_Config t' = Some c'"
    and "RequireClientCert c' = srv_EnableMutualTLS t"
    and "srv_EnableMutualTLS t \<Longrightarrow> ClientCAs c' = Some (x_append X (ClientCA t))"
    and "VerifyPeer c' = (if srv_EnableMutualTLS t then Some (RequiredClientIdentities t) else None)"
    by metis
  with assms(2) show ?thesis
    by (cases cert) (auto simp: client_cert_accepted_def verifyPeer_None_iff)
qed

definition sample_tls :: server_TLSConfig where
  "sample_tls = \<lparr>srv_EnableMutualTLS = True, RequiredClientIdentities = [''client''],
     ServerCert = ''c'', ServerKey = ''k'', ClientCA = ''ca'', srv_TLS_Config = None\<rparr>"

theorem mutual_tls_identities_witness:
  "\<exists>t' c. server_unmarshalTLSConfig sample_x509 sample_tls = (None, t') \<and> srv_TLS_Config t' = Some c
     \<and> client_cert_accepted sample_x509 (\<lambda>_ _. True) c (Some ''client'')
     \<and> \<not> client_cert_accepted sample_x509 (\<lambda>_ _. True) c (Some ''other'')
     \<and> \<not> client_cert_accepted sample_x509 (\<lambda>_ _. True) c None"
proof -
  obtain t' c where tc: "server_unmarshalTLSConfig sample_x509 sample_tls = (None, t')" "srv_TLS_Config t' = Some c"
    by (simp add: server_unmarshalTLSConfig_def sample_tls_def sample_x509_def tls_option_defs Let_def)
  show ?thesis
    using tc mutual_tls_identities [OF tc, of "\<lambda>_ _. True"]
    by (intro exI [of _ t'] exI [of _ c]) (simp add: sample_tls_def sample_x509_def)
qed

subsection \<open>The configuration\<close>

text \<open>Reading the configuration leaves the tree alone.\<close>

lemma server_config_frame:
  assumes "server_NewConfig E X getenv unmarshal osArgs w = (r, w')"
  shows "w_fs w' = w_fs w"
proof -
  have "w_fs (snd (snd (service_Read E getenv unmarshal merge_defaults fvs m w))) = w_fs w" for fvs m
    using ConfigBytes_fs [of E getenv fvs w]
    by (auto simp: service_Read_def split: prod.splits sum.splits option.splits)
  then have "w_fs (snd (server_NewConfig E X getenv unmarshal osArgs w)) = w_fs w"
    by (auto simp: server_NewConfig_def Let_def split_beta split: list.split sum.split option.split)
  with assms show ?thesis by simp
qed

text \<open>
  C33: When the server reads its configuration successfully, flags were parsed, the text
  came from ConfigBytes, an empty address is replaced by localhost:8081, the log level is
  that of the parsed flag, and a TLS configuration was built that asks for client
  certificates exactly when mutual TLS is enabled.
\<close>

theorem server_config_sources:
  assumes "server_NewConfig E X getenv unmarshal (bin # args) w = (Returned (None, c), w')"
  shows "\<exists>fvs bytes c0 tc.
    flag_Parse server_flags args = Inr fvs \<and> fst (ConfigBytes E getenv fvs w) = Inr bytes
    \<and> unmarshal bytes zero_server_config = (None, c0)
    \<and> BindAddress c = (if BindAddress c0 = [] then default_address else BindAddress c0)
    \<and> srv_Credentials c = srv_Credentials c0 \<and> srv_XtraBackup c = srv_XtraBackup c0 \<and> PidFile c = PidFile c0
    \<and> lager_level (flag_value fvs ''logLevel'' ''info'') = Some (srv_stdout_level c)
    \<and> srv_TLS c = (srv_TLS c0)\<lparr>srv_TLS_Config := Some tc\<rparr>
    \<and> RequireClientCert tc = srv_EnableMutualTLS (srv_TLS c0) \<and> w_fs w' = w_fs w"
proof -
  from assms obtain fvs lvl c1 w1 t where f: "flag_Parse server_flags args = Inr fvs"
    and r: "service_Read E getenv unmarshal merge_defaults fvs zero_server_config w = (None, c1, w1)"
    and l: "lager_level (flag_value fvs ''logLevel'' ''info'') = Some lvl"
    and u: "server_unmarshalTLSConfig X (srv_TLS c1) = (None, t)"
    and c: "c = c1\<lparr>srv_Logger := NewLogger bin, srv_stdout_level := lvl, srv_TLS := t\<rparr>" "w' = w1"
    by (auto simp: server_NewConfig_def Let_def split: sum.splits prod.splits option.splits)
  from r obtain bytes c0 where b: "ConfigBytes E getenv fvs w = (Inr bytes, w1)"
    and d: "unmarshal bytes zero_server_config = (None, c0)" and m: "c1 = merge_defaults c0"
    by (auto simp: service_Read_def split: sum.splits prod.splits option.splits)
  from server_tls_None [OF u] obtain tc where tc: "t = (srv_TLS c1)\<lparr>srv_TLS_Config := Some tc\<rparr>"
    "RequireClientCert tc = srv_EnableMutualTLS (srv_TLS c1)" by metis
  from server_config_frame [OF assms] f b d l c tc m show ?thesis
    by (intro exI [of _ fvs] exI [of _ bytes] exI [of _ c0] exI [of _ tc]) (simp add: merge_defaults_def)
qed

definition sample_server_text :: "string \<Rightarrow> server_config \<Rightarrow> err \<times> server_config" where
  "sample_server_text b c =
     (None, c\<lparr>PidFile := b, srv_TLS := (srv_TLS c)\<lparr>ServerCert := ''c'', ServerKey := ''k''\<rparr>\<rparr>)"

lemma sample_server_NewConfig:
  "\<exists>c. server_NewConfig sample_os sample_x509 Map.empty sample_server_text
     [''server'', ''-config=/pid'', ''-logLevel=debug''] (new_world []) = (Returned (None, c), new_world [])
     \<and> PidFile c = ''/pid''"
proof -
  have f: "flag_Parse server_flags [''-config=/pid'', ''-logLevel=debug'']
      = Inr [(''config'', ''/pid''), (''logLevel'', ''debug'')]" by code_simp
  show ?thesis
    by (simp add: server_NewConfig_def f service_Read_def ConfigBytes_def flag_value_def sample_server_text_def
        merge_defaults_def zero_server_config_def lager_level_def server_unmarshalTLSConfig_def sample_x509_def
        tls_option_defs Let_def del: flag_Parse.simps)
qed

theorem server_config_sources_witness:
  "\<exists>c w'. server_NewConfig sample_os sample_x509 Map.empty sample_server_text
     [''server'', ''-config=/pid'', ''-logLevel=debug''] (new_world []) = (Returned (None, c), w')
     \<and> w_fs w' = []"
proof -
  obtain c where c: "server_NewConfig sample_os sample_x509 Map.empty sample_server_text
     [''server'', ''-config=/pid'', ''-logLevel=debug''] (new_world []) = (Returned (None, c), new_world [])"
    using sample_server_NewConfig by blast
  from server_config_sources [OF c] have "w_fs (new_world []) = w_fs (new_world [])" by blast
  with c show ?thesis by (intro exI [of _ c] exI [of _ "new_world []"]) (simp add: new_world_def)
qed

lemma walk_err_put: "walk_err (fs_put (pre @ cs) n fs) pre cs = walk_err fs pre cs"
proof (induction fs pre cs rule: walk_err.induct)
  case (3 fs pre c d cs)
  have "fs_lookup (fs_put (pre @ c # d # cs) n fs) (pre @ [c]) = fs_lookup fs (pre @ [c])"
    by (simp add: fs_lookup_put)
  with 3 show ?case by (simp split: option.split node.split)
qed simp_all

text \<open>A file that was created can be created again.\<close>

lemma os_Create_again:
  assumes "os_Create E p w = (None, w1)" and "no_faults E"
  shows "\<exists>w2. os_Create E p w1 = (None, w2)"
proof -
  from assms have c: "create_err (w_fs w) p = None"
    and f: "w_fs w1 = fs_put (resolve p) (File (file_mode (w_fs w) (resolve p)) []) (w_fs w)"
    by (auto simp: os_Create_def split: option.splits)
  from c have "create_err (w_fs w1) p = None"
    using walk_err_put [of "[]" "resolve p"]
    by (auto simp: create_err_def f fs_lookup_put split: if_splits option.splits)
  with assms(2) show ?thesis by (simp add: os_Create_def)
qed

lemma os_WriteFile_created:
  assumes "os_Create E p w = (None, w1)" and "no_faults E"
  shows "\<exists>m. fs_lookup (w_fs (snd (os_WriteFile E p s w1))) (resolve p) = Some (File m s)"
proof -
  from os_Create_again [OF assms] obtain w2 where c: "os_Create E p w1 = (None, w2)" by blast
  from os_Create_None(1) [OF c] obtain m where m: "fs_lookup (w_fs w2) (resolve p) = Some (File m [])" by blast
  obtain w3 where w: "os_Write E p s w2 = (None, w3)" using assms(2) by (simp add: os_Write_def)
  with run_steps_writes [of E p "[s]" w2 w3 m "[]"] m c show ?thesis
    by (auto simp: os_WriteFile_def)
qed

lemma same_except_os_WriteFile:
  "same_except (\<lambda>q. q = resolve p) (w_fs w) (w_fs (snd (os_WriteFile E p s w)))"
proof -
  obtain e w1 where c: "os_Create E p w = (e, w1)" by (metis surj_pair)
  from same_except_os_Create [of "\<lambda>q. q = resolve p" p w E] c
  have 1: "same_except (\<lambda>q. q = resolve p) (w_fs w) (w_fs w1)" by simp
  from same_except_trans [OF 1 same_except_os_Write [of "\<lambda>q. q = resolve p" p w1 E s]] 1 c
  show ?thesis by (cases e) (simp_all add: os_WriteFile_def)
qed

text \<open>
  A server that starts has written its process id to the pid file and changed no other
  file.
\<close>

theorem server_start_writes_pid:
  assumes "server_start E X getenv unmarshal dump pid (bin # args) w = (Returned c, w')"
    and "no_faults E"
  shows "(\<exists>m. fs_lookup (w_fs w') (resolve (PidFile c)) = Some (File m (nat_decimal pid)))
    \<and> same_except (\<lambda>q. q = resolve (PidFile c)) (w_fs w) (w_fs w')"
proof -
  from assms(1) obtain w1 w2 where n: "server_NewConfig E X getenv unmarshal (bin # args) w = (Returned (None, c), w1)"
    and o: "os_Create E (PidFile c) w1 = (None, w2)"
    and w': "w' = log_at INFO (srv_Logger c) ''Starting server with configuration'' None
                  [(''address'', LStr (BindAddress c))] (snd (os_WriteFile E (PidFile c) (nat_decimal pid) w2))"
    by (auto simp: server_start_def log_fatal_def split: run.splits prod.splits option.splits)
  have f1: "w_fs w1 = w_fs w" using server_config_frame [OF n] .
  let ?Q = "\<lambda>q. q = resolve (PidFile c)"
  have "same_except ?Q (w_fs w1) (w_fs w2)"
    using same_except_os_Create [of ?Q "PidFile c" w1 E] o by simp
  from same_except_trans [OF this same_except_os_WriteFile] f1 w'
  have "same_except ?Q (w_fs w) (w_fs w')" by simp
  with os_WriteFile_created [OF o assms(2), of "nat_decimal pid"] w' show ?thesis by simp
qed

theorem server_start_writes_pid_witness:
  "\<exists>c w' m. server_start sample_os sample_x509 Map.empty sample_server_text (\<lambda>_. []) 42
     [''server'', ''-config=/pid'', ''-logLevel=debug''] (new_world []) = (Returned c, w')
     \<and> fs_lookup (w_fs w') [''pid''] = Some (File m ''42'')"
proof -
  obtain c where c: "server_NewConfig sample_os sample_x509 Map.empty sample_server_text
     [''server'', ''-config=/pid'', ''-logLevel=debug''] (new_world []) = (Returned (None, c), new_world [])"
    and p: "PidFile c = ''/pid''"
    using sample_server_NewConfig by blast
  have r: "resolve ''/pid'' = [''pid'']" by code_simp
  have d: "nat_decimal 42 = ''42''" by code_simp
  have nf: "no_faults sample_os" by (simp add: no_faults_def sample_os_def)
  obtain w2 where o: "os_Create sample_os ''/pid'' (new_world []) = (None, w2)"
    using nf by (simp add: os_Create_def create_err_def fs_lookup_def r new_world_def)
  then obtain w' where s: "server_start sample_os sample_x509 Map.empty sample_server_text (\<lambda>_. []) 42
     [''server'', ''-config=/pid'', ''-logLevel=debug''] (new_world []) = (Returned c, w')"
    using c p by (simp add: server_start_def)
  from server_start_writes_pid [OF s nf] p r d s show ?thesis by auto
qed

subsection \<open>Running a command\<close>

text \<open>
  C28: For a command that starts, Run returns nil exactly when the output could be copied
  and the exit status is 0; the child gets an interrupt exactly when copying failed, and in
  every case it has been waited for.
\<close>

theorem CommandExecutor_outcome:
  assumes "oc_start oc = None" and "CommandExecutor_Run c None oc wr s = (e, t)"
  shows "(e = None \<longleftrightarrow> oc_exit oc = Exited 0 \<and> fst (run_steps (map wr (oc_out oc)) (ex_stdout s)) = None)
    \<and> ex_signals t = ex_signals s @
        (if fst (run_steps (map wr (oc_out oc)) (ex_stdout s)) = None then [] else [''interrupt''])
    \<and> ex_stderr t = ex_stderr s @ oc_stderr oc \<and> \<not> ex_running t"
proof -
  obtain e' u out where cp: "io_Copy wr (stdout_reader oc) (ex_stdout s) = (e', u, out)" by (metis prod_cases3)
  have n: "e' = None \<longleftrightarrow> fst (run_steps (map wr (oc_out oc)) (ex_stdout s)) = None"
    using cp io_Copy_None [of wr "stdout_reader oc" "ex_stdout s"]
    by (auto simp: stdout_reader_def prod_eq_iff)
  have x: "exit_err (oc_exit oc) = None \<longleftrightarrow> oc_exit oc = Exited 0" by (cases "oc_exit oc") auto
  show ?thesis
    using assms cp n x
    by (cases e') (auto simp: CommandExecutor_Run_def ex_wait_def split: option.splits)
qed

text \<open>A writer that takes one chunk only.\<close>

definition one_chunk :: "string list writer" where
  "one_chunk c s = (if s = [] then (None, [c]) else (Some ErrConnection, s))"

definition idle_exec :: "string list exec_state" where
  "idle_exec = \<lparr>ex_stdout = [], ex_stderr = [], ex_logs = [], ex_signals = [], ex_running = False\<rparr>"

theorem CommandExecutor_outcome_witness:
  "let (e, t) = CommandExecutor_Run (NewCommandExecutor (exec_Command ''cat'' []) (NewLogger [])) None
      (exits 0 [''a'', ''b''] []) one_chunk idle_exec
   in e \<noteq> None \<and> ex_signals t = [''interrupt''] \<and> \<not> ex_running t"
proof -
  have "fst (run_steps (map one_chunk [''a'', ''b'']) []) \<noteq> None"
    by (simp add: one_chunk_def run_steps_Cons)
  with CommandExecutor_outcome [OF _ surjective_pairing, of "exits 0 [''a'', ''b''] []"
      "NewCommandExecutor (exec_Command ''cat'' []) (NewLogger [])" one_chunk idle_exec]
  show ?thesis by (simp add: exits_def idle_exec_def split_beta del: list.map)
qed

end
