(* ===== verification/Client_Liveness.thy ===== *)
theory Client_Liveness
  imports Client_Main
begin

text \<open>
  Nothing stands in the way: when no system call fails, the directories are there, the
  server answers with a complete backup and the child programs do their work, the backup of
  a node succeeds.
\<close>

subsection \<open>Conditions\<close>

text \<open>The server's answer to the request for a node, at the \<open>n\<close>-th call and at any time.\<close>

definition answers_at :: "nat \<Rightarrow> download_env \<Rightarrow> client_config \<Rightarrow> string \<Rightarrow> http_response \<Rightarrow> bool" where
  "answers_at n D cfg url rs \<longleftrightarrow>
     (\<exists>u. parse_url url = Inr u \<and> d_Do D n (TLS_Config (config_TLS cfg)) (backup_request cfg u) = Inr rs)
     \<and> rs_code rs = 200 \<and> rd_err (rs_body rs) = None \<and> header_Get (rs_trailer rs) TrailerKey = []"

definition server_delivers :: "download_env \<Rightarrow> client_config \<Rightarrow> string \<Rightarrow> http_response \<Rightarrow> bool" where
  "server_delivers D cfg url rs \<longleftrightarrow> (\<forall>n. answers_at n D cfg url rs)"

definition is_file :: "fs \<Rightarrow> string list \<Rightarrow> bool" where
  "is_file fs p \<longleftrightarrow> (\<exists>m c. fs_lookup fs p = Some (File m c))"

definition succeeds :: "outcome \<Rightarrow> bool" where
  "succeeds oc \<longleftrightarrow> oc_start oc = None \<and> oc_exit oc = Exited 0"

text \<open>
  The programs on a directory \<open>d\<close>: xbstream unpacks the metadata file, xtrabackup keeps it,
  and all three exit with 0.
\<close>

definition has_info :: "fs \<Rightarrow> string \<Rightarrow> bool" where
  "has_info fs d \<longleftrightarrow> fs_lookup fs (resolve d) = Some Dir \<and> is_file fs (resolve d @ [''xtrabackup_info''])"

definition programs_work :: "programs \<Rightarrow> client \<Rightarrow> string list \<Rightarrow> bool" where
  "programs_work P c input \<longleftrightarrow> (\<forall>d fs.
     let ocx = P (Unpacker_cmd (NewUnpacker d)) input fs; ocp = P (cl_backupPreparer c d) [] fs;
         oct = P (TarClient_Tar (cl_tarClient c) d) [] fs
     in (fs_lookup fs (resolve d) = Some Dir \<longrightarrow> succeeds ocx \<and> has_info (oc_fs ocx) d)
      \<and> (has_info fs d \<longrightarrow> succeeds ocp \<and> has_info (oc_fs ocp) d) \<and> succeeds oct)"

text \<open>The directories: both exist, nothing has the name of a
  working directory, and no directory the name of an artifact.\<close>

definition dirs_ready :: "client_config \<Rightarrow> fs \<Rightarrow> bool" where
  "dirs_ready cfg fs \<longleftrightarrow> fs_wf fs \<and> TmpDir cfg \<noteq> []
     \<and> fs_lookup fs (resolve (TmpDir cfg)) = Some Dir \<and> fs_lookup fs (resolve (OutputDir cfg)) = Some Dir
     \<and> (\<forall>q. temp_entry (TmpDir cfg) tmp_prefix q \<longrightarrow> fs_lookup fs q = None)
     \<and> (\<forall>uuid q. artifact_region cfg uuid q \<longrightarrow> fs_lookup fs q \<noteq> Some Dir)"

subsection \<open>Directories\<close>

text \<open>All directories on the way to a path.\<close>

definition dirs_to :: "fs \<Rightarrow> string list \<Rightarrow> bool" where
  "dirs_to fs p \<longleftrightarrow> (\<forall>q. prefix q p \<longrightarrow> fs_lookup fs q = Some Dir)"

lemma walk_err_dirs:
  "(\<And>q. prefix q (butlast cs) \<Longrightarrow> fs_lookup fs (pre @ q) = Some Dir) \<Longrightarrow> walk_err fs pre cs = None"
proof (induction fs pre cs rule: walk_err.induct)
  case (3 fs pre c d cs)
  have "fs_lookup fs (pre @ [c]) = Some Dir" by (rule 3(2)) simp
  moreover have "walk_err fs (pre @ [c]) (d # cs) = None"
  proof (rule 3(1) [OF calculation refl])
    fix q
    assume "prefix q (butlast (d # cs))"
    then show "fs_lookup fs ((pre @ [c]) @ q) = Some Dir" using 3(2) [of "c # q"] by simp
  qed
  ultimately show ?case by simp
qed simp_all

lemma dirs_to_walk: "dirs_to fs p \<Longrightarrow> walk_err fs [] (p @ [n]) = None"
  by (rule walk_err_dirs) (simp add: dirs_to_def)

lemma dirs_to_wf:
  assumes "fs_wf fs" and "fs_lookup fs p = Some Dir"
  shows "dirs_to fs p"
  unfolding dirs_to_def
proof (intro allI impI)
  fix q
  assume "prefix q p"
  then obtain r where "p = q @ r" by (auto simp: prefix_def)
  with assms(2) show "fs_lookup fs q = Some Dir"
  proof (induction r arbitrary: p rule: rev_induct)
    case (snoc x r)
    have "fs_lookup fs (butlast p) = Some Dir"
      using fs_wf_parent [OF assms(1) snoc.prems(1)] snoc.prems(2) by simp
    with snoc.IH [of "q @ r"] snoc.prems(2) show ?case by (simp add: butlast_append)
  qed simp
qed

lemma dirs_to_snoc: "dirs_to fs p \<Longrightarrow> fs_lookup fs (p @ [n]) = Some Dir \<Longrightarrow> dirs_to fs (p @ [n])"
  by (auto simp: dirs_to_def)

text \<open>Changes in a region that has no directory of the path leave the way open.\<close>

lemma dirs_to_same:
  assumes "dirs_to fs p" and "same_except Q fs fs'" and "\<And>q. prefix q p \<Longrightarrow> \<not> Q q"
  shows "dirs_to fs' p"
  using assms by (auto simp: dirs_to_def same_except_def)

lemma walk_ok:
  assumes "fs_wf fs" and "fs_lookup fs p = Some Dir"
  shows "walk_err fs [] (p @ [n]) = None"
  using walk_err_wf [OF assms(1), of "[]" "p @ [n]"] assms(2) by simp

lemma mkdirtemp_ok:
  assumes "no_faults E" and "0 < n" and "walk_err (w_fs w) [] (resolve (p @ nat_decimal (os_rand E (w_draws w)))) = None"
    and "fs_lookup (w_fs w) (resolve (p @ nat_decimal (os_rand E (w_draws w)))) = None"
  shows "\<exists>name w'. mkdirtemp n E d p w = (Inr name, w')"
proof -
  obtain m where n: "n = Suc m" using assms(2) by (cases n) auto
  have "fault_now E v = None" for v :: world using assms(1) by simp
  moreover have "p @ nat_decimal (os_rand E (w_draws w)) \<noteq> []" by simp
  ultimately show ?thesis unfolding n using assms(3,4) by (simp add: os_Mkdir_def Let_def)
qed

lemma make_tmp_ok:
  assumes "no_faults (ce_os V)" and "TmpDir (cl_config (fst s)) \<noteq> []" and "fs_wf (w_fs (snd s))"
    and "fs_lookup (w_fs (snd s)) (resolve (TmpDir (cl_config (fst s)))) = Some Dir"
    and pat: "pat \<in> {''mysql-backup-downloads'', ''mysql-backup-prepare'', ''mysql-backup-encrypt''}"
    and fresh: "\<And>q. temp_entry (TmpDir (cl_config (fst s))) pat q \<Longrightarrow> fs_lookup (w_fs (snd s)) q = None"
  shows "\<exists>t. make_tmp V set_dir pat s = (None, t)"
proof -
  let ?d = "TmpDir (cl_config (fst s))" and ?w = "snd s"
  let ?k = "os_rand (ce_os V) (w_draws ?w)"
  have res: "resolve (joinPath ?d pat @ nat_decimal ?k) = resolve ?d @ [pat @ nat_decimal ?k]"
    using tmp_patterns [OF pat]
    by (intro resolve_joinPath plain_name_append_decimal) (auto simp: plain_name_def)
  have "temp_entry ?d pat (resolve ?d @ [pat @ nat_decimal ?k])" by (auto simp: temp_entry_def)
  from fresh [OF this] walk_ok [OF assms(3,4)] res
  have "\<exists>name w'. mkdirtemp max_temp_attempts (ce_os V) ?d (joinPath ?d pat) ?w = (Inr name, w')"
    by (intro mkdirtemp_ok [OF assms(1)]) (simp_all add: max_temp_attempts_def)
  with assms(2) show ?thesis
    by (auto simp: make_tmp_def ioutil_TempDir_def Let_def)
qed

lemma prefix_13:
  assumes "HasPrefix n p" and "HasPrefix n q" and "13 < length p" and "13 < length q"
  shows "p ! 13 = q ! 13"
  using assms unfolding HasPrefix_def by (metis nth_take)

lemma temp_entries_distinct:
  assumes "temp_entry d p r" and "temp_entry d q r" and "13 < length p" and "13 < length q" and "p ! 13 \<noteq> q ! 13"
  shows False
proof -
  from assms(1) obtain n where n: "r = resolve d @ [n]" "HasPrefix n p" by (auto simp: temp_entry_def)
  with assms(2) have "HasPrefix n q" by (auto simp: temp_entry_def)
  from prefix_13 [OF n(2) this assms(3,4)] assms(5) show False by simp
qed

lemma createDirectories_ok:
  assumes "no_faults (ce_os V)" and "dirs_ready (cl_config (fst s)) (w_fs (snd s))"
  obtains t where "createDirectories V s = (None, t)"
    and "fs_lookup (w_fs (snd t)) (resolve (prepareDirectory (fst t))) = Some Dir"
    and "temp_entry (TmpDir (cl_config (fst s))) tmp_prefix (resolve (prepareDirectory (fst t)))"
    and "prepareDirectory (fst t) \<noteq> []"
    and "base (fst t) = base (fst s)"
    and "same_except (tmp_region (cl_config (fst s))) (w_fs (snd s)) (w_fs (snd t))"
proof -
  let ?tmp = "TmpDir (cl_config (fst s))"
  let ?p1 = "''mysql-backup-downloads''" and ?p2 = "''mysql-backup-prepare''" and ?p3 = "''mysql-backup-encrypt''"
  from assms(2) have tmp: "?tmp \<noteq> []" and wf: "fs_wf (w_fs (snd s))"
    and td: "fs_lookup (w_fs (snd s)) (resolve ?tmp) = Some Dir"
    and fr: "\<And>q. temp_entry ?tmp tmp_prefix q \<Longrightarrow> fs_lookup (w_fs (snd s)) q = None"
    by (auto simp: dirs_ready_def)
  have fr': "fs_lookup (w_fs (snd s)) q = None" if "temp_entry ?tmp p q" "HasPrefix p tmp_prefix" for p q
    using fr [OF temp_entry_mono [OF that]] .
  have pre: "HasPrefix ?p1 tmp_prefix" "HasPrefix ?p2 tmp_prefix" "HasPrefix ?p3 tmp_prefix"
    by (rule tmp_patterns(3); simp)+
  define s1 where "s1 = clog DEBUG ''Creating directories'' None [] s"
  have s1: "fst s1 = fst s" "w_fs (snd s1) = w_fs (snd s)" by (simp_all add: s1_def)
  obtain s2 where m1: "make_tmp V (\<lambda>d. downloadDirectory_update (\<lambda>_. d)) ?p1 s1 = (None, s2)"
    using make_tmp_ok [of V s1 ?p1] assms(1) tmp wf td fr' pre(1) s1 by fastforce
  from make_tmp_None [OF m1] tmp s1 obtain d1 where d1: "fst s2 = (fst s)\<lparr>downloadDirectory := d1\<rparr>"
    "temp_entry ?tmp ?p1 (resolve d1)" "w_fs (snd s2) = fs_put (resolve d1) Dir (w_fs (snd s))" by auto
  have put: "fs_wf (fs_put r Dir fs) \<and> fs_lookup (fs_put r Dir fs) (resolve ?tmp) = Some Dir
      \<and> same_except (tmp_region (cl_config (fst s))) fs (fs_put r Dir fs)"
    if "fs_wf fs" "fs_lookup fs (resolve ?tmp) = Some Dir" "temp_entry ?tmp p r" "HasPrefix p tmp_prefix" for fs r p
  proof -
    from that(3) obtain n where r: "r = resolve ?tmp @ [n]" by (auto simp: temp_entry_def)
    have "tmp_region (cl_config (fst s)) r"
      using temp_entry_mono [OF that(3,4)] by (auto simp: tmp_region_def)
    with r that(1,2) show ?thesis
      by (auto intro: fs_wf_put same_except_put simp: fs_lookup_put)
  qed
  note w2 = put [OF wf td d1(2) pre(1)]
  have fr2: "fs_lookup (w_fs (snd s2)) q = None" if "temp_entry ?tmp ?p2 q" for q
  proof -
    have "q \<noteq> resolve d1" using temp_entries_distinct [OF that, of ?p1] d1(2) by fastforce
    moreover have "resolve d1 \<noteq> []" using d1(2) by (auto simp: temp_entry_def)
    ultimately show ?thesis using fr' [OF that pre(2)] d1(3) by (simp add: fs_lookup_put)
  qed
  obtain s3 where m2: "make_tmp V (\<lambda>d. prepareDirectory_update (\<lambda>_. d)) ?p2 s2 = (None, s3)"
    using make_tmp_ok [of V s2 ?p2] assms(1) tmp w2 d1 fr2 by fastforce
  from make_tmp_None [OF m2] tmp d1(1) obtain d2 where d2: "fst s3 = (fst s2)\<lparr>prepareDirectory := d2\<rparr>"
    "temp_entry ?tmp ?p2 (resolve d2)" "w_fs (snd s3) = fs_put (resolve d2) Dir (w_fs (snd s2))" "d2 \<noteq> []" by auto
  from w2 d1(3) have w2': "fs_wf (w_fs (snd s2))" "fs_lookup (w_fs (snd s2)) (resolve ?tmp) = Some Dir" by simp_all
  note w3 = put [OF w2' d2(2) pre(2)]
  have fr3: "fs_lookup (w_fs (snd s3)) q = None" if "temp_entry ?tmp ?p3 q" for q
  proof -
    have "q \<noteq> resolve d1" "q \<noteq> resolve d2"
      using temp_entries_distinct [OF that, of ?p1] temp_entries_distinct [OF that, of ?p2] d1(2) d2(2) by fastforce+
    moreover have "resolve d1 \<noteq> []" "resolve d2 \<noteq> []" using d1(2) d2(2) by (auto simp: temp_entry_def)
    ultimately show ?thesis using fr' [OF that pre(3)] d1(3) d2(3) by (simp add: fs_lookup_put)
  qed
  obtain s4 where m3: "make_tmp V (\<lambda>d. encryptDirectory_update (\<lambda>_. d)) ?p3 s3 = (None, s4)"
    using make_tmp_ok [of V s3 ?p3] assms(1) tmp w3 d1(1) d2 fr3 by fastforce
  from make_tmp_None [OF m3] tmp d1(1) d2(1) obtain d3 where d3: "fst s4 = (fst s3)\<lparr>encryptDirectory := d3\<rparr>"
    "temp_entry ?tmp ?p3 (resolve d3)" "w_fs (snd s4) = fs_put (resolve d3) Dir (w_fs (snd s3))"
    "fs_lookup (w_fs (snd s3)) (resolve d3) = None" by auto
  from w3 d2(3) have w3': "fs_wf (w_fs (snd s3))" "fs_lookup (w_fs (snd s3)) (resolve ?tmp) = Some Dir" by simp_all
  note w4 = put [OF w3' d3(2) pre(3)]
  define t where "t = clog DEBUG ''Created directories'' None (dir_data (fst s4)) s4"
  have "createDirectories V s = (None, t)"
    using m1 m2 m3 by (simp add: createDirectories_def run_steps_Cons log_step_def s1_def t_def)
  moreover have "fs_lookup (w_fs (snd t)) (resolve (prepareDirectory (fst t))) = Some Dir"
  proof -
    have ne: "resolve d2 \<noteq> []" "resolve d3 \<noteq> []" using d2(2) d3(2) by (auto simp: temp_entry_def)
    have "fs_lookup (w_fs (snd s3)) (resolve d2) = Some Dir" using d2(3) ne by (simp add: fs_lookup_put)
    with d3(4) have "resolve d2 \<noteq> resolve d3" by auto
    with d2 d3 ne show ?thesis by (simp add: t_def fs_lookup_put)
  qed
  moreover have "same_except (tmp_region (cl_config (fst s))) (w_fs (snd s)) (w_fs (snd t))"
    using w2 w3 w4 d1(3) d2(3) d3(3) unfolding t_def by (auto intro: same_except_trans)
  ultimately show thesis
    using d1(1) d2 d3(1) temp_entry_mono [OF d2(2) pre(2)]
    by (intro that [of t]) (simp_all add: t_def base_def)
qed

subsection \<open>The file calls\<close>

lemma os_Create_ok:
  assumes "no_faults E" and "resolve p = d @ [n]" and "dirs_to (w_fs w) d"
    and "fs_lookup (w_fs w) (resolve p) \<noteq> Some Dir"
  obtains w' where "os_Create E p w = (None, w')"
proof -
  have "p \<noteq> []"
  proof
    assume "p = []"
    then have "resolve p = []" by (simp add: resolve_def)
    with assms(2) show False by simp
  qed
  with assms dirs_to_walk [OF assms(3), of n] have "create_err (w_fs w) p = None"
    by (simp add: create_err_def)
  with assms(1) show thesis by (auto intro: that simp: os_Create_def)
qed

lemma open_err_ok:
  assumes "resolve p = d @ [n]" and "dirs_to fs d" and "is_file fs (resolve p)"
  shows "open_err fs p = None"
proof -
  have "p \<noteq> []"
  proof
    assume "p = []"
    then have "resolve p = []" by (simp add: resolve_def)
    with assms(1) show False by simp
  qed
  with assms dirs_to_walk [OF assms(2), of n] show ?thesis by (auto simp: open_err_def is_file_def)
qed

lemma ExtractFileFields_ok:
  assumes "no_faults E" and "open_err (w_fs w) p = None"
  obtains m w' where "ExtractFileFields E p w = (Inr m, w')" and "w_fs w' = w_fs w"
proof -
  have o: "os_Open E p w = (None, ticked w)" using assms by (simp add: os_Open_def)
  obtain c r w2 where "os_read_all E p (ticked w) = (c, r, w2)" by (metis prod_cases3)
  with o have x: "ExtractFileFields E p w = (Inr (extract_fields (fst (scan_lines c)) []), w2)"
    by (simp add: ExtractFileFields_def)
  with ExtractFileFields_frame(1) [of E p w] show thesis by (intro that [OF x]) simp
qed

lemma write_fields_ok:
  assumes "no_faults (ce_os V)" and "resolve dst = d @ [n]"
    and "dirs_to (w_fs (snd s)) d" and "is_file (w_fs (snd s)) (resolve dst)"
  shows "\<exists>t. run_steps (map (write_field V dst) kvs) s = (None, t)"
  using assms(3,4)
proof (induction kvs arbitrary: s)
  case (Cons kv kvs)
  let ?E = "ce_os V" and ?l = "field_line (fst kv) (snd kv)"
  note op = open_err_ok [OF assms(2) Cons.prems]
  from Cons.prems(2) have nd: "fs_lookup (w_fs (snd s)) (resolve dst) \<noteq> Some Dir"
    by (auto simp: is_file_def)
  have f: "fault_now ?E v = None" for v :: world using assms(1) by simp
  have "os_OpenAppend ?E dst (snd s) = (None, ticked (snd s))"
    using f op nd by (simp add: os_OpenAppend_def)
  moreover obtain w where "os_Write ?E dst (?l @ [nl]) (ticked (snd s)) = (None, w)"
    using f by (simp add: os_Write_def)
  ultimately have w: "WriteLineToFile ?E dst ?l (snd s) = (None, w)" by (auto simp: WriteLineToFile_def)
  have step: "write_field V dst kv s = (None, (fst s, w))"
    unfolding write_field_def logging_None on_world_None using w by simp
  obtain m c where mc: "fs_lookup (w_fs (snd s)) (resolve dst) = Some (File m c)"
    using Cons.prems(2) by (auto simp: is_file_def)
  from WriteLine_None(1) [OF w] append_file_lookup [OF mc]
  have fs: "fs_lookup (w_fs w) q = (if q = resolve dst then Some (File m (c @ ?l @ [nl]))
      else fs_lookup (w_fs (snd s)) q)" for q by simp
  have "dirs_to (w_fs w) d"
    using Cons.prems(1) assms(2) fs by (auto simp: dirs_to_def)
  moreover have "is_file (w_fs w) (resolve dst)" using fs by (simp add: is_file_def)
  ultimately obtain t where "run_steps (map (write_field V dst) kvs) (fst s, w) = (None, t)"
    using Cons.IH [of "(fst s, w)"] by auto
  with step show ?case by auto
qed simp

subsection \<open>The steps of a node\<close>

lemma Unpacker_ok:
  assumes "succeeds (P (Unpacker_cmd us) (rd_chunks r) (w_fs v))" and "rd_err r = None"
  shows "\<exists>u w2. Unpacker_WriteStream P us r v = (None, u, w2)
    \<and> w_fs w2 = oc_fs (P (Unpacker_cmd us) (rd_chunks r) (w_fs v))"
  using assms
  by (auto simp: Unpacker_WriteStream_def CombinedOutput_def succeeds_def stdin_copy_def Let_def)

lemma DownloadBackup_ok:
  assumes "answers_at (w_calls w) D cfg url rs"
    and "\<And>v. w_fs v = w_fs w \<Longrightarrow> \<exists>u w2. wr (rs_body rs) v = (None, u, w2) \<and> w_fs w2 = F"
  shows "\<exists>w'. DownloadBackup D cfg url wr w = (None, w') \<and> w_fs w' = F"
proof -
  let ?w = "log_at INFO (config_Logger cfg) ''Starting to take backup'' None [(''url'', LStr url)] w"
  let ?v = "log_at DEBUG (config_Logger cfg) ''Copying response body to backup writer'' None [] ?w"
  from assms(1) obtain u where u: "parse_url url = Inr u"
    "d_Do D (w_calls w) (TLS_Config (config_TLS cfg)) (backup_request cfg u) = Inr rs"
    and rs: "rs_code rs = 200" "rd_err (rs_body rs) = None" "header_Get (rs_trailer rs) TrailerKey = []"
    by (auto simp: answers_at_def)
  from assms(2) [of ?v] obtain su w2 where wr: "wr (rs_body rs) ?v = (None, su, w2)" "w_fs w2 = F" by auto
  note r = receive_body_result [where D = D and backupWriter = wr, OF wr(1)]
  have "header_Get (seen_trailer rs su) TrailerKey = []"
    using rs by (auto simp: seen_trailer_def header_Get_def)
  with r(1) have "fst (receive_body D (config_Logger cfg) rs wr ?w) = None" by (simp add: Let_def)
  with u rs(1) r(2) wr(2) show ?thesis
    by (intro exI [of _ "snd (receive_body D (config_Logger cfg) rs wr ?w)"])
      (simp add: DownloadBackup_def Let_def prod_eq_iff)
qed

text \<open>
  A downloader that delivers: what the other side answers at a call is handed to the writer as
  a reader that ends regularly, and when the writer can deal with it, the download succeeds.
\<close>

locale reliable_download = download_service +
  fixes delivers :: "nat \<Rightarrow> string \<Rightarrow> reader \<Rightarrow> bool"
  assumes dl_delivers: "delivers (w_calls w) url r
      \<Longrightarrow> (\<And>v. w_fs v = w_fs w \<Longrightarrow> \<exists>u w2. ws r v = (None, u, w2) \<and> w_fs w2 = F)
      \<Longrightarrow> \<exists>w'. dl url ws w = (None, w') \<and> w_fs w' = F"
    and delivers_whole: "delivers n url r \<Longrightarrow> rd_err r = None"

definition answered :: "download_env \<Rightarrow> client_config \<Rightarrow> nat \<Rightarrow> string \<Rightarrow> reader \<Rightarrow> bool" where
  "answered D cfg n url r \<longleftrightarrow> (\<exists>rs. answers_at n D cfg url rs \<and> r = rs_body rs)"

lemma server_answered: "server_delivers D cfg url rs \<Longrightarrow> \<forall>n. answered D cfg n url (rs_body rs)"
  by (auto simp: server_delivers_def answered_def)

interpretation http_ok: reliable_download "DownloadBackup D c" "\<lambda>_ _. True" "answered D c"
proof unfold_locales
  fix w :: world and url r F and ws :: "reader \<Rightarrow> world \<Rightarrow> err \<times> stream_use \<times> world"
  assume a: "answered D c (w_calls w) url r"
    and ws: "\<And>v. w_fs v = w_fs w \<Longrightarrow> \<exists>u w2. ws r v = (None, u, w2) \<and> w_fs w2 = F"
  from a obtain rs where rs: "answers_at (w_calls w) D c url rs" "r = rs_body rs" by (auto simp: answered_def)
  show "\<exists>w'. DownloadBackup D c url ws w = (None, w') \<and> w_fs w' = F"
    by (rule DownloadBackup_ok [OF rs(1)], rule ws [unfolded rs(2)])
next
  show "rd_err r = None" if "answered D c n url r" for n url r
    using that by (auto simp: answered_def answers_at_def)
qed

context reliable_download
begin

lemma download_ok:
  assumes "cl_downloader (fst s) = dl" and "delivers (w_calls (snd s)) (backup_url (fst s) ip) r"
    and "succeeds (ce_programs V (Unpacker_cmd (NewUnpacker (prepareDirectory (fst s)))) (rd_chunks r) (w_fs (snd s)))"
  obtains t where "downloadAndUnpackBackup V ip s = (None, t)" and "fst t = fst s"
    and "w_fs (snd t) = oc_fs (ce_programs V (Unpacker_cmd (NewUnpacker (prepareDirectory (fst s))))
      (rd_chunks r) (w_fs (snd s)))"
proof -
  let ?ws = "Unpacker_WriteStream (ce_programs V) (NewUnpacker (prepareDirectory (fst s)))"
  let ?F = "oc_fs (ce_programs V (Unpacker_cmd (NewUnpacker (prepareDirectory (fst s)))) (rd_chunks r) (w_fs (snd s)))"
  let ?s1 = "clog INFO ''Starting download of backup'' None (prepare_path_data (fst s)) s"
  have ws: "\<exists>u w2. ?ws r v = (None, u, w2) \<and> w_fs w2 = ?F" if "w_fs v = w_fs (snd s)" for v
    using Unpacker_ok [of "ce_programs V" "NewUnpacker (prepareDirectory (fst s))" r v]
      assms(3) delivers_whole [OF assms(2)] unfolding that by blast
  have "\<exists>w'. dl (backup_url (fst s) ip) ?ws (snd ?s1) = (None, w') \<and> w_fs w' = ?F"
    by (rule dl_delivers, use assms(2) in \<open>simp add: clog_def\<close>, rule ws) simp
  then obtain w' where d: "dl (backup_url (fst s) ip) ?ws (snd ?s1) = (None, w')" "w_fs w' = ?F" by blast
  define t where "t = clog INFO ''Finished downloading backup'' None (prepare_path_data (fst s)) (fst s, w')"
  have c: "call_downloader V ip ?s1 = (None, (fst s, w'))"
    unfolding call_downloader_def on_world_None using d(1) assms(1) by simp
  have "downloadAndUnpackBackup V ip s = (None, t)"
    using c by (simp add: downloadAndUnpackBackup_def run_steps_Cons log_step_def logging_def t_def)
  with d(2) show thesis by (intro that [of t]) (simp_all add: t_def)
qed

end

lemma prepare_ok:
  assumes "succeeds (ce_programs V (prepare_cmd (fst s)) [] (w_fs (snd s)))"
  shows "\<exists>t. prepareBackup V s = (None, t)"
proof -
  have r: "\<exists>w. run_prepare V u = (None, (fst s, w))" if "fst u = fst s" "w_fs (snd u) = w_fs (snd s)" for u
    using assms that
    by (auto simp: run_prepare_def CombinedOutput_def succeeds_def stdin_copy_def no_stdin_def Let_def)
  let ?u = "clog INFO ''Starting prepare of backup'' None [(''prepareDirectory'', LStr (prepareDirectory (fst s)))]
      (clog DEBUG ''Backup prepare command'' None
      [(''command'', LCmd (cmd_name (prepare_cmd (fst s))) (cmd_args (prepare_cmd (fst s)))),
       (''args'', LStrs (cmd_name (prepare_cmd (fst s)) # cmd_args (prepare_cmd (fst s))))] s)"
  obtain w where "run_prepare V ?u = (None, (fst s, w))" using r [of ?u] by auto
  then show ?thesis by (simp add: prepareBackup_def run_steps_Cons log_step_def)
qed

text \<open>Putting a file leaves the ways to the directories open.\<close>

lemma dirs_to_other:
  assumes "dirs_to fs p" and "fs_lookup fs r \<noteq> Some Dir" and "same_except (\<lambda>q. q = r) fs fs'"
  shows "dirs_to fs' p"
  using assms(1,2) by (intro dirs_to_same [OF assms(1,3)]) (auto simp: dirs_to_def)

lemma artifact_place:
  assumes "CHR ''/'' \<notin> set uuid"
  shows "\<exists>n. resolve (finalMetadataLocation c uuid) = resolve (OutputDir (cl_config c)) @ [n]"
    and "\<exists>n. resolve (encryptedBackupLocation c uuid) = resolve (OutputDir (cl_config c)) @ [n]"
  by (simp_all add: artifact_locations [OF assms])

lemma metadata_ok:
  assumes "no_faults (ce_os V)" and "CHR ''/'' \<notin> set uuid"
    and "dirs_to (w_fs (snd s)) (resolve (OutputDir (cl_config (fst s))))"
    and "dirs_to (w_fs (snd s)) (resolve (prepareDirectory (fst s)))"
    and "is_file (w_fs (snd s)) (resolve (prepareDirectory (fst s)) @ [''xtrabackup_info''])"
    and "fs_lookup (w_fs (snd s)) (resolve (finalMetadataLocation (fst s) uuid)) \<noteq> Some Dir"
  shows "\<exists>t. writeMetadataFile V uuid s = (None, t)"
proof -
  let ?src = "originalMetadataLocation (fst s)" and ?dst = "finalMetadataLocation (fst s) uuid"
  define u where "u = clog INFO ''Copying metadata file'' None [(''from'', LStr ?src), (''to'', LStr ?dst)] s"
  have u: "fst u = fst s" "w_fs (snd u) = w_fs (snd s)" by (simp_all add: u_def)
  obtain n where n: "resolve ?dst = resolve (OutputDir (cl_config (fst s))) @ [n]"
    using artifact_place(1) [OF assms(2)] by blast
  have src: "resolve ?src = resolve (prepareDirectory (fst s)) @ [''xtrabackup_info'']"
    by (simp add: originalMetadataLocation_def plain_name_def dot_def dotdot_def)
  obtain w where c: "os_Create (ce_os V) ?dst (snd u) = (None, w)"
    using os_Create_ok [OF assms(1) n, of "snd u"] assms(3,6) u by auto
  have se: "same_except (\<lambda>q. q = resolve ?dst) (w_fs (snd s)) (w_fs w)"
    using os_Create_None(2) [OF c] u by (simp add: same_except_def)
  have "resolve ?src \<noteq> resolve ?dst"
    unfolding src artifact_locations(1) [OF assms(2)] by simp
  with assms(5) se have "is_file (w_fs w) (resolve ?src)"
    by (simp add: is_file_def src same_except_def)
  with dirs_to_other [OF assms(4,6) se] src have op: "open_err (w_fs w) ?src = None"
    by (intro open_err_ok [of _ "resolve (prepareDirectory (fst s))"]) simp_all
  obtain m w2 where x: "ExtractFileFields (ce_os V) ?src w = (Inr m, w2)" and w2: "w_fs w2 = w_fs w"
    using ExtractFileFields_ok [OF assms(1) op] by blast
  have "is_file (w_fs w2) (resolve ?dst)"
    using os_Create_None(1) [OF c] w2 by (auto simp: is_file_def)
  moreover have "dirs_to (w_fs w2) (resolve (OutputDir (cl_config (fst s))))"
    using dirs_to_other [OF assms(3,6) se] w2 by simp
  ultimately have "\<exists>v. run_steps (map (write_field V ?dst)
      (ce_iter V (merge_fields (ce_iter V (cl_metadataFields (fst s))) m))) (fst s, w2) = (None, v)"
    by (intro write_fields_ok [OF assms(1) n]) simp_all
  then obtain v where v: "run_steps (map (write_field V ?dst)
      (ce_iter V (merge_fields (ce_iter V (cl_metadataFields (fst s))) m))) (fst s, w2) = (None, v)" ..
  have "on_world (os_Create (ce_os V) ?dst) u = (None, (fst s, w))"
    using c u by (simp add: on_world_None)
  moreover have "extract_and_write V ?src ?dst (fst s, w) = (None, v)"
    using x v by (simp add: extract_and_write_def)
  ultimately show ?thesis
    by (auto simp: writeMetadataFile_def Let_def run_steps_Cons log_step_def u_def)
qed

lemma Encrypt_ok:
  assumes "no_faults E" and "snd (pgp_init L (ck_key k)) = None" and "rd_err r = None"
  shows "\<exists>w'. Encrypt L k r (os_Write E p) w = (None, w')"
  using run_writes_no_faults [OF assms(1), of p "message_head L (ck_key k) (rd_chunks r)" w] assms(2,3)
  by (metis Encrypt_None_iff)

lemma tarAndEncrypt_ok:
  assumes "no_faults (ce_os V)" and "CHR ''/'' \<notin> set uuid"
    and "dirs_to (w_fs (snd s)) (resolve (OutputDir (cl_config (fst s))))"
    and "fs_lookup (w_fs (snd s)) (resolve (encryptedBackupLocation (fst s) uuid)) \<noteq> Some Dir"
    and "\<And>fs. succeeds (ce_programs V (TarClient_Tar (cl_tarClient (fst s)) (prepareDirectory (fst s))) [] fs)"
    and "snd (pgp_init (ce_pgp V) (ck_key (cl_encryptor (fst s)))) = None"
  shows "\<exists>t. tarAndEncryptBackup V uuid s = (None, t)"
proof -
  let ?dst = "encryptedBackupLocation (fst s) uuid" and ?E = "ce_os V"
  let ?tar = "TarClient_Tar (cl_tarClient (fst s)) (prepareDirectory (fst s))"
  let ?u = "clog INFO ''Starting encrypting backup'' None [] s"
  obtain n where n: "resolve ?dst = resolve (OutputDir (cl_config (fst s))) @ [n]"
    using artifact_place(2) [OF assms(2)] by blast
  obtain w where c: "os_Create ?E ?dst (snd ?u) = (None, w)"
    using os_Create_ok [OF assms(1) n, of "snd ?u"] assms(3,4) by auto
  define oc where "oc = ce_programs V ?tar [] (w_fs w)"
  have ok: "oc_start oc = None" "oc_exit oc = Exited 0" using assms(5) by (simp_all add: oc_def succeeds_def)
  have p: "on_world (cmd_StdoutPipe ?E) (fst s, w) = (None, (fst s, ticked w))"
    using assms(1) by (simp add: on_world_None cmd_StdoutPipe_def)
  obtain w3 where st: "cmd_Start (ce_programs V) ?tar (ticked w) = (None, w3)"
    using ok by (auto simp: cmd_Start_def Let_def oc_def)
  obtain w4 where en: "Encrypt (ce_pgp V) (cl_encryptor (fst s)) (stdout_reader oc) (os_Write ?E ?dst) w3 = (None, w4)"
    using Encrypt_ok [OF assms(1,6), of "stdout_reader oc"] by (auto simp: stdout_reader_def)
  obtain w5 where wt: "cmd_Wait oc ?tar w4 = (None, w5)" using ok by (simp add: cmd_Wait_def)
  have "encrypt_output V ?dst oc ?tar (fst s, w3)
      = (None, clog INFO ''Successfully encrypted backup'' None [] (fst s, w5))"
    using en wt by (simp add: encrypt_output_def run_steps_Cons logging_def on_world_def log_step_def)
  with st have "start_and_encrypt V ?dst ?tar (fst s, ticked w)
      = (None, clog INFO ''Successfully encrypted backup'' None [] (fst s, w5))"
    by (simp add: start_and_encrypt_def run_steps_Cons logging_def on_world_def oc_def)
  with c p show ?thesis
    by (simp add: tarAndEncryptBackup_def Let_def run_steps_Cons logging_def on_world_def)
qed

subsection \<open>A node\<close>

text \<open>A program that keeps to a directory and leaves it there leaves the way to it open.\<close>

lemma dirs_to_inside:
  assumes "dirs_to fs p" and "same_except (within p) fs fs'" and "fs_lookup fs' p = Some Dir"
  shows "dirs_to fs' p"
  unfolding dirs_to_def
proof (intro allI impI)
  fix q
  assume q: "prefix q p"
  show "fs_lookup fs' q = Some Dir"
  proof (cases "within p q")
    case True
    with q have "q = p" by (simp add: within_def prefix_order.antisym)
    with assms(3) show ?thesis by simp
  next
    case False
    with same_exceptD [OF assms(2)] assms(1) q show ?thesis by (simp add: dirs_to_def)
  qed
qed

text \<open>The tree in which the steps of a node work.\<close>

definition node_ready :: "client \<Rightarrow> string \<Rightarrow> fs \<Rightarrow> bool" where
  "node_ready c uuid fs \<longleftrightarrow> dirs_to fs (resolve (OutputDir (cl_config c)))
     \<and> dirs_to fs (resolve (prepareDirectory c))
     \<and> (\<forall>q. artifact_region (cl_config c) uuid q \<longrightarrow> fs_lookup fs q \<noteq> Some Dir)"

lemma node_ready_inside:
  assumes "node_ready c uuid fs" and "same_except (within (resolve (prepareDirectory c))) fs fs'"
    and "fs_lookup fs' (resolve (prepareDirectory c)) = Some Dir"
    and "tmp_region (cl_config c) (resolve (prepareDirectory c))" and "output_apart (cl_config c)"
  shows "node_ready c uuid fs'"
proof -
  have tmp: "tmp_region (cl_config c) q" if "within (resolve (prepareDirectory c)) q" for q
    using assms(4) that by (auto simp: tmp_region_def intro: within_trans)
  have "\<not> within (resolve (prepareDirectory c)) q" if "prefix q (resolve (OutputDir (cl_config c)))" for q
  proof
    assume "within (resolve (prepareDirectory c)) q"
    with that tmp have "tmp_region (cl_config c) (resolve (OutputDir (cl_config c)))"
      by (intro tmp) (auto simp: within_def)
    with assms(5) show False by (simp add: output_apart_def)
  qed
  then have "dirs_to fs' (resolve (OutputDir (cl_config c)))"
    using assms(1) by (intro dirs_to_same [OF _ assms(2)]) (simp_all add: node_ready_def)
  moreover have "fs_lookup fs' q \<noteq> Some Dir" if "artifact_region (cl_config c) uuid q" for q
  proof -
    have "\<not> within (resolve (prepareDirectory c)) q"
      using artifact_not_tmp [OF assms(5) that] tmp [of q] by blast
    from same_exceptD [OF assms(2) this] assms(1) that show ?thesis by (simp add: node_ready_def)
  qed
  moreover have "dirs_to fs' (resolve (prepareDirectory c))"
    using assms(1) by (intro dirs_to_inside [OF _ assms(2,3)]) (simp add: node_ready_def)
  ultimately show ?thesis by (simp add: node_ready_def)
qed

context reliable_download
begin

lemma node_steps_ok:
  assumes "no_faults (ce_os V)" and "cl_downloader (fst s) = dl"
    and "\<And>n. delivers n (backup_url (fst s) (Address inst)) r"
    and "programs_work (ce_programs V) (fst s) (rd_chunks r)"
    and "programs_confined (ce_programs V) (fst s)" and "CHR ''/'' \<notin> set (UUID inst)"
    and "snd (pgp_init (ce_pgp V) (ck_key (cl_encryptor (fst s)))) = None"
    and "node_ready (fst s) (UUID inst) (w_fs (snd s))"
    and "tmp_region (cl_config (fst s)) (resolve (prepareDirectory (fst s)))"
    and "output_apart (cl_config (fst s))"
  shows "\<exists>t. run_steps (node_steps V inst) s = (None, t)"
proof -
  let ?c = "fst s" and ?P = "ce_programs V" and ?p = "prepareDirectory (fst s)"
  let ?ocx = "?P (Unpacker_cmd (NewUnpacker ?p)) (rd_chunks r) (w_fs (snd s))"
  let ?ocp = "?P (cl_backupPreparer ?c ?p) [] (oc_fs ?ocx)"
  have "fs_lookup (w_fs (snd s)) (resolve ?p) = Some Dir"
    using assms(8) by (simp add: node_ready_def dirs_to_def)
  with assms(4) have x: "succeeds ?ocx" "has_info (oc_fs ?ocx) ?p" by (auto simp: programs_work_def Let_def)
  with assms(4) have pr: "succeeds ?ocp" "has_info (oc_fs ?ocp) ?p" by (auto simp: programs_work_def Let_def)
  from assms(5) have conf: "same_except (within (resolve ?p)) (w_fs (snd s)) (oc_fs ?ocx)"
    "same_except (within (resolve ?p)) (oc_fs ?ocx) (oc_fs ?ocp)"
    by (simp_all add: programs_confined_def confined_def)
  have r1: "node_ready ?c (UUID inst) (oc_fs ?ocx)"
    by (rule node_ready_inside [OF assms(8) conf(1) _ assms(9,10)]) (use x in \<open>simp add: has_info_def\<close>)
  have r2: "node_ready ?c (UUID inst) (oc_fs ?ocp)"
    by (rule node_ready_inside [OF r1 conf(2) _ assms(9,10)]) (use pr in \<open>simp add: has_info_def\<close>)
  obtain s1 where d: "downloadAndUnpackBackup V (Address inst) s = (None, s1)" "fst s1 = ?c"
    "w_fs (snd s1) = oc_fs ?ocx"
    by (rule download_ok [OF assms(2,3) x(1)])
  from prepare_ok [of V s1] d pr(1) obtain s2 where p: "prepareBackup V s1 = (None, s2)"
    by (auto simp: prepare_cmd_def)
  from prepare_None [OF p] d have s2: "fst s2 = ?c" "w_fs (snd s2) = oc_fs ?ocp" by (simp_all add: prepare_cmd_def)
  have ar: "artifact_region (cl_config ?c) (UUID inst) (resolve (finalMetadataLocation ?c (UUID inst)))"
    "artifact_region (cl_config ?c) (UUID inst) (resolve (encryptedBackupLocation ?c (UUID inst)))"
    using artifact_regions [OF assms(6)] by simp_all
  from metadata_ok [OF assms(1,6), of s2] r2 s2 pr(2) ar(1)
  obtain s3 where m: "writeMetadataFile V (UUID inst) s2 = (None, s3)"
    by (auto simp: node_ready_def has_info_def)
  let ?Q = "\<lambda>q. q = resolve (finalMetadataLocation ?c (UUID inst))"
  have "kept ?Q s2 (snd (writeMetadataFile V (UUID inst) s2))"
    using s2 by (intro kept_metadata) simp
  with m have k: "fst s3 = fst s2" "same_except ?Q (w_fs (snd s2)) (w_fs (snd s3))" by (simp_all add: kept_def)
  have "fs_lookup (w_fs (snd s2)) (resolve (finalMetadataLocation ?c (UUID inst))) \<noteq> Some Dir"
    using r2 s2 ar(1) by (simp add: node_ready_def)
  then have dout: "dirs_to (w_fs (snd s3)) (resolve (OutputDir (cl_config ?c)))"
    using r2 s2 by (intro dirs_to_other [OF _ _ k(2)]) (simp_all add: node_ready_def)
  have "fs_lookup (w_fs (snd s3)) (resolve (encryptedBackupLocation ?c (UUID inst)))
      = fs_lookup (w_fs (snd s2)) (resolve (encryptedBackupLocation ?c (UUID inst)))"
    by (rule same_exceptD [OF k(2)]) (use artifacts_distinct [OF assms(6)] in metis)
  then have "fs_lookup (w_fs (snd s3)) (resolve (encryptedBackupLocation ?c (UUID inst))) \<noteq> Some Dir"
    using r2 s2 ar(2) by (simp add: node_ready_def)
  moreover have "succeeds (?P (TarClient_Tar (cl_tarClient ?c) ?p) [] fs)" for fs
    using assms(4) by (simp add: programs_work_def Let_def)
  ultimately have "\<exists>t. tarAndEncryptBackup V (UUID inst) s3 = (None, t)"
    using tarAndEncrypt_ok [OF assms(1,6), of s3] dout k(1) s2(1) assms(7) by simp
  then obtain t where "tarAndEncryptBackup V (UUID inst) s3 = (None, t)" ..
  with d(1) p m show ?thesis
    unfolding node_steps_def run_steps_None_Cons by (metis run_steps.simps(1))
qed

lemma BackupNode_ok:
  assumes "no_faults (ce_os V)" and "cl_downloader (fst s) = dl"
    and "\<And>n. delivers n (backup_url (fst s) (Address inst)) r"
    and "programs_work (ce_programs V) (fst s) (rd_chunks r)"
    and "frame_ok V (fst s)" and "inst \<in> set (Instances (cl_config (fst s)))"
    and "snd (pgp_init (ce_pgp V) (ck_key (cl_encryptor (fst s)))) = None"
    and "dirs_ready (cl_config (fst s)) (w_fs (snd s))" and "output_apart (cl_config (fst s))"
  shows "\<exists>t. BackupNode V inst s = (None, t)"
proof -
  let ?cfg = "cl_config (fst s)"
  from createDirectories_ok [OF assms(1,8)] obtain u where c: "createDirectories V s = (None, u)"
    and pd: "fs_lookup (w_fs (snd u)) (resolve (prepareDirectory (fst u))) = Some Dir"
    and te: "temp_entry (TmpDir ?cfg) tmp_prefix (resolve (prepareDirectory (fst u)))"
    and b: "base (fst u) = base (fst s)" and se: "same_except (tmp_region ?cfg) (w_fs (snd s)) (w_fs (snd u))"
    by metis
  note bf = base_fields [OF b]
  from assms(8) have d: "dirs_to (w_fs (snd s)) (resolve (TmpDir ?cfg))" "dirs_to (w_fs (snd s)) (resolve (OutputDir ?cfg))"
    by (auto simp: dirs_ready_def intro: dirs_to_wf)
  have "\<not> tmp_region ?cfg q" if "prefix q (resolve (TmpDir ?cfg))" for q
  proof
    assume "tmp_region ?cfg q"
    then obtain m where "prefix (resolve (TmpDir ?cfg) @ [m]) q"
      by (auto simp: tmp_region_def temp_entry_def within_def)
    with that have "prefix (resolve (TmpDir ?cfg) @ [m]) (resolve (TmpDir ?cfg))"
      by (rule prefix_order.trans [rotated])
    then show False by (auto simp: prefix_def)
  qed
  from dirs_to_same [OF d(1) se this] have "dirs_to (w_fs (snd u)) (resolve (TmpDir ?cfg))" .
  with pd te have dp: "dirs_to (w_fs (snd u)) (resolve (prepareDirectory (fst u)))"
    by (auto simp: temp_entry_def intro: dirs_to_snoc)
  have "\<not> tmp_region ?cfg q" if "prefix q (resolve (OutputDir ?cfg))" for q
    using assms(9) that by (auto simp: output_apart_def tmp_region_def within_def intro: prefix_order.trans)
  from dirs_to_same [OF d(2) se this] have do: "dirs_to (w_fs (snd u)) (resolve (OutputDir ?cfg))" .
  have "fs_lookup (w_fs (snd u)) q \<noteq> Some Dir" if "artifact_region ?cfg (UUID inst) q" for q
    using same_exceptD [OF se artifact_not_tmp [OF assms(9) that]] assms(8) that by (auto simp: dirs_ready_def)
  with do dp have nr: "node_ready (fst u) (UUID inst) (w_fs (snd u))"
    using bf(1) by (simp add: node_ready_def)
  have tr: "tmp_region ?cfg (resolve (prepareDirectory (fst u)))" using te by (auto simp: tmp_region_def)
  have sl: "CHR ''/'' \<notin> set (UUID inst)" and pc: "programs_confined (ce_programs V) (fst u)"
    using assms(5,6) frame_ok_base [OF b, of V] by (auto simp: frame_ok_def list_all_iff)
  have "\<exists>t. run_steps (node_steps V inst) u = (None, t)"
    by (rule node_steps_ok [OF assms(1), of u inst r])
      (use assms bf nr tr sl pc in \<open>simp_all add: backup_url_def programs_work_def\<close>)
  with c show ?thesis by (auto simp: BackupNode_steps)
qed

end

subsection \<open>Cleaning the temporary directory\<close>

lemma abs_path_no_dot:
  assumes "list_all plain_name p" and "p \<noteq> []"
  shows "abs_path p \<noteq> []" and "\<not> ends_with_dot (abs_path p)"
proof -
  obtain q n where p: "p = q @ [n]" using assms(2) by (metis rev_exhaust)
  have ap: "abs_path p = abs_path q @ CHR ''/'' # n" by (simp add: abs_path_def p)
  then show "abs_path p \<noteq> []" by simp
  have n: "n \<noteq> []" "n \<noteq> ''.''" "CHR ''/'' \<notin> set n"
    using assms(1) p by (auto simp: plain_name_def dot_def)
  obtain m c where m: "n = m @ [c]" using n(1) by (metis rev_exhaust)
  show "\<not> ends_with_dot (abs_path p)"
  proof
    assume "ends_with_dot (abs_path p)"
    then have "HasPrefix (rev (abs_path p)) ''./''" by (auto simp: ends_with_dot_def ap m)
    then have c: "c = CHR ''.''" and r: "HasPrefix (rev m @ CHR ''/'' # rev (abs_path q)) ''/''"
      by (simp_all add: ap m HasPrefix_def)
    from c n(2) m have "m \<noteq> []" by auto
    then obtain m' d where "m = m' @ [d]" by (metis rev_exhaust)
    with r have "d = CHR ''/''" by (simp add: HasPrefix_def)
    with \<open>m = m' @ [d]\<close> m n(3) show False by simp
  qed
qed

lemma remove_tmp_ok:
  assumes "no_faults (ce_os V)" and "list_all plain_name (d @ [n])" and "fs_wf (w_fs (snd s))"
    and "fs_lookup (w_fs (snd s)) d = Some Dir"
  shows "\<exists>t. remove_tmp V (abs_path (d @ [n])) s = (None, t) \<and> fst t = fst s
    \<and> w_fs (snd t) = fs_remove (d @ [n]) (\<lambda>_. False) (w_fs (snd s))"
proof -
  note a = abs_path_no_dot [OF assms(2)]
  have "walk_err (w_fs (snd s)) [] (d @ [n]) = None" by (rule walk_ok [OF assms(3,4)])
  then have "os_RemoveAll (ce_os V) (abs_path (d @ [n])) (snd s) =
      (None, (ticked (snd s))\<lparr>w_fs := fs_remove (d @ [n]) (\<lambda>_. False) (w_fs (snd s))\<rparr>)"
    using a assms(1) by (simp add: os_RemoveAll_def resolve_abs_path [OF assms(2)])
  then show ?thesis by (simp add: remove_tmp_def logging_def on_world_def)
qed

lemma remove_all_ok:
  assumes "no_faults (ce_os V)" and "\<forall>p \<in> set ps. list_all plain_name p \<and> (\<exists>n. p = d @ [n])"
    and "fs_wf (w_fs (snd s))" and "ps \<noteq> [] \<Longrightarrow> fs_lookup (w_fs (snd s)) d = Some Dir"
  shows "\<exists>t. run_steps (map (remove_tmp V) (map abs_path ps)) s = (None, t) \<and> fst t = fst s
    \<and> fs_wf (w_fs (snd t))
    \<and> (\<forall>q. fs_lookup (w_fs (snd t)) q = (if \<exists>p \<in> set ps. within p q then None else fs_lookup (w_fs (snd s)) q))"
  using assms(2-)
proof (induction ps arbitrary: s)
  case (Cons p ps)
  from Cons.prems obtain n where p: "p = d @ [n]" "list_all plain_name (d @ [n])" by auto
  from remove_tmp_ok [OF assms(1) p(2), of s] Cons.prems obtain u where
    u: "remove_tmp V (abs_path p) s = (None, u)" "fst u = fst s"
    "w_fs (snd u) = fs_remove p (\<lambda>_. False) (w_fs (snd s))"
    unfolding p(1) by auto
  have "\<not> within p d" by (auto simp: p(1) within_def prefix_def)
  then have d: "fs_lookup (w_fs (snd u)) d = Some Dir" using u(3) Cons.prems(3) by simp
  have wf: "fs_wf (w_fs (snd u))" using u(3) Cons.prems(2) by (simp add: fs_wf_remove p(1))
  from Cons.IH [OF _ wf d] Cons.prems(1) obtain t where
    t: "run_steps (map (remove_tmp V) (map abs_path ps)) u = (None, t)" "fst t = fst u" "fs_wf (w_fs (snd t))"
    "\<forall>q. fs_lookup (w_fs (snd t)) q = (if \<exists>p \<in> set ps. within p q then None else fs_lookup (w_fs (snd u)) q)"
    by auto
  have "q \<noteq> []" if "within p q" for q using that by (auto simp: p(1) within_def)
  then have "\<forall>q. fs_lookup (w_fs (snd t)) q
      = (if \<exists>p \<in> set (p # ps). within p q then None else fs_lookup (w_fs (snd s)) q)"
    using t(4) u(3) by auto
  moreover have "run_steps (map (remove_tmp V) (map abs_path (p # ps))) s = (None, t)"
    using u(1) t(1) by (simp add: run_steps_Cons)
  ultimately show ?case using u(2) t(2,3) by (intro exI [of _ t]) simp
qed simp

text \<open>Ancestors of an entry are entries.\<close>

lemma fs_wf_ancestor:
  assumes "fs_wf fs" and "fs_lookup fs q \<noteq> None" and "within e q" and "e \<noteq> []"
  shows "e \<in> set (map fst fs)"
proof -
  have "fs_lookup fs e \<noteq> None"
  proof (cases "e = q")
    case False
    with assms(3) have "prefix e (butlast q)" and "q \<noteq> []"
      by (auto simp: within_def prefix_def butlast_append)
    with assms(1,2) fs_wf_parent have "fs_lookup fs (butlast q) = Some Dir" by blast
    from dirs_to_wf [OF assms(1) this] \<open>prefix e (butlast q)\<close> show ?thesis by (simp add: dirs_to_def)
  qed (use assms(2) in simp)
  with assms(4) fs_lookup_dom show ?thesis by blast
qed

text \<open>Afterwards nothing is left in the region of the working directories.\<close>

lemma cleanTmp_ok:
  assumes "no_faults (ce_os V)" and "list_all no_meta (resolve (TmpDir (cl_config (fst s))))"
    and "fs_plain (w_fs (snd s))" and "fs_wf (w_fs (snd s))"
  shows "\<exists>t. cleanTmpDirectories V s = (None, t) \<and> fst t = fst s \<and> fs_wf (w_fs (snd t))
    \<and> (\<forall>q. fs_lookup (w_fs (snd t)) q =
          (if tmp_region (cl_config (fst s)) q then None else fs_lookup (w_fs (snd s)) q))"
proof -
  let ?tmp = "TmpDir (cl_config (fst s))" and ?fs = "w_fs (snd s)"
  let ?u = "clog DEBUG ''Cleaning tmp directory'' None [(''tmpDirectory'', LStr ?tmp)] s"
  define ps where "ps = sort (filter (temp_entry ?tmp tmp_prefix) (map fst ?fs))"
  have g: "filepath_Glob (ce_os V) (path_Join ?tmp ''mysql-backup*'') (snd ?u) = (Inr (map abs_path ps), ticked (snd ?u))"
    unfolding Glob_tmp [OF assms(2)] using assms(1) by (simp add: ps_def)
  have ps: "set ps = {e \<in> set (map fst ?fs). temp_entry ?tmp tmp_prefix e}" by (auto simp: ps_def)
  have 1: "\<forall>p \<in> set ps. list_all plain_name p \<and> (\<exists>n. p = resolve ?tmp @ [n])"
    using fs_plain_key [OF assms(3)] by (auto simp: ps temp_entry_def)
  have 2: "fs_lookup ?fs (resolve ?tmp) = Some Dir" if "ps \<noteq> []"
  proof -
    from that have "hd ps \<in> set ps" by simp
    with 1 obtain n where n: "hd ps = resolve ?tmp @ [n]" by blast
    from \<open>hd ps \<in> set ps\<close> have "hd ps \<in> set (map fst ?fs)" unfolding ps by simp
    with assms(4) n show ?thesis unfolding fs_wf_def by (metis butlast_snoc)
  qed
  obtain t where t: "run_steps (map (remove_tmp V) (map abs_path ps)) (fst s, ticked (snd ?u)) = (None, t)"
    "fst t = fst s" "fs_wf (w_fs (snd t))"
    "\<forall>q. fs_lookup (w_fs (snd t)) q = (if \<exists>p \<in> set ps. within p q then None else fs_lookup ?fs q)"
    using remove_all_ok [OF assms(1) 1, of "(fst s, ticked (snd ?u))"] 2 assms(4) by auto
  have "fs_lookup (w_fs (snd t)) q = (if tmp_region (cl_config (fst s)) q then None else fs_lookup ?fs q)" for q
  proof (cases "fs_lookup ?fs q")
    case None
    with t(4) show ?thesis by simp
  next
    case (Some x)
    have "e \<in> set ps" if "temp_entry ?tmp tmp_prefix e" "within e q" for e
      using fs_wf_ancestor [OF assms(4) _ that(2)] that(1) Some by (auto simp: ps temp_entry_def)
    then have "(\<exists>p \<in> set ps. within p q) \<longleftrightarrow> tmp_region (cl_config (fst s)) q"
      by (auto simp: tmp_region_def ps)
    with t(4) show ?thesis by simp
  qed
  moreover have "cleanTmpDirectories V s = (None, clog DEBUG ''Cleaned tmp directory'' None [] t)"
    using g t(1) by (simp add: cleanTmpDirectories_def Let_def run_steps_append run_steps_Cons log_step_def)
  ultimately show ?thesis using t(2,3)
    by (intro exI [of _ "clog DEBUG ''Cleaned tmp directory'' None [] t"]) simp
qed

subsection \<open>A run\<close>

context reliable_download
begin

lemma backup_instance_ok:
  assumes "no_faults (ce_os V)" and "cl_downloader (fst s) = dl"
    and "\<And>n. delivers n (backup_url (fst s) (Address inst)) r"
    and "programs_work (ce_programs V) (fst s) (rd_chunks r)"
    and "frame_ok V (fst s)" and "inst \<in> set (Instances (cl_config (fst s)))"
    and "snd (pgp_init (ce_pgp V) (ck_key (cl_encryptor (fst s)))) = None"
    and "dirs_ready (cl_config (fst s)) (w_fs (snd s))" and "output_apart (cl_config (fst s))"
  shows "\<exists>t. backup_instance V inst s = (None, t)"
proof -
  let ?s = "start_instance V inst s"
  have b: "base (fst ?s) = base (fst s)" "w_fs (snd ?s) = w_fs (snd s)"
    by (simp_all add: start_instance_def time_now_def base_def)
  note bf = base_fields [OF b(1)]
  have "\<exists>t. BackupNode V inst ?s = (None, t)"
    by (rule BackupNode_ok [OF assms(1), of ?s inst r])
      (use assms b(2) bf frame_ok_base [OF b(1), of V] in \<open>simp_all add: backup_url_def programs_work_def\<close>)
  then show ?thesis by (auto simp: backup_instance_def)
qed

end

lemma backup_loop_length:
  "backup_loop V is errs s = (es, t) \<Longrightarrow> length es \<le> length errs + length is"
proof (induction "is" arbitrary: errs s)
  case (Cons i "is")
  obtain e u where b: "backup_instance V i s = (e, u)" by (metis surj_pair)
  show ?case
  proof (cases e)
    case None
    with b Cons.prems Cons.IH [of errs u] show ?thesis by simp
  next
    case (Some x)
    with b Cons.prems Cons.IH [of "errs @ [x]" u] show ?thesis by simp
  qed
qed simp

text \<open>A configuration and a tree with which a run can begin.\<close>

definition start_ready :: "client_config \<Rightarrow> fs \<Rightarrow> bool" where
  "start_ready cfg fs \<longleftrightarrow> fs_wf fs \<and> fs_plain fs \<and> TmpDir cfg \<noteq> []
     \<and> list_all no_meta (resolve (TmpDir cfg)) \<and> output_apart cfg
     \<and> fs_lookup fs (resolve (TmpDir cfg)) = Some Dir \<and> fs_lookup fs (resolve (OutputDir cfg)) = Some Dir
     \<and> (\<forall>uuid q. artifact_region cfg uuid q \<longrightarrow> fs_lookup fs q \<noteq> Some Dir)"

lemma TmpDir_not_region: "\<not> tmp_region cfg (resolve (TmpDir cfg))"
  by (auto simp: tmp_region_def temp_entry_def within_def prefix_def)

lemma start_ready_clean:
  assumes "no_faults (ce_os V)" and "start_ready (cl_config (fst s)) (w_fs (snd s))"
  obtains t where "cleanTmpDirectories V s = (None, t)" and "fst t = fst s"
    and "dirs_ready (cl_config (fst s)) (w_fs (snd t))"
proof -
  let ?cfg = "cl_config (fst s)"
  from assms(2) have h: "fs_wf (w_fs (snd s))" "fs_plain (w_fs (snd s))" "list_all no_meta (resolve (TmpDir ?cfg))"
    "output_apart ?cfg" "TmpDir ?cfg \<noteq> []" "fs_lookup (w_fs (snd s)) (resolve (TmpDir ?cfg)) = Some Dir"
    "fs_lookup (w_fs (snd s)) (resolve (OutputDir ?cfg)) = Some Dir"
    "\<And>uuid q. artifact_region ?cfg uuid q \<Longrightarrow> fs_lookup (w_fs (snd s)) q \<noteq> Some Dir"
    by (auto simp: start_ready_def)
  from cleanTmp_ok [OF assms(1) h(3,2,1)] obtain t where t: "cleanTmpDirectories V s = (None, t)" "fst t = fst s"
    "fs_wf (w_fs (snd t))"
    "\<forall>q. fs_lookup (w_fs (snd t)) q = (if tmp_region ?cfg q then None else fs_lookup (w_fs (snd s)) q)" by blast
  have "\<not> tmp_region ?cfg (resolve (OutputDir ?cfg))" using h(4) by (simp add: output_apart_def)
  moreover have "tmp_region ?cfg q" if "temp_entry (TmpDir ?cfg) tmp_prefix q" for q
    using that by (auto simp: tmp_region_def)
  ultimately have "dirs_ready ?cfg (w_fs (snd t))"
    using t(3,4) h TmpDir_not_region [of ?cfg] by (auto simp: dirs_ready_def)
  with t(1,2) show thesis by (intro that)
qed

context reliable_download
begin

lemma Execute_ok:
  assumes "no_faults (ce_os V)" and "start_ready (cl_config (fst s)) (w_fs (snd s))"
    and "cl_downloader (fst s) = dl" and "frame_ok V (fst s)"
    and "snd (pgp_init (ce_pgp V) (ck_key (cl_encryptor (fst s)))) = None"
    and "Instances (cl_config (fst s)) \<noteq> []"
    and "BackupAllMasters (cl_config (fst s)) \<or> \<not> BackupFromInactiveNode (cl_config (fst s))"
    and "inst = (if BackupAllMasters (cl_config (fst s)) then hd else last) (Instances (cl_config (fst s)))"
    and "\<And>n. delivers n (backup_url (fst s) (Address inst)) r"
    and "programs_work (ce_programs V) (fst s) (rd_chunks r)"
  shows "\<exists>t. Execute V s = (Returned None, t)"
proof -
  let ?cfg = "cl_config (fst s)"
  from start_ready_clean [OF assms(1,2)] obtain s1 where c: "cleanTmpDirectories V s = (None, s1)"
    and f: "fst s1 = fst s" and d: "dirs_ready ?cfg (w_fs (snd s1))" by blast
  have i: "inst \<in> set (Instances ?cfg)" using assms(6,8) by simp
  obtain "is" where ch: "choose_instances s1 = (Returned (Inr (inst # is)), s1)"
  proof (cases "BackupAllMasters ?cfg")
    case True
    with f assms(6,8) show thesis
      by (intro that [of "tl (Instances ?cfg)"]) (simp add: choose_instances_def Let_def)
  next
    case False
    with f assms(6,7,8) show thesis by (intro that [of "[]"]) (simp add: choose_instances_def Let_def)
  qed
  have "\<exists>s2. backup_instance V inst s1 = (None, s2)"
    by (rule backup_instance_ok [OF assms(1), of s1 inst r])
      (use assms f d i in \<open>simp_all add: start_ready_def\<close>)
  then obtain s2 where b: "backup_instance V inst s1 = (None, s2)" ..
  obtain es t where l: "backup_loop V is [] s2 = (es, t)" by (metis surj_pair)
  with backup_loop_length [OF l] b ch c show ?thesis by (simp add: Execute_def)
qed

end

end
