(* ===== verification/Download_Properties.thy ===== *)
theory Download_Properties
  imports Server_Properties Client_Liveness
begin

text \<open>
  What a download guarantees: the goroutine and the waiting loop hand the result of the copy
  over, count the bytes and end; the result does not depend on the timer; and, with the real
  server on the other side, success means that the whole backup arrived.
\<close>

subsection \<open>The waiting loop\<close>

text \<open>
  C18: In every reachable state of the download the counter is the number of bytes read so
  far modulo 2^64, the bytes read are a prefix of the body, and every progress report logged
  the size of a prefix of them.
\<close>

theorem progress_counts_bytes_read:
  assumes "dl_reach res (dl_init cs) s"
  shows "\<exists>rd. cs = rd @ dl_unread s \<and> getBytesRead s = of_nat (length (concat rd))
    \<and> (\<forall>b \<in> set (dl_progress s). \<exists>pre. prefix pre rd \<and> b = of_nat (length (concat pre)))"
  using dl_reach_inv [OF assms dl_inv_init] by (auto simp: dl_inv_def getBytesRead_def)

theorem progress_counts_bytes_read_witness:
  "\<exists>s rd. dl_reach None (dl_init [''ab'', ''c'']) s \<and> dl_done s
     \<and> [''ab'', ''c''] = rd @ dl_unread s \<and> getBytesRead s = of_nat (length (concat rd))"
proof -
  let ?s = "dl_loop (\<lambda>_. 1) 0 None [''ab'', ''c''] (dl_init [''ab'', ''c''])"
  have r: "dl_reach None (dl_init [''ab'', ''c'']) ?s" by (rule dl_loop_reach) (simp_all add: dl_init_def)
  from progress_counts_bytes_read [OF r] r dl_loop_done [of "\<lambda>_. 1" 0 None "[''ab'', ''c'']" "dl_init [''ab'', ''c'']"]
  show ?thesis by blast
qed

text \<open>When the loop is done, nothing moves any more.\<close>

lemma copy_done_stuck:
  assumes "dl_reach res (dl_init cs) s" and "dl_done s"
  shows "\<not> dl_step res s t"
proof -
  have "dl_inv res cs s" by (rule dl_reach_inv [OF assms(1) dl_inv_init])
  with assms(2) have "dl_pc s = Finished" by (simp add: dl_inv_def)
  with assms(2) show ?thesis by (auto elim: dl_step_cases)
qed



text \<open>A step that is no progress of the copier is a tick.\<close>

lemma dl_step_same_left: "dl_step res s t \<Longrightarrow> dl_left t = dl_left s \<Longrightarrow> t = report_progress s"
  by (elim dl_step_cases) (auto simp: dl_op_defs dl_left_def)

lemma eventually_constant:
  fixes g :: "nat \<Rightarrow> nat"
  assumes "\<And>i. g (Suc i) \<le> g i"
  shows "\<exists>n. \<forall>i \<ge> n. g (Suc i) = g i"
proof -
  have mono: "g (i + k) \<le> g i" for i k
    by (induction k) (auto intro: order_trans assms)
  obtain n where n: "\<And>i. g n \<le> g i"
    using ex_has_least_nat [of "\<lambda>_. True" 0 g] by auto
  have "g (Suc i) = g i" if "n \<le> i" for i
    using n [of i] n [of "Suc i"] mono [of n "i - n"] mono [of n "Suc i - n"] that by simp
  then show ?thesis by blast
qed

text \<open>
  C17: In an infinite run of the download every step from some point on is a progress
  report, while a step that brings it closer to its end is enabled throughout: if the
  scheduler is fair, the waiting loop returns.
\<close>

theorem waiting_loop_ends:
  assumes "f 0 = dl_init cs" and "\<And>i. dl_step res (f i) (f (Suc i))"
  shows "(\<exists>n. \<forall>i \<ge> n. f (Suc i) = report_progress (f i))
    \<and> (\<forall>i. \<exists>t. dl_step res (f i) t \<and> dl_left t < dl_left (f i))"
proof -
  have reach: "dl_reach res (dl_init cs) (f i)" for i
    by (induction i) (auto simp: assms(1) intro: dl_reach.intros assms(2))
  have nd: "\<not> dl_done (f i)" for i
    using copy_done_stuck [OF reach] assms(2) by blast
  have "\<exists>t. dl_step res (f i) t \<and> dl_left t < dl_left (f i)" for i
    by (rule dl_progress_step [OF dl_reach_inv [OF reach dl_inv_init] nd]) blast
  moreover obtain n where "\<forall>i \<ge> n. dl_left (f (Suc i)) = dl_left (f i)"
    using eventually_constant [of "\<lambda>i. dl_left (f i)"] dl_step_left [OF assms(2)] by blast
  ultimately show ?thesis using dl_step_same_left [OF assms(2)] by blast
qed

theorem waiting_loop_ends_witness:
  "\<exists>t. dl_step None (report_n 5 (dl_init [''a''])) t \<and> dl_left t < dl_left (report_n 5 (dl_init [''a'']))"
proof -
  let ?f = "\<lambda>i. report_n i (dl_init [''a''])"
  have c: "report_n i (report_progress s) = report_progress (report_n i s)" for i s
    by (induction i arbitrary: s) simp_all
  have "dl_step None (?f i) (?f (Suc i))" for i
    using dl_step.tick [of "?f i" None] by (simp add: c dl_init_def)
  from waiting_loop_ends [of ?f "[''a'']" None, OF _ this] show ?thesis by simp
qed

subsection \<open>The URL of a backup\<close>

text \<open>A host name or address without a port.\<close>

definition plain_host :: "string \<Rightarrow> bool" where
  "plain_host h \<longleftrightarrow> list_all host_char h \<and> CHR '':'' \<notin> set h"

lemma host_char_plain:
  assumes "host_char c"
  shows "\<not> c < CHR 0x20" and "c \<noteq> CHR 0x7F" and "c \<noteq> CHR ''#''" and "c \<noteq> CHR ''/''" and "c \<noteq> CHR ''?''"
proof -
  have "\<not> host_char CHR 0x7F" "\<not> host_char CHR ''#''" "\<not> host_char CHR ''/''" "\<not> host_char CHR ''?''"
    by code_simp+
  with assms show "c \<noteq> CHR 0x7F" "c \<noteq> CHR ''#''" "c \<noteq> CHR ''/''" "c \<noteq> CHR ''?''" by blast+
  define others where "others = ''-_.~!$&()*+,;=:[]<>'' @ [CHR 0x27, CHR 0x22]"
  have low: "CHR 0x20 \<le> CHR ''0''" "CHR 0x20 \<le> CHR ''A''" "CHR 0x20 \<le> CHR ''a''" "CHR 0x20 \<le> CHR 0x80"
    by code_simp+
  have "list_all ((\<le>) CHR 0x20) others" unfolding others_def by code_simp
  then have o: "c \<in> set others \<Longrightarrow> CHR 0x20 \<le> c" by (simp add: list_all_iff)
  have "CHR ''0'' \<le> c \<or> CHR ''A'' \<le> c \<or> CHR ''a'' \<le> c" if "alphanumeric c"
    using that by (auto simp: alphanumeric_def in_range_def)
  then have a: "alphanumeric c \<Longrightarrow> CHR 0x20 \<le> c" 
    using order_trans [OF low(1), of c] order_trans [OF low(2), of c] order_trans [OF low(3), of c] by blast
  have "alphanumeric c \<or> CHR 0x80 \<le> c \<or> c \<in> set others"
    using assms unfolding host_char_def others_def .
  then have "CHR 0x20 \<le> c" using a o order_trans [OF low(4), of c] by blast
  then show "\<not> c < CHR 0x20" by simp
qed

lemma digit_host_char: "c \<in> set digit_chars \<Longrightarrow> host_char c \<and> c \<noteq> CHR '':''"
proof -
  have "list_all (\<lambda>c. host_char c \<and> c \<noteq> CHR '':'') digit_chars" by code_simp
  then show "c \<in> set digit_chars \<Longrightarrow> host_char c \<and> c \<noteq> CHR '':''" unfolding list_all_iff by blast
qed

definition backup_url_of :: "string \<Rightarrow> nat \<Rightarrow> url" where
  "backup_url_of ip n = \<lparr>url_scheme = ''https'', url_host = ip @ '':'' @ nat_decimal n, url_path = ''/backup'',
     url_query = ''format=xbstream''\<rparr>"

lemma parse_url_authority:
  assumes "list_all host_char h" and "port_ok h" and "list_all host_char q"
  shows "parse_url (''https://'' @ h @ ''/backup?'' @ q) =
    Inr \<lparr>url_scheme = ''https'', url_host = h, url_path = ''/backup'', url_query = q\<rparr>"
proof -
  let ?s = "''https://'' @ h @ ''/backup?'' @ q"
  have hq: "list_all host_char (h @ q)" using assms by simp
  have nc: "\<not> list_ex (\<lambda>c. c < CHR 0x20 \<or> c = CHR 0x7F) (h @ q)"
    using hq host_char_plain(1,2) by (auto simp: list_ex_iff list_all_iff)
  have lit: "\<not> list_ex (\<lambda>c. c < CHR 0x20 \<or> c = CHR 0x7F) (''https://'' @ ''/backup?'')" by code_simp
  have 1: "\<not> list_ex (\<lambda>c. c < CHR 0x20 \<or> c = CHR 0x7F) ?s"
    using nc lit by (simp only: list_ex_append) blast
  have "\<forall>c \<in> set (h @ q). c \<noteq> CHR ''#''" using hq host_char_plain(3) by (auto simp: list_all_iff)
  then have 2: "takeWhile (\<lambda>c. c \<noteq> CHR ''#'') ?s = ?s" by (intro takeWhile_eq_all_conv [THEN iffD2]) auto
  have 3: "cut_scheme ?s = Some (''https'', h @ ''/backup?'' @ q)" by (simp add: HasPrefix_def)
  have "\<forall>c \<in> set h. c \<noteq> CHR ''/'' \<and> c \<noteq> CHR ''?''"
    using assms(1) host_char_plain(4,5) by (auto simp: list_all_iff)
  then have 4: "takeWhile (\<lambda>c. c \<noteq> CHR ''/'' \<and> c \<noteq> CHR ''?'') (h @ CHR ''/'' # r) = h" for r
    by (subst takeWhile_append2) auto
  show ?thesis using 1 assms(1,2) unfolding parse_url_def 2 3 by (simp add: 4 Let_def)
qed

lemma parse_backup_url:
  assumes "plain_host ip" and "BackupServerPort (cl_config c) = int n"
  shows "parse_url (backup_url c ip) = Inr (backup_url_of ip n)"
proof -
  let ?h = "ip @ '':'' @ nat_decimal n"
  have d: "list_all host_char (nat_decimal n)" "CHR '':'' \<notin> set (nat_decimal n)"
    using nat_decimal_digits [of n] digit_host_char by (auto simp: list_all_iff)
  have c: "host_char CHR '':''" by code_simp
  have h: "list_all host_char ?h" using assms(1) d(1) c by (simp add: plain_host_def)
  have "cut CHR '':'' (rev ?h) = Some (rev (nat_decimal n), rev ip)"
    using cut_append [of "CHR '':''" "rev (nat_decimal n)" "rev ip"] d(2) by simp
  then have p: "port_ok ?h"
    using d(2) nat_decimal_digits [of n] by (auto simp: port_ok_def list_all_iff)
  have q: "list_all host_char ''format=xbstream''" by code_simp
  have "backup_url c ip = ''https://'' @ ?h @ ''/backup?'' @ ''format=xbstream''"
    using assms(2) by (simp add: backup_url_def decimal_def)
  with parse_url_authority [OF h p q] show ?thesis by (simp add: backup_url_of_def)
qed

lemma sample_host: "plain_host ''10.0.0.1''"
  by code_simp

subsection \<open>The outcome of a download\<close>

text \<open>
  C32: When the progress timer fires, and how sizes are printed, has no influence on the
  result of DownloadBackup, on the file system or on the processes.
\<close>

theorem download_ignores_timer:
  "let a = DownloadBackup D c url wr w; b = DownloadBackup (D\<lparr>d_ticks := t, d_humanize := h\<rparr>) c url wr w
   in fst a = fst b \<and> w_fs (snd a) = w_fs (snd b) \<and> w_procs (snd a) = w_procs (snd b)"
proof -
  have rb: "fst (receive_body D lg rs wr v) = fst (receive_body D' lg rs wr v)
      \<and> w_fs (snd (receive_body D lg rs wr v)) = w_fs (snd (receive_body D' lg rs wr v))
      \<and> w_procs (snd (receive_body D lg rs wr v)) = w_procs (snd (receive_body D' lg rs wr v))" for D' lg rs v
  proof -
    obtain res u w2 where wr: "wr (rs_body rs) (log_at DEBUG lg ''Copying response body to backup writer'' None [] v)
        = (res, u, w2)" by (metis prod_cases3)
    note a = receive_body_result [where D = D and backupWriter = wr, OF wr]
    note b = receive_body_result [where D = D' and backupWriter = wr, OF wr]
    show ?thesis by (simp add: a b)
  qed
  show ?thesis
    unfolding DownloadBackup_def Let_def using rb by (simp split: sum.split)
qed

text \<open>
  A response with a status other than 200 makes DownloadBackup return the error for
  that status without reading the body or touching any file.
\<close>

theorem download_refused:
  assumes "parse_url url = Inr u"
    and "d_Do D (w_calls w) (TLS_Config (config_TLS c)) (backup_request c u) = Inr rs" and "rs_code rs \<noteq> 200"
  shows "\<exists>w'. DownloadBackup D c url wr w = (Some (status_error (rs_code rs)), w') \<and> w_fs w' = w_fs w
    \<and> w_procs w' = w_procs w
    \<and> Error (status_error (rs_code rs)) \<in> {''Backup endpoint return Unauthorized with provided credentials'',
         ''Backup endpoint returned Internal Server Error'', ''Non-200 http Response''}"
  using assms by (simp add: DownloadBackup_def Let_def status_error_def)

theorem download_refused_witness:
  "\<forall>wr. \<exists>w'. DownloadBackup (sample_download\<lparr>d_Do := \<lambda>n t r. Inr (finish_response (unauthorized (new_writer None)))\<rparr>)
      sample_config (backup_url sample_client ''10.0.0.1'') wr (new_world []) = (Some (status_error 401), w')
      \<and> w_fs w' = []"
proof -
  let ?D = "sample_download\<lparr>d_Do := \<lambda>n t r. Inr (finish_response (unauthorized (new_writer None)))\<rparr>"
  have u: "parse_url (backup_url sample_client ''10.0.0.1'') = Inr (backup_url_of ''10.0.0.1'' 8081)"
    by (rule parse_backup_url [OF sample_host]) (simp add: sample_client_def sample_config_def)
  show ?thesis
    using download_refused [OF u, of ?D "new_world []" sample_config "finish_response (unauthorized (new_writer None))"]
    by (auto simp: unauthorized_response new_world_def)
qed

subsection \<open>The whole way\<close>

text \<open>
  The client connected to the server: an attempt fails, or the connection takes a number of
  writes of the server and breaks after a number of chunks (\<open>None\<close>: never).
\<close>

definition served ::
  "programs \<Rightarrow> fs \<Rightarrow> server_config \<Rightarrow> (nat \<Rightarrow> go_error + nat option \<times> nat option)
   \<Rightarrow> nat \<Rightarrow> tls_config option \<Rightarrow> request \<Rightarrow> go_error + http_response" where
  "served P fs scfg links n tls rq =
     (case links n of
        Inl e \<Rightarrow> Inl e
      | Inr (l, cutoff) \<Rightarrow> Inr (deliver cutoff (server_response P fs scfg l rq)))"

text \<open>xbstream reads its input to the end.\<close>

definition reads_all :: "programs \<Rightarrow> cmd \<Rightarrow> fs \<Rightarrow> bool" where
  "reads_all P c fs \<longleftrightarrow> (\<forall>input. length input \<le> oc_takes (P c input fs))"

lemma call_downloader_None:
  assumes "downloadAndUnpackBackup V ip s = (None, t)"
  obtains w w' where "w_fs w = w_fs (snd s)" and "w_calls w = w_calls (snd s)"
    and "cl_downloader (fst s) (backup_url (fst s) ip)
      (Unpacker_WriteStream (ce_programs V) (NewUnpacker (prepareDirectory (fst s)))) w = (None, w')"
    and "w_fs (snd t) = w_fs w'" and "fst t = fst s"
proof -
  let ?u = "clog INFO ''Starting download of backup'' None (prepare_path_data (fst s)) s"
  from assms obtain v where "call_downloader V ip ?u = (None, v)"
    and t: "t = clog INFO ''Finished downloading backup'' None (prepare_path_data (fst v)) v"
    unfolding downloadAndUnpackBackup_def run_steps_None_Cons logging_None log_step_def by auto
  then have "cl_downloader (fst s) (backup_url (fst s) ip)
      (Unpacker_WriteStream (ce_programs V) (NewUnpacker (prepareDirectory (fst s)))) (snd ?u) = (None, snd v)"
    and "fst v = fst s"
    unfolding call_downloader_def on_world_None by simp_all
  with t show thesis by (intro that [of "snd ?u" "snd v"]) (simp_all add: clog_def)
qed

lemma backup_request_let_in:
  assumes "let_in scfg (backup_request cfg u)" and "\<not> srv_EnableMutualTLS (srv_TLS scfg)"
  shows "Username (config_Credentials cfg) @ '':'' @ Password (config_Credentials cfg)
    = srv_Username (srv_Credentials scfg) @ '':'' @ srv_Password (srv_Credentials scfg)"
proof -
  from assms have "cut CHR '':'' (Username (config_Credentials cfg) @ '':'' @ Password (config_Credentials cfg))
      = Some (srv_Username (srv_Credentials scfg), srv_Password (srv_Credentials scfg))"
    by (simp add: let_in_def backup_request_def BasicAuth_of_Set)
  from cut_SomeD [OF this] show ?thesis by simp
qed

lemma backup_request_url [simp]: "rq_url (backup_request cfg u) = u"
  by (simp add: backup_request_def SetBasicAuth_def)

text \<open>
  A connection that stays: it takes every write of the server, and nothing cuts it off.
\<close>

definition link_holds :: "go_error + nat option \<times> nat option \<Rightarrow> string list \<Rightarrow> bool" where
  "link_holds link cs \<longleftrightarrow> (\<exists>l. link = Inr (l, None) \<and> takes_all l cs)"

text \<open>A response of the server that reads to a regular end and reports no error.\<close>

lemma served_body:
  assumes "served P fs scfg links k tls (backup_request cfg u) = Inr rs" and "rs_code rs = 200"
    and "rd_err (rs_body rs) = None" and "header_Get (rs_trailer rs) TrailerKey = []"
    and "url_path u = ''/backup''" and "request_format (backup_request cfg u) = Some f"
    and "speaks (backup_outcome P fs scfg f)"
  shows "let_in scfg (backup_request cfg u)" and "succeeds (backup_outcome P fs scfg f)"
    and "rd_chunks (rs_body rs) = oc_out (backup_outcome P fs scfg f)"
    and "link_holds (links k) (oc_out (backup_outcome P fs scfg f))"
proof -
  let ?rq = "backup_request cfg u"
  from assms(1) obtain l cutoff where lk: "links k = Inr (l, cutoff)"
    and "rs = deliver cutoff (server_response P fs scfg l ?rq)"
    by (auto simp: served_def split: sum.splits)
  with assms(3) have rs: "rs = server_response P fs scfg l ?rq" and co: "cutoff = None"
    by (cases cutoff; simp add: deliver_def)+
  have p: "url_path (rq_url ?rq) = ''/backup''" using assms(5) by simp
  have "rs_code (server_response P fs scfg l ?rq) = 401" if "\<not> let_in scfg ?rq"
    using rejected_response [OF p, of scfg P fs l P fs] that by simp
  with assms(2) rs show li: "let_in scfg ?rq" by fastforce
  from backup_response [OF p li assms(6,7), of l] assms(4) rs lk co
  show "succeeds (backup_outcome P fs scfg f)" "rd_chunks (rs_body rs) = oc_out (backup_outcome P fs scfg f)"
    "link_holds (links k) (oc_out (backup_outcome P fs scfg f))"
    by (auto simp: trailer_keys_agree succeeds_def link_holds_def)
qed

text \<open>And conversely: what is needed for such a response.\<close>

lemma served_answers:
  assumes "let_in scfg (backup_request cfg u)" and "succeeds (backup_outcome P fs scfg f)"
    and "link_holds (links k) (oc_out (backup_outcome P fs scfg f))"
    and "parse_url url = Inr u" and "url_path u = ''/backup''" and "request_format (backup_request cfg u) = Some f"
    and "\<And>t. d_Do D k t (backup_request cfg u) = served P fs scfg links k t (backup_request cfg u)"
  shows "answered D cfg k url \<lparr>rd_chunks = oc_out (backup_outcome P fs scfg f), rd_err = None\<rparr>"
proof -
  from assms(3) obtain l where l: "links k = Inr (l, None)" "takes_all l (oc_out (backup_outcome P fs scfg f))"
    by (auto simp: link_holds_def)
  let ?rs = "server_response P fs scfg l (backup_request cfg u)"
  have "speaks (backup_outcome P fs scfg f)" using assms(2) by (simp add: succeeds_def speaks_def)
  note b = backup_response [OF _ assms(1,6) this, of l, unfolded backup_request_url, OF assms(5)]
  have "answers_at k D cfg url ?rs"
    using assms(2,4,7) l b by (simp add: answers_at_def served_def trailer_keys_agree succeeds_def)
  moreover from this have "rd_err (rs_body ?rs) = None" by (simp add: answers_at_def)
  moreover have "rd_chunks (rs_body ?rs) = oc_out (backup_outcome P fs scfg f)"
    using assms(2) l(2) b by (simp add: succeeds_def)
  ultimately show ?thesis unfolding answered_def by (intro exI [of _ ?rs]) simp
qed

lemma backup_url_request:
  "url_path (rq_url (backup_request cfg (backup_url_of ip n))) = ''/backup''"
  "request_format (backup_request cfg (backup_url_of ip n)) = Some ''xbstream''"
proof -
  have "query_Get ''format=xbstream'' ''format'' = ''xbstream''" by code_simp
  then show "url_path (rq_url (backup_request cfg (backup_url_of ip n))) = ''/backup''"
    "request_format (backup_request cfg (backup_url_of ip n)) = Some ''xbstream''"
    by (simp_all add: backup_request_def SetBasicAuth_def backup_url_of_def request_format_def)
qed

text \<open>A download and unpacking that returned no error, over such connections.\<close>

lemma served_download_None:
  assumes "downloadAndUnpackBackup V ip s = (None, t)"
    and "cl_downloader (fst s) = DownloadBackup D cfg" and "d_Do D = served P fs scfg links"
    and "plain_host ip" and "BackupServerPort (cl_config (fst s)) = int n"
    and "speaks (backup_outcome P fs scfg ''xbstream'')"
    and "reads_all (ce_programs V) (Unpacker_cmd (NewUnpacker (prepareDirectory (fst s)))) (w_fs (snd s))"
  defines "oc \<equiv> backup_outcome P fs scfg ''xbstream''"
  defines "un \<equiv> ce_programs V (Unpacker_cmd (NewUnpacker (prepareDirectory (fst s)))) (oc_out oc) (w_fs (snd s))"
  shows "succeeds oc" and "link_holds (links (w_calls (snd s))) (oc_out oc)"
    and "let_in scfg (backup_request cfg (backup_url_of ip n))"
    and "succeeds un" and "w_fs (snd t) = oc_fs un"
proof -
  let ?us = "NewUnpacker (prepareDirectory (fst s))" and ?P = "ce_programs V"
  from call_downloader_None [OF assms(1)] obtain w w' where
    d: "DownloadBackup D cfg (backup_url (fst s) ip) (Unpacker_WriteStream ?P ?us) w = (None, w')"
    and f: "w_fs w = w_fs (snd s)" "w_calls w = w_calls (snd s)" "w_fs (snd t) = w_fs w'"
    unfolding assms(2) by metis
  from unpacker.download_complete [OF d] obtain ur rs u w1 w2 where
    ur: "parse_url (backup_url (fst s) ip) = Inr ur"
    and rs: "d_Do D (w_calls w) (TLS_Config (config_TLS cfg)) (backup_request cfg ur) = Inr rs"
    and ok: "rs_code rs = 200" and un: "Unpacker_WriteStream ?P ?us (rs_body rs) w1 = (None, u, w2)"
    and e: "su_end u \<Longrightarrow> rd_err (rs_body rs) = None \<and> header_Get (rs_trailer rs) TrailerKey = []"
    and fs: "w_fs w1 = w_fs w" "w_fs w' = w_fs w2" by metis
  note un = Unpacker_None [OF un, unfolded fs(1) f(1)]
  have en: "su_end u" using un(4) assms(7) by (simp add: reads_all_def)
  have uu: "ur = backup_url_of ip n" using ur parse_backup_url [OF assms(4,5)] by simp
  have sv: "served P fs scfg links (w_calls w) (TLS_Config (config_TLS cfg)) (backup_request cfg ur) = Inr rs"
    using rs assms(3) by simp
  from e [OF en] have e: "rd_err (rs_body rs) = None" "header_Get (rs_trailer rs) TrailerKey = []" by simp_all
  have q: "url_path ur = ''/backup''" "request_format (backup_request cfg ur) = Some ''xbstream''"
    using backup_url_request [of cfg ip n] uu by simp_all
  note b = served_body [OF sv ok e q assms(6), folded oc_def]
  from b uu f(2) show "succeeds oc" "link_holds (links (w_calls (snd s))) (oc_out oc)"
    "let_in scfg (backup_request cfg (backup_url_of ip n))" by simp_all
  from un(1,2,3) f(3) fs b(3) show "succeeds un" "w_fs (snd t) = oc_fs un"
    by (simp_all add: un_def succeeds_def)
qed

text \<open>
  C2: When the client, talking to this server over connections that may fail or break at any
  point, downloads and unpacks a backup without error, then xtrabackup started and exited
  with 0 on the server, the program that unpacks started and exited with 0 and was given
  exactly the output of xtrabackup, the client file system is what it left, and the
  credentials were those of the server (or mutual TLS authenticates).
\<close>

theorem backup_arrives_whole:
  assumes "downloadAndUnpackBackup V ip s = (None, t)"
    and "cl_downloader (fst s) = DownloadBackup D cfg" and "d_Do D = served P fs scfg links"
    and "plain_host ip" and "BackupServerPort (cl_config (fst s)) = int n"
    and "speaks (backup_outcome P fs scfg ''xbstream'')"
    and "reads_all (ce_programs V) (Unpacker_cmd (NewUnpacker (prepareDirectory (fst s)))) (w_fs (snd s))"
  shows "let oc = backup_outcome P fs scfg ''xbstream'';
      un = ce_programs V (Unpacker_cmd (NewUnpacker (prepareDirectory (fst s)))) (oc_out oc) (w_fs (snd s))
    in oc_start oc = None \<and> oc_exit oc = Exited 0
      \<and> oc_start un = None \<and> oc_exit un = Exited 0 \<and> w_fs (snd t) = oc_fs un
      \<and> (srv_EnableMutualTLS (srv_TLS scfg)
         \<or> Username (config_Credentials cfg) @ '':'' @ Password (config_Credentials cfg)
           = srv_Username (srv_Credentials scfg) @ '':'' @ srv_Password (srv_Credentials scfg))"
  using served_download_None [OF assms] backup_request_let_in [OF served_download_None(3) [OF assms]]
  by (auto simp: succeeds_def Let_def)

text \<open>
  C10: Downloading and unpacking from this server returns nil exactly when xtrabackup
  succeeded on the server, the connection was made and took its whole output, the request
  was let in, and the unpacking program, given that output, exited with 0.
\<close>

theorem download_succeeds_iff:
  assumes "cl_downloader (fst s) = DownloadBackup D cfg" and "d_Do D = served P fs scfg links"
    and "plain_host ip" and "BackupServerPort (cl_config (fst s)) = int n"
    and "speaks (backup_outcome P fs scfg ''xbstream'')"
    and "reads_all (ce_programs V) (Unpacker_cmd (NewUnpacker (prepareDirectory (fst s)))) (w_fs (snd s))"
  shows "(\<exists>t. downloadAndUnpackBackup V ip s = (None, t)) \<longleftrightarrow>
    (let oc = backup_outcome P fs scfg ''xbstream'';
      un = ce_programs V (Unpacker_cmd (NewUnpacker (prepareDirectory (fst s)))) (oc_out oc) (w_fs (snd s))
    in succeeds oc \<and> link_holds (links (w_calls (snd s))) (oc_out oc)
      \<and> let_in scfg (backup_request cfg (backup_url_of ip n)) \<and> succeeds un)"
  (is "?L \<longleftrightarrow> ?R")
proof
  assume ?L
  then obtain t where "downloadAndUnpackBackup V ip s = (None, t)" ..
  from served_download_None [OF this assms] show ?R by (simp add: Let_def)
next
  assume r: ?R
  let ?oc = "backup_outcome P fs scfg ''xbstream''"
  note q = backup_url_request [of cfg ip n]
  from r have "let_in scfg (backup_request cfg (backup_url_of ip n))" "succeeds ?oc"
    "link_holds (links (w_calls (snd s))) (oc_out ?oc)" by (simp_all add: Let_def)
  note si = this
  have "url_path (backup_url_of ip n) = ''/backup''" using q(1) by simp
  from served_answers [where links = links and k = "w_calls (snd s)" and D = D, OF si parse_backup_url [OF assms(3,4)] this q(2)] assms(2)
  have a: "answered D cfg (w_calls (snd s)) (backup_url (fst s) ip) \<lparr>rd_chunks = oc_out ?oc, rd_err = None\<rparr>" by simp
  from r have "succeeds (ce_programs V (Unpacker_cmd (NewUnpacker (prepareDirectory (fst s))))
      (oc_out ?oc) (w_fs (snd s)))" by (simp add: Let_def)
  with http_ok.download_ok [OF assms(1) a, of V] show ?L by (metis reader.select_convs(1))
qed

text \<open>The sample client, with a directory, and the sample server.\<close>

definition sample_state :: cstate where
  "sample_state = (sample_client\<lparr>prepareDirectory := ''/tmp/p''\<rparr>, new_world sample_fs)"

lemma sample_state_simps [simp]:
  "cl_config (fst sample_state) = sample_config" "w_fs (snd sample_state) = sample_fs"
  "cl_downloader (fst sample_state) = DownloadBackup sample_download sample_config"
  "prepareDirectory (fst sample_state) = ''/tmp/p''" "BackupServerPort sample_config = 8081"
  by (simp_all add: sample_state_def sample_client_def sample_config_def new_world_def)

lemma sample_served: "d_Do sample_download = served sample_programs [] sample_server_config (\<lambda>_. Inr (None, None))"
  by (intro ext) (simp add: sample_download_def served_def)

definition sample_answer_of :: "string \<Rightarrow> http_response" where
  "sample_answer_of ip = server_response sample_programs [] sample_server_config None
     (backup_request sample_config (backup_url_of ip 8081))"

abbreviation sample_answer :: http_response where
  "sample_answer \<equiv> sample_answer_of ''10.0.0.1''"

lemma sample_let_in: "let_in sample_server_config (backup_request sample_config (backup_url_of ip n))"
  by (simp add: let_in_def backup_request_def sample_config_def sample_server_config_def BasicAuth_SetBasicAuth)

lemma sample_answer_facts:
  "rs_code (sample_answer_of ip) = 200" "rd_err (rs_body (sample_answer_of ip)) = None"
  "rd_chunks (rs_body (sample_answer_of ip)) = [''tool = x'', [nl]]"
  "header_Get (rs_trailer (sample_answer_of ip)) TrailerKey = []"
proof -
  let ?rq = "backup_request sample_config (backup_url_of ip 8081)"
  have sp: "speaks (backup_outcome sample_programs [] sample_server_config ''xbstream'')"
    by (simp add: sample_outcome exits_def speaks_def)
  note b = backup_response [OF backup_url_request(1) sample_let_in [of ip 8081] backup_url_request(2) sp, of None, folded sample_answer_of_def]
  then show "rs_code (sample_answer_of ip) = 200" "rd_err (rs_body (sample_answer_of ip)) = None"
    "header_Get (rs_trailer (sample_answer_of ip)) TrailerKey = []"
    by (simp_all add: sample_outcome exits_def takes_all_def trailer_keys_agree)
  with b(4) show "rd_chunks (rs_body (sample_answer_of ip)) = [''tool = x'', [nl]]"
    by (simp add: sample_outcome exits_def trailer_keys_agree)
qed

lemma sample_delivers: "server_delivers sample_download sample_config (backup_url (fst sample_state) ''10.0.0.1'') sample_answer"
  unfolding server_delivers_def
  using sample_answer_facts parse_backup_url [OF sample_host, of "fst sample_state" 8081]
  unfolding answers_at_def
  by (simp add: sample_answer_of_def sample_download_def)

theorem backup_arrives_whole_witness:
  "\<exists>t. downloadAndUnpackBackup sample_env ''10.0.0.1'' sample_state = (None, t)
     \<and> fs_lookup (w_fs (snd t)) [''tmp'', ''p'', ''xtrabackup_info''] = Some (File 420 (''tool = x'' @ [nl]))"
proof -
  have u: "ce_programs sample_env (Unpacker_cmd (NewUnpacker ''/tmp/p'')) input fs =
      (exits 0 [] (fs_put [''tmp'', ''p'', ''xtrabackup_info''] (File 420 (concat input)) fs))\<lparr>oc_takes := length input\<rparr>"
    for input fs
  proof -
    have "resolve ''/tmp/p'' = [''tmp'', ''p'']" by code_simp
    then show ?thesis
      by (simp add: sample_env_def sample_programs_def Unpacker_cmd_def NewUnpacker_def exec_Command_def)
  qed
  obtain t where t: "downloadAndUnpackBackup sample_env ''10.0.0.1'' sample_state = (None, t)"
    by (rule http_ok.download_ok [OF _ server_answered [OF sample_delivers, rule_format], of sample_env])
      (simp_all add: u succeeds_def exits_def)
  have "reads_all (ce_programs sample_env) (Unpacker_cmd (NewUnpacker ''/tmp/p'')) fs" for fs
    by (simp add: reads_all_def u exits_def)
  with backup_arrives_whole [OF t _ sample_served sample_host, of sample_config 8081] t show ?thesis
    by (auto simp: sample_outcome exits_def speaks_def u fs_lookup_put Let_def)
qed

text \<open>The sample client when its connection breaks after one chunk.\<close>

definition broken_download :: download_env where
  "broken_download = sample_download\<lparr>d_Do := served sample_programs [] sample_server_config (\<lambda>_. Inr (None, Some 1))\<rparr>"

definition broken_state :: cstate where
  "broken_state = (sample_client\<lparr>prepareDirectory := ''/tmp/p'', cl_downloader := DownloadBackup broken_download sample_config\<rparr>,
     new_world sample_fs)"

theorem download_succeeds_iff_witness:
  "\<not> (\<exists>t. downloadAndUnpackBackup sample_env ''10.0.0.1'' broken_state = (None, t))"
proof -
  have "reads_all (ce_programs sample_env) (Unpacker_cmd (NewUnpacker d)) fs" for d fs
    by (simp add: reads_all_def sample_env_def sample_programs_def Unpacker_cmd_def NewUnpacker_def
        exec_Command_def exits_def)
  moreover have "BackupServerPort (cl_config (fst broken_state)) = int 8081"
    by (simp add: broken_state_def sample_client_def sample_config_def)
  moreover have "speaks (backup_outcome sample_programs [] sample_server_config ''xbstream'')"
    by (simp add: sample_outcome exits_def speaks_def)
  ultimately show ?thesis
    using download_succeeds_iff [OF _ _ sample_host, of broken_state broken_download sample_config sample_programs "[]"
        sample_server_config "\<lambda>_. Inr (None, Some 1)" 8081 sample_env]
    by (simp add: broken_state_def broken_download_def link_holds_def Let_def)
qed

end
