(* ===== verification/Client_Properties.thy ===== *)
theory Client_Properties
  imports Download_Properties
begin

text \<open>
  What the backup client guarantees: which files a run can touch, what a successful run has
  left behind, when a run succeeds, which instance is chosen, and what can be read back from
  the artifacts.
\<close>

subsection \<open>The sample satisfies the conditions\<close>

lemma sample_no_faults: "no_faults (ce_os sample_env)"
  by (simp add: no_faults_def sample_env_def sample_os_def)

lemma sample_client_simps [simp]:
  "cl_config sample_client = sample_config" "cl_downloader sample_client = DownloadBackup sample_download sample_config"
  "TmpDir sample_config = ''/tmp''" "OutputDir sample_config = ''/out''" "BackupAllMasters sample_config"
  "Instances sample_config = [\<lparr>Address = ''10.0.0.1'', UUID = ''a''\<rparr>, \<lparr>Address = ''10.0.0.2'', UUID = ''b''\<rparr>]"
  "dirs_ok sample_client" "cl_backupPreparer sample_client = BackupPreparer_Command"
  "cl_tarClient sample_client = NewGnuTarClient" "cl_metadataFields sample_client = [(''compressed'', ''N'')]"
  by (simp_all add: sample_client_def sample_config_def)

lemma sample_resolve [simp]: "resolve ''/tmp'' = [''tmp'']" "resolve ''/out'' = [''out'']"
  by code_simp+

lemma sample_program_runs:
  "sample_programs (Unpacker_cmd (NewUnpacker d)) input fs =
     (exits 0 [] (fs_put (resolve d @ [''xtrabackup_info'']) (File 420 (concat input)) fs))\<lparr>oc_takes := length input\<rparr>"
  "sample_programs (BackupPreparer_Command d) input fs = exits 0 [] fs"
  "sample_programs (TarClient_Tar NewGnuTarClient d) input fs
     = exits 0 [file_text fs (resolve d @ [''xtrabackup_info''])] fs"
  by (simp_all add: sample_programs_def Unpacker_cmd_def NewUnpacker_def exec_Command_def
      BackupPreparer_Command_def TarClient_Tar_def NewGnuTarClient_def NewTarClient_def)

lemma sample_frame_ok: "frame_ok sample_env sample_client"
  by (auto simp: frame_ok_def programs_confined_def confined_def sample_env_def sample_program_runs exits_def
      within_def intro: same_except_put)

lemma sample_programs_work: "programs_work (ce_programs sample_env) sample_client input"
  by (auto simp: programs_work_def sample_env_def sample_program_runs exits_def succeeds_def has_info_def
      is_file_def fs_lookup_put Let_def)

lemma sample_output_apart: "output_apart sample_config"
  by (auto simp: output_apart_def tmp_region_def temp_entry_def within_def)

lemma sample_start_ready: "start_ready sample_config sample_fs"
proof -
  have "fs_wf sample_fs" "fs_plain sample_fs" "list_all no_meta [''tmp'']" by code_simp+
  moreover have "fs_lookup sample_fs q \<noteq> Some Dir" if "artifact_region sample_config uuid q" for uuid q
    using that by (auto simp: artifact_region_def sample_fs_def fs_lookup_def)
  ultimately show ?thesis
    using sample_output_apart by (simp add: start_ready_def sample_fs_def fs_lookup_def)
qed

lemma sample_delivers_first:
  "server_delivers sample_download sample_config (backup_url sample_client ''10.0.0.1'') sample_answer"
  using sample_delivers by (simp add: backup_url_def)

definition sample_start :: cstate where
  "sample_start = (sample_client, new_world sample_fs)"

lemma sample_start_simps [simp]:
  "fst sample_start = sample_client" "w_fs (snd sample_start) = sample_fs"
  by (simp_all add: sample_start_def new_world_def)

lemma sample_run:
  obtains t where "Execute sample_env sample_start = (Returned None, t)"
proof -
  have "\<exists>t. Execute sample_env sample_start = (Returned None, t)"
    by (rule http_ok.Execute_ok [OF sample_no_faults, of sample_start sample_download sample_config
          "\<lparr>Address = ''10.0.0.1'', UUID = ''a''\<rparr>" "rs_body sample_answer"])
      (simp_all add: sample_start_ready sample_frame_ok sample_programs_work server_answered [OF sample_delivers_first],
       simp_all add: sample_env_def sample_pgp_def)
  with that show thesis by blast
qed

subsection \<open>Runs\<close>

text \<open>
  C5: However Execute ends, it changes no file outside the artifacts of the configured
  instances and the working directories of the client below TmpDir.
\<close>

theorem Execute_frame:
  assumes "cl_downloader (fst s) = DownloadBackup D c" and "frame_ok V (fst s)" and "dirs_ok (fst s)"
    and "list_all no_meta (resolve (TmpDir (cl_config (fst s))))" and "fs_plain (w_fs (snd s))"
  shows "same_except (run_region (cl_config (fst s))) (w_fs (snd s)) (w_fs (snd (snd (Execute V s))))"
  using http.evolves_Execute [OF assms] by (simp add: evolves_def)

theorem Execute_frame_witness:
  "fs_lookup (w_fs (snd (snd (Execute sample_env (sample_client, new_world (([''etc''], Dir) # sample_fs)))))) [''etc'']
     = Some Dir"
proof -
  let ?s = "(sample_client, new_world (([''etc''], Dir) # sample_fs))"
  have "fs_plain (([''etc''], Dir) # sample_fs)" "list_all no_meta [''tmp'']" by code_simp+
  then have f: "same_except (run_region sample_config) (([''etc''], Dir) # sample_fs) (w_fs (snd (snd (Execute sample_env ?s))))"
    using Execute_frame [of ?s sample_download sample_config sample_env] sample_frame_ok
    by (simp add: new_world_def)
  have "\<not> run_region sample_config [''etc'']"
    by (auto simp: run_region_def tmp_region_def temp_entry_def within_def artifact_region_def prefix_def)
  from same_exceptD [OF f this] show ?thesis by (simp add: fs_lookup_def [of "_ # _"])
qed

text \<open>
  When Execute returns nil, an instance of the configuration has been backed up: its
  encrypted archive holds the whole output of a tar run that exited with 0 and its metadata
  file holds the final fields, and both are still there after the working directories were
  removed.
\<close>

theorem Execute_success_leaves_artifacts:
  assumes "Execute V s = (Returned None, t)" and "cl_downloader (fst s) = DownloadBackup D c"
    and "no_faults (ce_os V)" and "frame_ok V (fst s)" and "dirs_ok (fst s)" and "output_apart (cl_config (fst s))"
    and "list_all no_meta (resolve (TmpDir (cl_config (fst s))))" and "fs_plain (w_fs (snd s))"
    and "distinct (map UUID (Instances (cl_config (fst s))))"
  shows "\<exists>i \<in> set (Instances (cl_config (fst s))). \<exists>c'. base c' = base (fst s)
    \<and> node_backed_up V c' (UUID i) (w_fs (snd t))"
  using http.Execute_None [OF assms(1) _ assms(7-9), unfolded http.run_ok_def instance_ok_def] assms(2-6) by blast

theorem Execute_success_leaves_artifacts_witness:
  "\<exists>t i c'. Execute sample_env sample_start = (Returned None, t) \<and> i \<in> set (Instances sample_config)
     \<and> base c' = base sample_client \<and> node_backed_up sample_env c' (UUID i) (w_fs (snd t))"
proof -
  obtain t where t: "Execute sample_env sample_start = (Returned None, t)" by (rule sample_run)
  have "fs_plain sample_fs" "list_all no_meta [''tmp'']" by code_simp+
  with Execute_success_leaves_artifacts [OF t, of sample_download sample_config]
  have "\<exists>i \<in> set (Instances sample_config). \<exists>c'. base c' = base sample_client
    \<and> node_backed_up sample_env c' (UUID i) (w_fs (snd t))"
    using sample_no_faults sample_frame_ok sample_output_apart by (simp del: sample_client_simps(6)) simp
  with t show ?thesis by blast
qed

text \<open>
  When directories exist, no call of the system fails, the server delivers the backup of
  the chosen instance and the programs exit with 0, Execute returns nil.
\<close>

theorem Execute_succeeds:
  assumes "no_faults (ce_os V)" and "start_ready (cl_config (fst s)) (w_fs (snd s))"
    and "cl_downloader (fst s) = DownloadBackup D cfg" and "frame_ok V (fst s)"
    and "snd (pgp_init (ce_pgp V) (ck_key (cl_encryptor (fst s)))) = None"
    and "Instances (cl_config (fst s)) \<noteq> []"
    and "BackupAllMasters (cl_config (fst s)) \<or> \<not> BackupFromInactiveNode (cl_config (fst s))"
    and "server_delivers D cfg (backup_url (fst s) (Address
      ((if BackupAllMasters (cl_config (fst s)) then hd else last) (Instances (cl_config (fst s)))))) rs"
    and "programs_work (ce_programs V) (fst s) (rd_chunks (rs_body rs))"
  shows "\<exists>t. Execute V s = (Returned None, t)"
  using http_ok.Execute_ok [OF assms(1-7) refl server_answered [OF assms(8), rule_format] assms(9)] .

theorem Execute_succeeds_witness: "fst (Execute sample_env sample_start) = Returned None"
  using Execute_succeeds [OF sample_no_faults, of sample_start sample_download sample_config sample_answer]
    sample_start_ready sample_frame_ok sample_programs_work sample_delivers_first
  by (auto simp: sample_env_def sample_pgp_def)



text \<open>Cleaning up keeps the client.\<close>

lemma cleanTmp_client: "fst (snd (cleanTmpDirectories V s)) = fst s"
proof -
  obtain r w where g: "filepath_Glob (ce_os V) (path_Join (TmpDir (cl_config (fst s))) ''mysql-backup*'')
      (snd (clog DEBUG ''Cleaning tmp directory'' None [(''tmpDirectory'', LStr (TmpDir (cl_config (fst s))))] s)) = (r, w)"
    by (metis surj_pair)
  have "kept (\<lambda>_. True) (fst s, w) (snd (run_steps (map (remove_tmp V) ds
      @ [log_step DEBUG ''Cleaned tmp directory'' (\<lambda>_. [])]) (fst s, w)))" for ds
    by (rule kept_run_steps) (auto intro: kept_remove_tmp kept_log_step)
  from kept_client [OF this] g show ?thesis
    by (simp add: cleanTmpDirectories_def Let_def split: sum.split)
qed

text \<open>
  C31: Execute panics exactly when there are no instances, neither BackupAllMasters nor
  BackupFromInactiveNode is set and the old working directories could be removed.
\<close>

theorem Execute_panics_iff:
  "(\<exists>x t. Execute V s = (Panicked x, t)) \<longleftrightarrow>
     fst (cleanTmpDirectories V s) = None \<and> \<not> BackupAllMasters (cl_config (fst s))
     \<and> \<not> BackupFromInactiveNode (cl_config (fst s)) \<and> Instances (cl_config (fst s)) = []"
proof -
  obtain e s1 where c: "cleanTmpDirectories V s = (e, s1)" by (metis surj_pair)
  then have f: "fst s1 = fst s" using cleanTmp_client [of V s] by simp
  have ch: "(\<exists>x t. choose_instances s1 = (Panicked x, t)) \<longleftrightarrow> \<not> BackupAllMasters (cl_config (fst s))
     \<and> \<not> BackupFromInactiveNode (cl_config (fst s)) \<and> Instances (cl_config (fst s)) = []"
    unfolding choose_instances_def Let_def f by (auto split: prod.split)
  show ?thesis
  proof (cases e)
    case None
    have "(\<exists>x t. Execute V s = (Panicked x, t)) \<longleftrightarrow> (\<exists>x t. choose_instances s1 = (Panicked x, t))"
      using c None by (simp add: Execute_def split: prod.split run.split sum.split)
    with ch c None show ?thesis by simp
  qed (use c in \<open>simp add: Execute_def\<close>)
qed

text \<open>
  When BackupNode returns nil, the archive and the metadata of the instance are in the
  output directory, the configuration of the client is unchanged, and its prepare directory
  is a fresh entry of TmpDir.
\<close>

theorem BackupNode_success:
  assumes "BackupNode V inst s = (None, t)" and "cl_downloader (fst s) = DownloadBackup D c"
    and "no_faults (ce_os V)" and "frame_ok V (fst s)" and "inst \<in> set (Instances (cl_config (fst s)))"
  shows "node_backed_up V (fst t) (UUID inst) (w_fs (snd t)) \<and> base (fst t) = base (fst s)
    \<and> cl_version (fst t) = cl_version (fst s)
    \<and> temp_entry (TmpDir (cl_config (fst s))) ''mysql-backup-prepare'' (resolve (prepareDirectory (fst t)))"
  using http.BackupNode_None [OF assms] by blast

lemma sample_backup:
  obtains t where "BackupNode sample_env \<lparr>Address = ''10.0.0.1'', UUID = ''a''\<rparr>
    (sample_client, new_world [([''tmp''], Dir), ([''out''], Dir)]) = (None, t)"
proof -
  let ?fs = "[([''tmp''], Dir), ([''out''], Dir)]"
  have "fs_wf ?fs" by code_simp
  then have "dirs_ready sample_config ?fs"
    by (auto simp: dirs_ready_def fs_lookup_def temp_entry_def artifact_region_def)
  then have "\<exists>t. BackupNode sample_env \<lparr>Address = ''10.0.0.1'', UUID = ''a''\<rparr> (sample_client, new_world ?fs) = (None, t)"
    by (intro http_ok.BackupNode_ok [OF sample_no_faults, of _ sample_download sample_config _ "rs_body sample_answer"])
      (simp_all add: sample_frame_ok sample_programs_work server_answered [OF sample_delivers_first] sample_output_apart new_world_def,
       simp add: sample_env_def sample_pgp_def)
  with that show thesis by blast
qed

theorem BackupNode_success_witness:
  "\<exists>t. BackupNode sample_env \<lparr>Address = ''10.0.0.1'', UUID = ''a''\<rparr>
       (sample_client, new_world [([''tmp''], Dir), ([''out''], Dir)]) = (None, t)
     \<and> node_backed_up sample_env (fst t) ''a'' (w_fs (snd t)) \<and> base (fst t) = base sample_client"
proof -
  obtain t where t: "BackupNode sample_env \<lparr>Address = ''10.0.0.1'', UUID = ''a''\<rparr>
    (sample_client, new_world [([''tmp''], Dir), ([''out''], Dir)]) = (None, t)" by (rule sample_backup)
  from BackupNode_success [OF t, of sample_download sample_config] t show ?thesis
    by (intro exI [of _ t]) (simp add: sample_no_faults sample_frame_ok)
qed

subsection \<open>The choice of the instance\<close>

text \<open>
  C16: When backing up from the inactive node, the instance chosen is the last of those with
  the highest wsrep_local_index among the healthy ones, and there is an error exactly when
  no instance is healthy.
\<close>

theorem inactive_node_chosen:
  assumes "cl_galeraAgentCaller (fst s) = WsrepLocalIndex g G"
    and "BackupFromInactiveNode (cl_config (fst s))" and "\<not> BackupAllMasters (cl_config (fst s))"
    and "\<forall>i \<in> set (Instances (cl_config (fst s))). Address i \<noteq> []"
  shows "let is = Instances (cl_config (fst s)); idx = node_index (WsrepLocalIndex g G) in
    (if \<exists>j \<in> set is. 0 \<le> idx j
     then \<exists>i t. choose_instances s = (Returned (Inr [i]), t) \<and> i \<in> set is
       \<and> i = last (filter (\<lambda>j. idx j = idx i) is) \<and> (\<forall>j \<in> set is. idx j \<le> idx i)
       \<and> snd (WsrepLocalIndex g G (Address i)) = None
     else \<exists>t. choose_instances s = (Returned (Inl (ErrorString ''No healthy nodes found'')), t))"
proof -
  let ?is = "Instances (cl_config (fst s))" and ?f = "node_index (WsrepLocalIndex g G)"
  obtain i t where sel: "select_instance (WsrepLocalIndex g G) ?is 0 no_instance s = (i, t)" by (metis surj_pair)
  have ch: "choose_instances s = (if Address i = [] then (Returned (Inl (ErrorString ''No healthy nodes found'')), t)
      else (Returned (Inr [i]), t))"
    using assms(1-3) sel by (simp add: choose_instances_def Let_def)
  have fi: "i = (if \<exists>j \<in> set ?is. 0 \<le> ?f j then last (filter (\<lambda>j. ?f j = Max (?f ` set ?is)) ?is) else no_instance)"
    using select_instance_last_max [of "WsrepLocalIndex g G" ?is 0 no_instance s] sel by simp
  show ?thesis
  proof (cases "\<exists>j \<in> set ?is. 0 \<le> ?f j")
    case True
    let ?m = "Max (?f ` set ?is)" and ?ms = "filter (\<lambda>j. ?f j = Max (?f ` set ?is)) ?is"
    have "?m \<in> ?f ` set ?is" using True by (intro Max_in) auto
    then have "?ms \<noteq> []" by (auto simp: filter_empty_conv)
    then have "last ?ms \<in> set ?ms" by (rule last_in_set)
    then have i: "i \<in> set ?is" "?f i = ?m" using fi True by simp_all
    have mx: "?f j \<le> ?f i" if "j \<in> set ?is" for j using i(2) that by simp
    from True mx have "0 \<le> ?f i" by (meson order_trans)
    then have "snd (WsrepLocalIndex g G (Address i)) = None"
      using galera.healthy_index [of g G "Address i"] by (simp add: node_index_def prod_eq_iff)
    moreover have "i = last (filter (\<lambda>j. ?f j = ?f i) ?is)" using fi True i(2) by simp
    moreover have "Address i \<noteq> []" using assms(4) i(1) by blast
    ultimately show ?thesis using True i(1) mx ch by (simp add: Let_def)
  next
    case False
    with fi have "Address i = []" by (simp add: no_instance_def)
    with False ch show ?thesis by (simp add: Let_def)
  qed
qed

text \<open>Two nodes, the second one unhealthy.\<close>

definition sample_agents :: "tls_config option \<Rightarrow> request \<Rightarrow> go_error + http_response" where
  "sample_agents tls rq = Inr \<lparr>rs_code = 200, rs_status = ''200 OK'', rs_header = [],
     rs_body = \<lparr>rd_chunks = [status_doc 2 (hd (url_host (rq_url rq)) = CHR ''a'')], rd_err = None\<rparr>, rs_trailer = []\<rparr>"

definition sample_pair :: cstate where
  "sample_pair = (sample_client\<lparr>cl_config := sample_config\<lparr>BackupAllMasters := False, BackupFromInactiveNode := True,
       Instances := [\<lparr>Address = ''a'', UUID = ''u''\<rparr>, \<lparr>Address = ''b'', UUID = ''v''\<rparr>]\<rparr>,
     cl_galeraAgentCaller := WsrepLocalIndex \<lparr>gac_GaleraAgentPort = 1, gac_TLSEnabled = False, gac_HTTPClient = None\<rparr>
       sample_agents\<rparr>, new_world [])"

lemma sample_indices:
  defines "g \<equiv> \<lparr>gac_GaleraAgentPort = 1, gac_TLSEnabled = False, gac_HTTPClient = None\<rparr>"
  shows "WsrepLocalIndex g sample_agents ''a'' = (2, None)"
    and "fst (WsrepLocalIndex g sample_agents ''b'') = -1"
proof -
  have u: "status_url g ''a'' = ''http://a:1/api/v1/status''" "status_url g ''b'' = ''http://b:1/api/v1/status''"
    unfolding g_def by code_simp+
  have p: "case parse_url ''http://a:1/api/v1/status'' of Inl e \<Rightarrow> False | Inr x \<Rightarrow> url_host x = ''a:1''"
    "case parse_url ''http://b:1/api/v1/status'' of Inl e \<Rightarrow> False | Inr x \<Rightarrow> url_host x = ''b:1''"
    by code_simp+
  note d = unmarshal_status_doc [of 2]
  show "WsrepLocalIndex g sample_agents ''a'' = (2, None)"
    using p(1) d by (auto simp: WsrepLocalIndex_def u sample_agents_def rd_data_def Let_def split: sum.splits)
  show "fst (WsrepLocalIndex g sample_agents ''b'') = -1"
    using p(2) d by (auto simp: WsrepLocalIndex_def u sample_agents_def rd_data_def Let_def split: sum.splits)
qed

theorem inactive_node_chosen_witness:
  "\<exists>t. choose_instances sample_pair = (Returned (Inr [\<lparr>Address = ''a'', UUID = ''u''\<rparr>]), t)"
proof -
  let ?g = "\<lparr>gac_GaleraAgentPort = 1, gac_TLSEnabled = False, gac_HTTPClient = None\<rparr>"
  have i: "node_index (WsrepLocalIndex ?g sample_agents) \<lparr>Address = ''a'', UUID = ''u''\<rparr> = 2"
    "node_index (WsrepLocalIndex ?g sample_agents) \<lparr>Address = ''b'', UUID = ''v''\<rparr> = -1"
    by (simp_all add: node_index_def sample_indices)
  have cfg: "cl_galeraAgentCaller (fst sample_pair) = WsrepLocalIndex ?g sample_agents"
    "Instances (cl_config (fst sample_pair)) = [\<lparr>Address = ''a'', UUID = ''u''\<rparr>, \<lparr>Address = ''b'', UUID = ''v''\<rparr>]"
    "BackupFromInactiveNode (cl_config (fst sample_pair))" "\<not> BackupAllMasters (cl_config (fst sample_pair))"
    by (simp_all add: sample_pair_def)
  from inactive_node_chosen [OF cfg(1,3,4)] show ?thesis
    unfolding cfg(2) Let_def by (auto simp: i)
qed

end
