(* ===== verification/Artifact_Properties.thy ===== *)
theory Artifact_Properties
  imports Client_Properties
begin

text \<open>
  What can be done with the artifacts: reading the metadata back, decrypting the archive; and
  what the file helpers and the two ends of the encryption promise.
\<close>

subsection \<open>The metadata file\<close>

lemma file_text_File: "fs_lookup fs p = Some (File m c) \<Longrightarrow> file_text fs p = c"
  by (simp add: file_text_def)


lemma small_fields_ok: "field_ok (''tool'', ''x'')" "field_ok (''compressed'', ''N'')" "field_ok (''a'', ''b'')"
proof -
  have "list_all trimmed [''tool'', ''x'', ''compressed'', ''N'', ''a'', ''b'']" by code_simp
  then show "field_ok (''tool'', ''x'')" "field_ok (''compressed'', ''N'')" "field_ok (''a'', ''b'')"
    by (simp_all add: field_ok_def MaxScanTokenSize_def)
qed

definition prepared_state :: cstate where
  "prepared_state = (sample_client\<lparr>prepareDirectory := ''/tmp/p''\<rparr>, new_world [([''tmp''], Dir), ([''out''], Dir),
     ([''tmp'', ''p''], Dir), ([''tmp'', ''p'', ''xtrabackup_info''], File 420 (''tool = x'' @ [nl]))])"

lemma sample_p [simp]: "resolve ''/tmp/p'' = [''tmp'', ''p'']"
  by code_simp

lemma prepared_state_simps [simp]:
  "cl_config (fst prepared_state) = sample_config" "prepareDirectory (fst prepared_state) = ''/tmp/p''"
  "cl_metadataFields (fst prepared_state) = [(''compressed'', ''N'')]"
  "w_fs (snd prepared_state) = [([''tmp''], Dir), ([''out''], Dir), ([''tmp'', ''p''], Dir),
     ([''tmp'', ''p'', ''xtrabackup_info''], File 420 (''tool = x'' @ [nl]))]"
  by (simp_all add: prepared_state_def new_world_def)

lemma prepared_dirs: "dirs_to (w_fs (snd prepared_state)) [''out'']" "dirs_to (w_fs (snd prepared_state)) [''tmp'', ''p'']"
proof -
  have "fs_wf (w_fs (snd prepared_state))" by simp code_simp
  then show "dirs_to (w_fs (snd prepared_state)) [''out'']" "dirs_to (w_fs (snd prepared_state)) [''tmp'', ''p'']"
    by (rule dirs_to_wf; simp add: fs_lookup_def)+
qed

lemma prepared_metadata:
  obtains t where "writeMetadataFile sample_env ''a'' prepared_state = (None, t)"
proof -
  have "fs_lookup (w_fs (snd prepared_state)) (resolve (finalMetadataLocation (fst prepared_state) ''a'')) \<noteq> Some Dir"
    by (simp add: artifact_locations fs_lookup_def)
  then have "\<exists>t. writeMetadataFile sample_env ''a'' prepared_state = (None, t)"
    using prepared_dirs
    by (intro metadata_ok [OF sample_no_faults]) (simp_all add: is_file_def fs_lookup_def)
  with that show thesis by blast
qed


text \<open>
  C35: A line of 64 KiB or more in the metadata of xtrabackup ends the reading without an
  error: ExtractFileFields returns the fields before it as if they were all.
\<close>

theorem scan_limit_hides_fields:
  assumes "ExtractFileFields E p w = (r, w')" and "no_faults E" and "open_err (w_fs w) p = None"
    and "file_text (w_fs w) (resolve p) = fields_text kvs @ l @ rest"
    and "list_all field_ok kvs" and "gomap_ok kvs" and "nl \<notin> set l" and "too_long l"
  shows "\<exists>m. r = Inr m \<and> map_of m = map_of kvs"
proof -
  from ExtractFileFields_ok [OF assms(2,3)] assms(1) obtain m where r: "r = Inr m" by auto
  with Extract_no_faults(1) [of E p w m w'] assms(1,2,4)
  have m: "m = extract_fields (fst (scan_lines (fields_text kvs @ l @ rest))) []" by simp
  have "fst (scan_lines (fields_text kvs @ l @ rest)) = fst (scan_lines (fields_text kvs))"
    by (rule scan_fields_too_long [OF assms(5,7,8)])
  with r m extract_fields_text [OF assms(5,6)] show ?thesis by simp
qed

definition long_line :: string where
  "long_line = replicate 65536 CHR ''a''"

lemma long_line_facts: "nl \<notin> set long_line" "too_long long_line"
  by (simp_all only: long_line_def too_long_def MaxScanTokenSize_def length_replicate set_replicate_conv_if) simp_all

definition long_file :: fs where
  "long_file = [([''f''], File 420 (fields_text [(''a'', ''b'')] @ long_line @ ''=c''))]"

theorem scan_limit_hides_fields_witness:
  "\<exists>m w'. ExtractFileFields (ce_os sample_env) ''/f'' (new_world long_file) = (Inr m, w') \<and> map_of m = [''a'' \<mapsto> ''b'']"
proof -
  have p: "resolve ''/f'' = [''f'']" by code_simp
  have o: "open_err (w_fs (new_world long_file)) ''/f'' = None"
    by (simp add: open_err_def p long_file_def new_world_def fs_lookup_def)
  have f: "file_text (w_fs (new_world long_file)) (resolve ''/f'') = fields_text [(''a'', ''b'')] @ long_line @ ''=c''"
    by (simp add: p file_text_def long_file_def new_world_def fs_lookup_def)
  obtain r w' where e: "ExtractFileFields (ce_os sample_env) ''/f'' (new_world long_file) = (r, w')"
    by (metis surj_pair)
  have k: "list_all field_ok [(''a'', ''b'')]" by (simp add: small_fields_ok)
  from scan_limit_hides_fields [OF e sample_no_faults o f k] e show ?thesis
    by (auto simp: gomap_ok_def long_line_facts)
qed

subsection \<open>The archive\<close>



end
