(* ===== verification/Component_Properties.thy ===== *)
theory Component_Properties
  imports Artifact_Properties
begin

text \<open>
  Properties of the single components of the client: decryption asks for its passphrase at
  most once, the answer of the galera agent, where the configuration and the key come from,
  the working directories, and the file helpers.
\<close>

subsection \<open>Encryption\<close>


text \<open>
  C15: For a message that the passphrase does not open, Decrypt returns its own error and
  writes nothing, while the same loop with a prompt that has no guard would run forever.
\<close>

theorem wrong_passphrase_reported:
  assumes "pgp_packets L input = (SymKeyPacket s # EncryptedPacket se # ps, e)"
    and "try_symkeys L se (ck_key this) [s] = Inr None"
  shows "Decrypt L this input output t =
      Some (Returned (Some (ErrorString ''Could not decrypt data using supplied passphrase'')), t)
    \<and> ReadMessage n L (\<lambda>p. (Inr (ck_key this), p)) p input = None"
proof
  have "ReadMessage prompt_fuel L (key_prompt this) False input
      = Some (Returned (Inl (ErrorString ''Could not decrypt data using supplied passphrase'')))"
    using assms FindKey_guarded [of prompt_fuel L this "[s]" se]
    by (simp add: ReadMessage_def prompt_fuel_def del: FindKey.simps try_symkeys.simps)
  then show "Decrypt L this input output t =
      Some (Returned (Some (ErrorString ''Could not decrypt data using supplied passphrase'')), t)"
    by (simp add: Decrypt_def)
  show "ReadMessage n L (\<lambda>p. (Inr (ck_key this), p)) p input = None"
    using assms FindKey_unguarded [of "[s]" L se "ck_key this" n p]
    by (simp add: ReadMessage_def del: FindKey.simps try_symkeys.simps)
qed

theorem wrong_passphrase_reported_witness:
  "Decrypt sample_pgp (NewCryptKeeper ''x'') (message_text sample_pgp ''key'' [''data'']) collect [] =
      Some (Returned (Some (ErrorString ''Could not decrypt data using supplied passphrase'')), [])
   \<and> ReadMessage 100 sample_pgp (\<lambda>p. (Inr ''x'', p)) () (message_text sample_pgp ''key'' [''data'']) = None"
proof -
  let ?m = "message_text sample_pgp ''key'' [''data'']"
  have m: "?m = ''keydata!''" by (simp add: sample_message)
  have p: "pgp_packets sample_pgp ?m = (SymKeyPacket [] # EncryptedPacket ?m # [], ErrUnexpectedEOF)"
    by (simp add: sample_pgp_def)
  have t: "try_symkeys sample_pgp ?m (ck_key (NewCryptKeeper ''x'')) [[]] = Inr None"
    unfolding m by (simp add: sample_pgp_def NewCryptKeeper_def HasPrefix_def)
  from wrong_passphrase_reported [OF p t, of collect "[]" 100 "()"] show ?thesis
    by (simp add: NewCryptKeeper_def)
qed

text \<open>
  C30: Encrypt returns nil exactly when the encryption could be set up, the input ended
  without an error, and everything up to the end of the message could be written: a failure
  to write the end of the message is not reported.
\<close>

theorem Encrypt_succeeds_iff:
  "(\<exists>t. Encrypt L this r wr s = (None, t)) \<longleftrightarrow>
     snd (pgp_init L (ck_key this)) = None \<and> rd_err r = None
     \<and> (\<exists>t. run_steps (map wr (message_head L (ck_key this) (rd_chunks r))) s = (None, t))"
  by (auto simp: Encrypt_None_iff)

subsection \<open>The galera agent\<close>

text \<open>
  C21: The status document of a node is read back: a healthy node answered with 200 gives
  its index, every other answer the index -1 and the error for it.
\<close>

theorem agent_answer_read:
  assumes "parse_url (status_url g ip) = Inr u"
    and "G (gac_HTTPClient g) \<lparr>rq_method = ''GET'', rq_url = u, rq_header = []\<rparr> = Inr resp"
    and "rd_err (rs_body resp) = None" and "rd_data (rs_body resp) = status_doc i h" and "int i < 2 ^ 63"
  shows "WsrepLocalIndex g G ip =
    (if rs_code resp = 200 \<and> h then (int i, None)
     else (-1, Some (ErrorString (if rs_code resp = 200 then ''Node is not healthy''
       else rs_status resp @ '': Error response from node: '' @ TrimSpace (status_doc i h)))))"
  using assms(1-4) by (simp add: WsrepLocalIndex_def Let_def unmarshal_status_doc [OF assms(5)])

theorem agent_answer_read_witness:
  "WsrepLocalIndex \<lparr>gac_GaleraAgentPort = 1, gac_TLSEnabled = False, gac_HTTPClient = None\<rparr> sample_agents ''a''
    = (2, None)"
proof -
  let ?g = "\<lparr>gac_GaleraAgentPort = 1, gac_TLSEnabled = False, gac_HTTPClient = None\<rparr>"
  have s: "status_url ?g ''a'' = ''http://a:1/api/v1/status''" by code_simp
  have "case parse_url ''http://a:1/api/v1/status'' of Inl e \<Rightarrow> False | Inr x \<Rightarrow> url_host x = ''a:1''"
    by code_simp
  then obtain u where u: "parse_url (status_url ?g ''a'') = Inr u" "url_host u = ''a:1''"
    unfolding s by (auto split: sum.splits)
  obtain resp where r: "sample_agents (gac_HTTPClient ?g) \<lparr>rq_method = ''GET'', rq_url = u, rq_header = []\<rparr> = Inr resp"
    "rd_err (rs_body resp) = None" "rd_data (rs_body resp) = status_doc 2 True" "rs_code resp = 200"
    using u(2) by (simp add: sample_agents_def rd_data_def)
  from agent_answer_read [where G = sample_agents and i = 2 and h = True, OF u(1) r(1-3)] r(4)
  show ?thesis by simp
qed

subsection \<open>The configuration\<close>

text \<open>
  C20: When the client reads its configuration successfully, the key is that of
  ENCRYPTION_KEY, or of the flag when the variable is unset, unless that is empty; the log
  level is INFO whatever the flag says; TLS uses the configured authority, at least TLS 1.2,
  and a certificate exactly when mutual TLS is enabled.
\<close>

theorem client_config_sources:
  assumes "NewConfig E X getenv unmarshal (binary # args) w = (Returned (None, c), w')" and "keeps_logger unmarshal"
  shows "\<exists>fvs c0 t. flag_Parse (client_flags (getenv ''ENCRYPTION_KEY'' \<noteq> None)) args = Inr fvs
    \<and> service_Read E getenv unmarshal id fvs
        (zero_config\<lparr>config_Logger := NewLogger binary, stdout_level := INFO\<rparr>) w = (None, c0, w')
    \<and> SymmetricKey c =
        (let k = (case getenv ''ENCRYPTION_KEY'' of Some k \<Rightarrow> k | None \<Rightarrow> flag_value fvs ''encryption-key'' [])
         in if k = [] then SymmetricKey c0 else k)
    \<and> stdout_level c = INFO \<and> config_Logger c = NewLogger binary
    \<and> TLS_Config (config_TLS c) = Some t \<and> MinVersion t = VersionTLS12
    \<and> RootCAs t = Some (x_append X (ServerCACert (config_TLS c0))) \<and> x_append X (ServerCACert (config_TLS c0)) \<noteq> []
    \<and> (EnableMutualTLS (config_TLS c0) \<longleftrightarrow> Certificates t \<noteq> [])"
proof -
  let ?r = "zero_config\<lparr>config_Logger := NewLogger binary, stdout_level := INFO\<rparr>"
  have r: "zero_config\<lparr>MetadataFields := [], config_Logger := NewLogger binary, stdout_level := INFO\<rparr> = ?r"
    by (simp add: zero_config_def)
  have l: "the (lager_level ''info'') = INFO" by (simp add: lager_level_def)
  from assms(1) obtain fvs where f: "flag_Parse (client_flags (getenv ''ENCRYPTION_KEY'' \<noteq> None)) args = Inr fvs"
    by (auto simp: NewConfig_def Let_def split: sum.splits)
  obtain e c0 w1 where rd: "service_Read E getenv unmarshal id fvs ?r w = (e, c0, w1)" by (rule prod_cases3)
  obtain e2 tc where tl: "unmarshalTLSConfig X (config_TLS c0) = (e2, tc)" by (rule prod.exhaust)
  note n = assms(1) [unfolded NewConfig_def list.case Let_def l r f sum.case rd prod.case tl]
  have e: "e = None" using n by (cases e) auto
  note n1 = n [unfolded e option.case]
  have e2: "e2 = None" using n1 by (cases e2) auto
  note n2 = n1 [unfolded e2 option.case]
  let ?k = "case getenv ''ENCRYPTION_KEY'' of Some k \<Rightarrow> k | None \<Rightarrow> flag_value fvs ''encryption-key'' []"
  from n2 have w: "w1 = w'" and c: "c = (if ?k \<noteq> [] then c0\<lparr>config_TLS := tc\<rparr>\<lparr>SymmetricKey := ?k\<rparr> else c0\<lparr>config_TLS := tc\<rparr>)"
    by auto
  have lg: "stdout_level c0 = INFO \<and> config_Logger c0 = NewLogger binary"
  proof -
    obtain bytes w2 where b: "ConfigBytes E getenv fvs w = (Inr bytes, w2)"
      using rd e by (auto simp: service_Read_def split: prod.splits sum.splits)
    with rd e have "c0 = snd (unmarshal bytes ?r)" by (auto simp: service_Read_def split: prod.splits option.splits)
    then show ?thesis using assms(2) by (simp add: keeps_logger_def)
  qed
  obtain t where t: "TLS_Config tc = Some t" "RootCAs t = Some (x_append X (ServerCACert (config_TLS c0)))"
    "x_append X (ServerCACert (config_TLS c0)) \<noteq> []" "MinVersion t = VersionTLS12"
    "EnableMutualTLS (config_TLS c0) \<longleftrightarrow> Certificates t \<noteq> []"
    by (rule unmarshalTLSConfig_None [OF tl [unfolded e2]])
  show ?thesis
    by (intro exI [of _ fvs] exI [of _ c0] exI [of _ t] conjI)
      (use f rd [unfolded e w] c lg t in \<open>simp_all add: Let_def\<close>)
qed

definition sample_client_text :: "string \<Rightarrow> client_config \<Rightarrow> err \<times> client_config" where
  "sample_client_text b c = (None, c\<lparr>SymmetricKey := b, config_TLS := (config_TLS c)\<lparr>ServerCACert := ''ca''\<rparr>\<rparr>)"

definition sample_getenv :: "string \<rightharpoonup> string" where
  "sample_getenv = [''ENCRYPTION_KEY'' \<mapsto> ''secret'']"

lemma sample_NewConfig:
  "\<exists>c. NewConfig sample_os sample_x509 sample_getenv sample_client_text
     [''client'', ''-config=text'', ''-logLevel=debug''] (new_world []) = (Returned (None, c), new_world [])"
proof -
  have f: "flag_Parse (client_flags True) [''-config=text'', ''-logLevel=debug'']
      = Inr [(''config'', ''text''), (''logLevel'', ''debug'')]" by code_simp
  show ?thesis
    by (simp add: NewConfig_def sample_getenv_def f service_Read_def ConfigBytes_def flag_value_def
        sample_client_text_def zero_config_def unmarshalTLSConfig_def sample_x509_def tls_option_defs Let_def
        del: flag_Parse.simps)
qed

theorem client_config_sources_witness:
  "\<exists>c w. NewConfig sample_os sample_x509 sample_getenv sample_client_text
     [''client'', ''-config=text'', ''-logLevel=debug''] (new_world []) = (Returned (None, c), w)
     \<and> SymmetricKey c = ''secret'' \<and> stdout_level c = INFO"
proof -
  obtain c where c: "NewConfig sample_os sample_x509 sample_getenv sample_client_text
     [''client'', ''-config=text'', ''-logLevel=debug''] (new_world []) = (Returned (None, c), new_world [])"
    using sample_NewConfig by blast
  have "keeps_logger sample_client_text" by (simp add: keeps_logger_def sample_client_text_def)
  from client_config_sources [OF c this] have "SymmetricKey c = ''secret'' \<and> stdout_level c = INFO"
    by (auto simp: sample_getenv_def)
  with c show ?thesis by blast
qed

text \<open>
  When ENCRYPTION_KEY is set, the flag -encryption-key is unknown and the program exits
  with status 2.
\<close>

theorem key_flag_refused:
  assumes "getenv ''ENCRYPTION_KEY'' = Some k"
  shows "NewConfig E X getenv unmarshal (binary # (''-encryption-key='' @ v) # args) w = (OsExit 2, w)"
proof -
  have "flag_name_value (''encryption-key'' @ CHR ''='' # v) = (''encryption-key'', Some v)"
    unfolding flag_name_value_def by (subst cut_append) simp_all
  then have n: "flag_name_value (''encryption-key='' @ v) = (''encryption-key'', Some v)" by simp
  have "client_flags True ''encryption-key'' = None"
    by (simp add: client_flags_def service_flags_def lager_flags_def)
  with n have "flag_Parse (client_flags True) ((''-encryption-key='' @ v) # args) = Inl 2"
    by (subst flag_Parse.simps(2)) (simp add: Let_def)
  with assms show ?thesis by (simp add: NewConfig_def Let_def del: flag_Parse.simps)
qed

theorem key_flag_refused_witness:
  "NewConfig sample_os sample_x509 sample_getenv sample_client_text [''client'', ''-encryption-key=k'', ''-config=text''] (new_world [])
    = (OsExit 2, new_world [])"
proof -
  have e: "sample_getenv ''ENCRYPTION_KEY'' = Some ''secret''" by (simp add: sample_getenv_def)
  from key_flag_refused [where getenv = sample_getenv, OF e, of sample_os sample_x509 sample_client_text "''client''" "''k''" "[''-config=text'']"]
  show ?thesis by simp
qed

subsection \<open>The working directories\<close>

lemma make_tmp_fresh:
  assumes "make_tmp V set_dir pat s = (None, t)"
  obtains d where "fst t = set_dir d (fst s)" and "fs_lookup (w_fs (snd s)) (resolve d) = None"
    and "fs_lookup (w_fs (snd t)) = (fs_lookup (w_fs (snd s)))(resolve d \<mapsto> Dir)"
proof -
  from assms obtain d w where d: "ioutil_TempDir (ce_os V) (TmpDir (cl_config (fst s))) pat (snd s) = (Inr d, w)"
    and t: "t = (set_dir d (fst s), w)"
    by (auto simp: make_tmp_def split: prod.splits sum.splits)
  from d mkdirtemp_Inr have n: "fs_lookup (w_fs (snd s)) (resolve d) = None"
    and p: "w_fs w = fs_put (resolve d) Dir (w_fs (snd s))"
    unfolding ioutil_TempDir_def Let_def by blast+
  from n have "resolve d \<noteq> []" by (auto simp: fs_lookup_def)
  with n p t show thesis by (intro that [of d]) (auto simp: fs_lookup_put fun_eq_iff)
qed

text \<open>
  C29: createDirectories makes three different directories where there was nothing, and
  changes nothing else in the file system.
\<close>

theorem working_directories_fresh:
  assumes "createDirectories V s = (None, t)"
  shows "let d = resolve (downloadDirectory (fst t)); p = resolve (prepareDirectory (fst t)); e = resolve (encryptDirectory (fst t))
    in distinct [d, p, e]
      \<and> (\<forall>q. fs_lookup (w_fs (snd t)) q = (if q \<in> {d, p, e} then Some Dir else fs_lookup (w_fs (snd s)) q))
      \<and> fs_lookup (w_fs (snd s)) d = None \<and> fs_lookup (w_fs (snd s)) p = None \<and> fs_lookup (w_fs (snd s)) e = None"
proof -
  let ?s1 = "clog DEBUG ''Creating directories'' None [] s"
  from assms obtain s2 s3 s4 where
    m1: "make_tmp V (\<lambda>d. downloadDirectory_update (\<lambda>_. d)) ''mysql-backup-downloads'' ?s1 = (None, s2)"
    and m2: "make_tmp V (\<lambda>d. prepareDirectory_update (\<lambda>_. d)) ''mysql-backup-prepare'' s2 = (None, s3)"
    and m3: "make_tmp V (\<lambda>d. encryptDirectory_update (\<lambda>_. d)) ''mysql-backup-encrypt'' s3 = (None, s4)"
    and t: "t = clog DEBUG ''Created directories'' None (dir_data (fst s4)) s4"
    by (auto simp: createDirectories_def log_step_def)
  from make_tmp_fresh [OF m1] obtain d where 1: "fst s2 = (fst s)\<lparr>downloadDirectory := d\<rparr>"
    "fs_lookup (w_fs (snd s)) (resolve d) = None"
    "fs_lookup (w_fs (snd s2)) = (fs_lookup (w_fs (snd s)))(resolve d \<mapsto> Dir)" by auto
  from make_tmp_fresh [OF m2] obtain p where 2: "fst s3 = (fst s2)\<lparr>prepareDirectory := p\<rparr>"
    "fs_lookup (w_fs (snd s2)) (resolve p) = None"
    "fs_lookup (w_fs (snd s3)) = (fs_lookup (w_fs (snd s2)))(resolve p \<mapsto> Dir)" by auto
  from make_tmp_fresh [OF m3] obtain e where 3: "fst s4 = (fst s3)\<lparr>encryptDirectory := e\<rparr>"
    "fs_lookup (w_fs (snd s3)) (resolve e) = None"
    "fs_lookup (w_fs (snd s4)) = (fs_lookup (w_fs (snd s3)))(resolve e \<mapsto> Dir)" by auto
  have dirs: "downloadDirectory (fst t) = d" "prepareDirectory (fst t) = p" "encryptDirectory (fst t) = e"
    using 1(1) 2(1) 3(1) t by simp_all
  have fs: "w_fs (snd t) = w_fs (snd s4)" using t by simp
  from 1 2 3 show ?thesis unfolding dirs fs Let_def by (auto split: if_splits)
qed

theorem working_directories_fresh_witness:
  "\<exists>t. createDirectories sample_env (sample_client, new_world [([''tmp''], Dir), ([''out''], Dir)]) = (None, t)
     \<and> resolve (downloadDirectory (fst t)) \<noteq> resolve (encryptDirectory (fst t))"
proof -
  let ?s = "(sample_client, new_world [([''tmp''], Dir), ([''out''], Dir)])"
  have "fs_wf [([''tmp''], Dir), ([''out''], Dir)]" by code_simp
  then have "dirs_ready (cl_config (fst ?s)) (w_fs (snd ?s))"
    by (auto simp: dirs_ready_def fs_lookup_def temp_entry_def artifact_region_def new_world_def)
  then obtain t where t: "createDirectories sample_env ?s = (None, t)"
    by (rule createDirectories_ok [OF sample_no_faults])
  from working_directories_fresh [OF t] have "resolve (downloadDirectory (fst t)) \<noteq> resolve (encryptDirectory (fst t))"
    by (simp add: Let_def)
  with t show ?thesis by blast
qed

subsection \<open>File helpers\<close>

text \<open>
  A successful CopyFile leaves content and mode of the source in the destination and
  changes nothing else; copying a file onto itself empties it.
\<close>

theorem CopyFile_copies:
  assumes "CopyFile E dst src w = (None, w')" and "no_faults E"
    and "fs_lookup (w_fs w) (resolve src) = Some (File m c)"
  shows "fs_lookup (w_fs w') (resolve dst) = Some (File m (if resolve src = resolve dst then [] else c))
    \<and> same_except (\<lambda>q. q = resolve dst) (w_fs w) (w_fs w')"
proof -
  have f: "fault_now E v = None" for v by (rule fault_now_none [OF assms(2)])
  let ?d = "resolve dst" and ?s = "resolve src"
  let ?c = "if ?s = ?d then [] else c" and ?m0 = "file_mode (w_fs w) ?d"
  from assms(1) obtain u ua ub where u: "os_Create E dst (ticked w) = (None, u)"
    and rw: "(case os_read_all E src u of (c, rerr, w1) \<Rightarrow> case os_Write E dst c w1 of
        (werr, w2) \<Rightarrow> (if werr \<noteq> None then werr else rerr, w2)) = (None, ua)"
    and cl: "os_Close E dst ua = (None, ub)"
    and st: "(case os_Stat E src ub of (Inl e, w') \<Rightarrow> (Some e, w') | (Inr mode, w') \<Rightarrow> os_Chmod E dst mode w') = (None, w')"
    by (auto simp: CopyFile_def os_Open_def f)
  have d: "?d \<noteq> []" by (rule os_Create_None(3) [OF u])
  from u have fu: "w_fs u = fs_put ?d (File ?m0 []) (w_fs w)"
    by (auto simp: os_Create_def f split: option.splits)
  have m0: "?s = ?d \<Longrightarrow> ?m0 = m" using assms(3) by (simp add: file_mode_def)
  have "os_read_all E src u = (?c, None, ticked u)"
    using assms(3) d by (simp add: os_read_all_def f fu fs_lookup_put)
  with rw have "ua = (ticked (ticked u))\<lparr>w_fs := append_file dst ?c (w_fs u)\<rparr>"
    by (simp add: os_Write_def f)
  then have fa: "w_fs ua = fs_put ?d (File ?m0 ?c) (w_fs u)"
    using d by (simp add: append_file_def fu fs_lookup_put)
  from cl have fb: "w_fs ub = w_fs ua" by (auto simp: os_Close_def)
  have "fs_lookup (w_fs ub) ?s = Some (File m ?c)"
    using assms(3) d m0 by (simp add: fb fa fu fs_lookup_put)
  then have "file_mode (w_fs ub) ?s = m" by (simp add: file_mode_def)
  with st have "os_Chmod E dst m (ticked ub) = (None, w')"
    by (auto simp: os_Stat_def f split: option.splits)
  then have fw: "w_fs w' = fs_put ?d (File m ?c) (w_fs ub)"
    using d by (auto simp: os_Chmod_def f fb fa fs_lookup_put split: option.splits)
  show ?thesis
    using d by (auto simp: fw fb fa fu fs_lookup_put same_except_def)
qed

definition copy_world :: world where
  "copy_world = new_world [([''a''], File 384 ''text'')]"

lemma copy_paths: "resolve ''/a'' = [''a'']" "resolve ''/b'' = [''b'']"
  by code_simp+

theorem CopyFile_copies_witness:
  "\<exists>w'. CopyFile sample_os ''/b'' ''/a'' copy_world = (None, w') \<and> fs_lookup (w_fs w') [''b''] = Some (File 384 ''text'')"
proof -
  have nf: "no_faults sample_os" by (simp add: no_faults_def sample_os_def)
  have s: "fs_lookup (w_fs copy_world) (resolve ''/a'') = Some (File 384 ''text'')"
    by (simp add: copy_paths copy_world_def new_world_def fs_lookup_def)
  have "\<exists>w'. CopyFile sample_os ''/b'' ''/a'' copy_world = (None, w')"
    using nf by (simp add: CopyFile_def os_Open_def os_Create_def os_read_all_def os_Write_def os_Close_def os_Stat_def
        os_Chmod_def append_file_def file_mode_def open_err_def create_err_def copy_paths copy_world_def new_world_def
        fs_lookup_def fs_put_def)
  then obtain w' where c: "CopyFile sample_os ''/b'' ''/a'' copy_world = (None, w')" ..
  from CopyFile_copies [OF c nf s] c show ?thesis by (simp add: copy_paths)
qed

text \<open>
  When the file writer returns nil, it read the stream to its regular end and the file
  holds exactly its bytes.
\<close>

theorem stream_stored_whole:
  assumes "StreamingFileWriter_WriteStream E p r w = (None, u, w')"
  shows "rd_err r = None \<and> su_end u \<and> su_reads u = length (rd_chunks r)
    \<and> (\<exists>m. fs_lookup (w_fs w') (resolve p) = Some (File m (rd_data r)))"
  using StreamingFileWriter_None [OF assms] file_writer.ws_end [OF assms] by blast

theorem stream_stored_whole_witness:
  "\<exists>u w'. StreamingFileWriter_WriteStream sample_os ''/f'' \<lparr>rd_chunks = [''ab'', ''c''], rd_err = None\<rparr> (new_world []) = (None, u, w')
     \<and> (\<exists>m. fs_lookup (w_fs w') [''f''] = Some (File m ''abc''))"
proof -
  let ?r = "\<lparr>rd_chunks = [''ab'', ''c''], rd_err = None\<rparr>"
  have p: "resolve ''/f'' = [''f'']" by code_simp
  have nf: "no_faults sample_os" by (simp add: no_faults_def sample_os_def)
  obtain w1 where c: "os_Create sample_os ''/f'' (new_world []) = (None, w1)"
    using nf by (simp add: os_Create_def create_err_def fs_lookup_def p new_world_def)
  have "\<exists>u w'. StreamingFileWriter_WriteStream sample_os ''/f'' ?r (new_world []) = (None, u, w')"
    using nf by (simp add: StreamingFileWriter_WriteStream_def c io_Copy_def os_Write_def)
  then obtain u w' where s: "StreamingFileWriter_WriteStream sample_os ''/f'' ?r (new_world []) = (None, u, w')"
    by blast
  from stream_stored_whole [OF s] s p show ?thesis by (auto simp: rd_data_def)
qed

subsection \<open>The whole program\<close>

lemma client_config_frame:
  assumes "NewConfig E X getenv unmarshal osArgs w = (r, w')"
  shows "w_fs w' = w_fs w"
proof -
  have "w_fs (snd (snd (service_Read E getenv unmarshal id fvs m w))) = w_fs w" for fvs m
    using ConfigBytes_fs [of E getenv fvs w]
    by (auto simp: service_Read_def split: prod.splits sum.splits option.splits)
  then have "w_fs (snd (NewConfig E X getenv unmarshal osArgs w)) = w_fs w"
    by (auto simp: NewConfig_def Let_def split_beta split: list.split sum.split option.split)
  with assms show ?thesis by simp
qed

lemma client_main_returned:
  assumes "client_main V X getenv unmarshal goos D G osArgs w = (Returned (), w')"
    and "NewConfig (ce_os V) X getenv unmarshal osArgs w = (Returned (None, cfg), w1)"
    and "NewSystemTarClient goos = Returned tc"
  obtains c where "Execute V (client_of X D G cfg tc, w1) = (Returned None, (c, w'))"
proof -
  obtain r c w2 where x: "Execute V (client_of X D G cfg tc, w1) = (r, c, w2)" by (rule prod_cases3)
  from assms(1) have "r = Returned None \<and> w2 = w'"
    unfolding client_main_def assms(2,3) by (auto simp: x split: run.splits option.splits)
  with x that show thesis by simp
qed

text \<open>
  When the client program returns from main, without a panic or an exit, an instance of
  the configuration it read has been backed up: the archive encrypted with the key of the
  configuration and the metadata file are in the output directory.
\<close>

theorem client_exits_with_backup:
  assumes "client_main V X getenv unmarshal goos D G osArgs w = (Returned (), w')"
    and "NewConfig (ce_os V) X getenv unmarshal osArgs w = (Returned (None, cfg), w1)"
    and "NewSystemTarClient goos = Returned tc"
    and "no_faults (ce_os V)" and "frame_ok V (client_of X D G cfg tc)" and "output_apart cfg"
    and "list_all no_meta (resolve (TmpDir cfg))" and "fs_plain (w_fs w)" and "distinct (map UUID (Instances cfg))"
  shows "\<exists>i \<in> set (Instances cfg). \<exists>c. cl_encryptor c = NewCryptKeeper (SymmetricKey cfg) \<and> cl_tarClient c = tc
    \<and> cl_metadataFields c = MetadataFields cfg \<and> OutputDir (cl_config c) = OutputDir cfg
    \<and> node_backed_up V c (UUID i) (w_fs w')"
proof -
  let ?c = "client_of X D G cfg tc"
  obtain c' where x: "Execute V (?c, w1) = (Returned None, (c', w'))"
    by (rule client_main_returned [OF assms(1-3)])
  have "fs_plain (w_fs (snd (?c, w1)))" using assms(8) client_config_frame [OF assms(2)] by simp
  with http.Execute_None [OF x, unfolded http.run_ok_def instance_ok_def] assms(4-7,9)
  obtain i c where i: "i \<in> set (Instances cfg)" and b: "base c = base ?c"
    and n: "node_backed_up V c (UUID i) (w_fs w')"
    by (metis client_of_simps(1,2,7) fst_conv snd_conv)
  note bf = base_fields [OF b]
  from i n show ?thesis
    by (intro bexI [of _ i] exI [of _ c]) (simp_all add: bf)
qed

definition sample_document :: "string \<Rightarrow> client_config \<Rightarrow> err \<times> client_config" where
  "sample_document b c = (None, sample_config)"

lemma sample_document_read:
  "NewConfig sample_os sample_x509 Map.empty sample_document [''client'', ''-config=text''] (snd sample_start)
    = (Returned (None, sample_config), snd sample_start)"
proof -
  have f: "flag_Parse (client_flags False) [''-config=text''] = Inr [(''config'', ''text'')]" by code_simp
  have t: "unmarshalTLSConfig sample_x509 (config_TLS sample_config) = (None, config_TLS sample_config)"
    by (simp add: sample_config_def sample_connection_def unmarshalTLSConfig_def sample_x509_def zero_config_def
        tls_option_defs Let_def)
  have "sample_config\<lparr>config_TLS := config_TLS sample_config\<rparr> = sample_config" by simp
  then show ?thesis
    by (simp add: NewConfig_def f service_Read_def ConfigBytes_def flag_value_def sample_document_def t Let_def
        del: flag_Parse.simps)
qed

theorem client_exits_with_backup_witness:
  "\<exists>w' i c. client_main sample_env sample_x509 Map.empty sample_document ''linux'' sample_download sample_galera
      [''client'', ''-config=text''] (snd sample_start) = (Returned (), w')
    \<and> i \<in> set (Instances sample_config) \<and> node_backed_up sample_env c (UUID i) (w_fs w')"
proof -
  obtain t where t: "Execute sample_env sample_start = (Returned None, t)" by (rule sample_run)
  have n: "NewConfig (ce_os sample_env) sample_x509 Map.empty sample_document [''client'', ''-config=text''] (snd sample_start)
      = (Returned (None, sample_config), snd sample_start)"
    using sample_document_read by (simp add: sample_env_def)
  have l: "NewSystemTarClient ''linux'' = Returned NewGnuTarClient" by (simp add: NewSystemTarClient_def)
  have c: "client_of sample_x509 sample_download sample_galera sample_config NewGnuTarClient = sample_client"
    by (simp add: sample_client_def)
  have s: "(sample_client, snd sample_start) = sample_start" by (simp add: sample_start_def)
  have m: "client_main sample_env sample_x509 Map.empty sample_document ''linux'' sample_download sample_galera
      [''client'', ''-config=text''] (snd sample_start) = (Returned (), snd t)"
    unfolding client_main_def n l by (simp add: c s t split: prod.split)
  have "fs_plain sample_fs" "list_all no_meta [''tmp'']" by code_simp+
  with client_exits_with_backup [OF m n l sample_no_faults]
  have "\<exists>i \<in> set (Instances sample_config). \<exists>c. node_backed_up sample_env c (UUID i) (w_fs (snd t))"
    unfolding c using sample_frame_ok sample_output_apart by (simp del: sample_client_simps(6)) fastforce
  with m show ?thesis by blast
qed

end
