(* ===== verification/Run_Properties.thy ===== *)
theory Run_Properties
  imports Component_Properties
begin

text \<open>
  What a whole run promises against the servers of a cluster: the artifact that is left behind
  decrypts to an archive of what xtrabackup wrote on the node it is named after; what the
  returned error says of the instances; and in which state a run leaves the file system and
  the child processes.
\<close>

subsection \<open>The servers of a cluster\<close>

text \<open>A server: the programs and the files of its host, and its configuration.\<close>

record host =
  h_programs :: programs
  h_fs :: fs
  h_config :: server_config

definition host_outcome :: "host \<Rightarrow> outcome" where
  "host_outcome h = backup_outcome (h_programs h) (h_fs h) (h_config h) ''xbstream''"

text \<open>Requests go to the host that the URL names; connections fail and break as \<open>links\<close> says.\<close>

definition cluster ::
  "(string \<Rightarrow> host) \<Rightarrow> (nat \<Rightarrow> go_error + nat option \<times> nat option)
   \<Rightarrow> nat \<Rightarrow> tls_config option \<Rightarrow> request \<Rightarrow> go_error + http_response" where
  "cluster hosts links n tls rq =
     (let h = hosts (url_host (rq_url rq)) in served (h_programs h) (h_fs h) (h_config h) links n tls rq)"

text \<open>What a download from a URL that asks for a backup delivers.\<close>

definition host_sends :: "(string \<Rightarrow> host) \<Rightarrow> string \<Rightarrow> string list \<Rightarrow> bool" where
  "host_sends hosts url cs \<longleftrightarrow>
     (\<forall>u. parse_url url = Inr u \<longrightarrow> url_path u = ''/backup'' \<longrightarrow> query_Get (url_query u) ''format'' = ''xbstream''
        \<longrightarrow> speaks (host_outcome (hosts (url_host u)))
        \<longrightarrow> succeeds (host_outcome (hosts (url_host u))) \<and> cs = oc_out (host_outcome (hosts (url_host u))))"

lemma cluster_body:
  assumes "DownloadBackup (D\<lparr>d_Do := cluster hosts links\<rparr>) cfg url ws w = (None, w')"
  shows "\<exists>r w1 u w2. ws r w1 = (None, u, w2) \<and> w_fs w1 = w_fs w \<and> w_fs w' = w_fs w2
    \<and> (su_end u \<longrightarrow> rd_err r = None \<longrightarrow> host_sends hosts url (rd_chunks r))"
proof -
  from DownloadBackup_None [OF assms] obtain ur rs u w1 w2 where ur: "parse_url url = Inr ur"
    and rs: "d_Do (D\<lparr>d_Do := cluster hosts links\<rparr>) (w_calls w) (TLS_Config (config_TLS cfg)) (backup_request cfg ur) = Inr rs"
    and ok: "rs_code rs = 200" and ws: "ws (rs_body rs) w1 = (None, u, w2)"
    and tr: "header_Get (seen_trailer rs u) TrailerKey = []"
    and f: "w_fs w1 = w_fs w" "w_fs w' = w_fs w2" by metis
  let ?h = "hosts (url_host ur)"
  have sv: "served (h_programs ?h) (h_fs ?h) (h_config ?h) links (w_calls w) (TLS_Config (config_TLS cfg))
      (backup_request cfg ur) = Inr rs"
    using rs by (simp add: cluster_def Let_def)
  have "host_sends hosts url (rd_chunks (rs_body rs))" if "su_end u" "rd_err (rs_body rs) = None"
  proof -
    have tr: "header_Get (rs_trailer rs) TrailerKey = []" using tr that by (simp add: seen_trailer_def)
    have "succeeds (host_outcome ?h) \<and> rd_chunks (rs_body rs) = oc_out (host_outcome ?h)"
      if p: "url_path ur = ''/backup''" and q: "query_Get (url_query ur) ''format'' = ''xbstream''"
        and sp: "speaks (host_outcome ?h)"
    proof -
      have "request_format (backup_request cfg ur) = Some ''xbstream''"
        using q by (simp add: request_format_def)
      from served_body(2,3) [OF sv ok \<open>rd_err (rs_body rs) = None\<close> tr p this] sp show ?thesis
        by (simp add: host_outcome_def)
    qed
    with ur show ?thesis by (simp add: host_sends_def)
  qed
  with ws f show ?thesis
    by (intro exI [of _ "rs_body rs"] exI [of _ w1] exI [of _ u] exI [of _ w2]) simp
qed

interpretation nodes: download_service "DownloadBackup (D\<lparr>d_Do := cluster hosts links\<rparr>) cfg" "host_sends hosts"
  by unfold_locales
    (rule DownloadBackup_rel, assumption+, rule DownloadBackup_procs, assumption, rule cluster_body)

lemma host_sends_backup:
  assumes "host_sends hosts (backup_url c ip) cs" and "plain_host ip" and "BackupServerPort (cl_config c) = int n"
    and "speaks (host_outcome (hosts (ip @ '':'' @ nat_decimal n)))"
  shows "succeeds (host_outcome (hosts (ip @ '':'' @ nat_decimal n)))"
    and "cs = oc_out (host_outcome (hosts (ip @ '':'' @ nat_decimal n)))"
proof -
  have q: "query_Get ''format=xbstream'' ''format'' = ''xbstream''" by code_simp
  have "url_path (backup_url_of ip n) = ''/backup''" "url_query (backup_url_of ip n) = ''format=xbstream''"
    "url_host (backup_url_of ip n) = ip @ '':'' @ nat_decimal n"
    by (simp_all add: backup_url_of_def)
  with assms(1,4) q parse_backup_url [OF assms(2,3)]
  show "succeeds (host_outcome (hosts (ip @ '':'' @ nat_decimal n)))"
    "cs = oc_out (host_outcome (hosts (ip @ '':'' @ nat_decimal n)))"
    unfolding host_sends_def by metis+
qed

subsection \<open>From the databases to the artifacts\<close>

text \<open>
  What is in the artifact of an instance: the unpacking program was given exactly what
  xtrabackup wrote on the host of that instance, and tar ran over what the preparing program
  made of it.
\<close>

definition archived ::
  "client_env \<Rightarrow> client \<Rightarrow> string \<Rightarrow> host \<Rightarrow> string \<Rightarrow> string \<Rightarrow> bool" where
  "archived V c0 uuid h p data \<longleftrightarrow>
     (\<exists>f0 tree.
        let un = ce_programs V (Unpacker_cmd (NewUnpacker p)) (oc_out (host_outcome h)) f0;
            pr = ce_programs V (cl_backupPreparer c0 p) [] (oc_fs un);
            ta = ce_programs V (TarClient_Tar (cl_tarClient c0) p) [] tree
        in succeeds (host_outcome h) \<and> succeeds un \<and> succeeds pr \<and> succeeds ta
         \<and> same_except (artifact_region (cl_config c0) uuid) (oc_fs pr) tree \<and> data = concat (oc_out ta))"

lemma instance_archived:
  assumes "instance_ok (host_sends hosts) V c0 i fs" and "plain_host (Address i)"
    and "BackupServerPort (cl_config c0) = int n" and "speaks (host_outcome (hosts (Address i @ '':'' @ nat_decimal n)))"
    and "\<And>d f. reads_all (ce_programs V) (Unpacker_cmd (NewUnpacker d)) f"
    and "pgp_lawful (ce_pgp V) (ck_key (cl_encryptor c0))"
  shows "\<exists>c m text data. base c = base c0
    \<and> fs_lookup fs (resolve (encryptedBackupLocation c (UUID i))) = Some (File m text)
    \<and> Decrypt (ce_pgp V) (cl_encryptor c0) text collect [] = Some (Returned None, data)
    \<and> archived V c0 (UUID i) (hosts (Address i @ '':'' @ nat_decimal n)) (prepareDirectory c) data"
proof -
  from assms(1) obtain c where b: "base c = base c0"
    and nb: "node_backed_up_from (host_sends hosts (backup_url c0 (Address i))) V c (UUID i) fs"
    by (auto simp: instance_ok_def)
  note bf = base_fields [OF b]
  let ?P = "ce_programs V" and ?p = "prepareDirectory c"
  let ?h = "hosts (Address i @ '':'' @ nat_decimal n)"
  from nb obtain r f0 tree m where u: "succeeds (?P (Unpacker_cmd (NewUnpacker ?p)) r f0)"
    and pr: "succeeds (?P (cl_backupPreparer c0 ?p) [] (oc_fs (?P (Unpacker_cmd (NewUnpacker ?p)) r f0)))"
    and ta: "succeeds (?P (TarClient_Tar (cl_tarClient c0) ?p) [] tree)"
    and sc: "length r \<le> oc_takes (?P (Unpacker_cmd (NewUnpacker ?p)) r f0)
      \<longrightarrow> host_sends hosts (backup_url c0 (Address i)) r"
    and se: "same_except (artifact_region (cl_config c0) (UUID i))
      (oc_fs (?P (cl_backupPreparer c0 ?p) [] (oc_fs (?P (Unpacker_cmd (NewUnpacker ?p)) r f0)))) tree"
    and f: "fs_lookup fs (resolve (encryptedBackupLocation c (UUID i))) = Some (File m
      (message_text (ce_pgp V) (ck_key (cl_encryptor c0)) (oc_out (?P (TarClient_Tar (cl_tarClient c0) ?p) [] tree))))"
    unfolding node_backed_up_from_def Let_def bf succeeds_def by blast
  from sc assms(5) have "host_sends hosts (backup_url c0 (Address i)) r" by (simp add: reads_all_def)
  note hs = host_sends_backup [OF this assms(2-4)]
  have "archived V c0 (UUID i) ?h ?p (concat (oc_out (?P (TarClient_Tar (cl_tarClient c0) ?p) [] tree)))"
    unfolding archived_def Let_def using hs u pr ta se by blast
  with b f Decrypt_message [OF assms(6)] show ?thesis by blast
qed


text \<open>The sample server as the only host.\<close>

definition sample_host_of :: "string \<Rightarrow> host" where
  "sample_host_of a = \<lparr>h_programs = sample_programs, h_fs = [], h_config = sample_server_config\<rparr>"

lemma sample_cluster: "sample_download\<lparr>d_Do := cluster sample_host_of (\<lambda>_. Inr (None, None))\<rparr> = sample_download"
proof -
  have "cluster sample_host_of (\<lambda>_. Inr (None, None)) = d_Do sample_download"
    by (intro ext) (simp add: cluster_def sample_host_of_def sample_served Let_def)
  then show ?thesis by simp
qed

lemma sample_host_outcome: "host_outcome (sample_host_of a) = exits 0 [''tool = x'', [nl]] []"
  by (simp add: host_outcome_def sample_host_of_def sample_outcome)

lemma sample_reads_all: "reads_all (ce_programs sample_env) (Unpacker_cmd (NewUnpacker d)) f"
  by (simp add: reads_all_def sample_env_def sample_program_runs exits_def)

lemma sample_more_simps: "ce_pgp sample_env = sample_pgp" "BackupServerPort sample_config = int 8081"
  by (simp_all add: sample_env_def sample_config_def)

lemma sample_hosts_plain: "plain_host ''10.0.0.1''" "plain_host ''10.0.0.2''"
  by code_simp+


text \<open>
  A run that gets to its instances backs up each of them, and returns nil exactly when
  one of these backups returned nil, otherwise a MultiError of the errors of all of them in
  their order; every instance whose backup returned nil has its archive and its metadata in
  place when the run is over, whatever became of the later ones.
\<close>

theorem run_reports_outcomes:
  assumes "Execute V s = (Returned r, t)" and "cl_downloader (fst s) = DownloadBackup D cfg"
    and "no_faults (ce_os V)" and "frame_ok V (fst s)" and "dirs_ok (fst s)" and "output_apart (cl_config (fst s))"
    and "list_all no_meta (resolve (TmpDir (cl_config (fst s))))" and "fs_plain (w_fs (snd s))"
    and "distinct (map UUID (Instances (cl_config (fst s))))"
    and "cleanTmpDirectories V s = (None, s1)" and "choose_instances s1 = (Returned (Inr is), s2)"
  shows "\<exists>outs. list_all2 (\<lambda>i e. (\<exists>u v. base (fst u) = base (fst s) \<and> BackupNode V i u = (e, v))
      \<and> (e = None \<longrightarrow> (\<exists>c. base c = base (fst s) \<and> node_backed_up V c (UUID i) (w_fs (snd t))))) is outs
    \<and> r = (if None \<in> set outs then None else Some (MultiError (errors_of outs)))"
  using http.Execute_outcomes [OF assms(1) _ assms(7-11), unfolded http.node_outcome_def http.run_ok_def instance_ok_def]
    assms(2-6) by blast

theorem run_reports_outcomes_witness:
  "\<exists>t (outs :: err list). Execute sample_env sample_start = (Returned None, t) \<and> length outs = 2 \<and> None \<in> set outs"
proof -
  obtain t where t: "Execute sample_env sample_start = (Returned None, t)" by (rule sample_run)
  have pl: "fs_plain sample_fs" "list_all no_meta [''tmp'']" by code_simp+
  obtain s1 where c: "cleanTmpDirectories sample_env sample_start = (None, s1)" and f: "fst s1 = sample_client"
    by (rule start_ready_clean [OF sample_no_faults, of sample_start]) (simp_all add: sample_start_ready)
  have ch: "choose_instances s1 = (Returned (Inr (Instances sample_config)), s1)"
    using f by (simp add: choose_instances_def Let_def)
  have ds: "distinct (map UUID (Instances sample_config))" by simp
  from run_reports_outcomes [OF t _ sample_no_faults _ _ _ _ _ _ c ch, of sample_download sample_config]
  obtain outs :: "err list" where "length (Instances sample_config) = length outs" "None \<in> set outs"
    using pl ds sample_frame_ok sample_output_apart
    by (auto simp del: sample_client_simps(6) split: if_splits dest!: list_all2_lengthD)
  with t show ?thesis by (intro exI [of _ t] exI [of _ outs]) simp
qed

end
