(* ===== verification/Run_State.thy ===== *)
theory Run_State
  imports Component_Properties
begin

text \<open>
  In which state a run leaves the world, however it ends: the file system is still a tree,
  nothing is left of the working directories, and which child processes may still be running.
\<close>

subsection \<open>The file system stays a tree\<close>

text \<open>The child programs leave a tree behind when they find one.\<close>

definition programs_wf :: "programs \<Rightarrow> bool" where
  "programs_wf P \<longleftrightarrow> (\<forall>c input fs. fs_wf fs \<longrightarrow> fs_wf (oc_fs (P c input fs)))"

definition tree_rel :: "fs \<Rightarrow> fs \<Rightarrow> bool" where
  "tree_rel a b \<longleftrightarrow> (fs_wf a \<longrightarrow> fs_wf b)"

interpretation tree: file_relation tree_rel "\<lambda>_. True"
  by unfold_locales (auto simp: tree_rel_def intro: fs_wf_os_Create fs_wf_os_Write)

abbreviation tree_kept :: "cstate \<Rightarrow> cstate \<Rightarrow> bool" where
  "tree_kept \<equiv> fs_kept tree_rel"

lemma tree_node_runs: "programs_wf P \<Longrightarrow> node_runs tree_rel P c"
  by (simp add: programs_wf_def node_runs_def runs_in_def tree_rel_def)

text \<open>The calls of the methods.\<close>

lemma fs_wf_mkdirtemp: "fs_wf (w_fs w) \<Longrightarrow> fs_wf (w_fs (snd (mkdirtemp n E d p w)))"
proof (induction n E d p w rule: mkdirtemp.induct)
  case (2 n E d p w)
  let ?w = "w\<lparr>w_draws := Suc (w_draws w)\<rparr>"
  obtain r v where m: "os_Mkdir E (p @ nat_decimal (os_rand E (w_draws w))) ?w = (r, v)" by fastforce
  have "fs_wf (w_fs v)" using fs_wf_os_Mkdir [of ?w E "p @ nat_decimal (os_rand E (w_draws w))"] m 2(2) by simp
  with m 2(1) show ?case by (cases r) (auto simp: Let_def)
qed simp

lemma fs_wf_TempDir: "fs_wf (w_fs w) \<Longrightarrow> fs_wf (w_fs (snd (ioutil_TempDir E d p w)))"
  by (simp add: ioutil_TempDir_def Let_def fs_wf_mkdirtemp)

lemma dirs_ok_resolve:
  assumes "dirs_ok c" and "d \<in> {downloadDirectory c, prepareDirectory c, encryptDirectory c}"
  shows "d = [] \<or> resolve d \<noteq> []"
  using assms by (auto simp: dirs_ok_def work_dir_def temp_entry_def)

lemma tree_cleanDirectories:
  assumes "dirs_ok (fst s)"
  shows "tree_kept s (cleanDirectories V s)"
  by (rule tree.rel_cleanDirectories)
    (use dirs_ok_resolve [OF assms] fs_wf_os_RemoveAll in \<open>auto simp: tree_rel_def\<close>)

lemma fs_wf_make_tmp:
  assumes "fs_wf (w_fs (snd s))"
  shows "fs_wf (w_fs (snd (snd (make_tmp V set_dir pat s))))"
  using fs_wf_TempDir [OF assms, of "ce_os V" "TmpDir (cl_config (fst s))" pat]
  by (auto simp: make_tmp_def split: prod.split sum.split)

lemma fs_wf_createDirectories:
  assumes "fs_wf (w_fs (snd s))"
  shows "fs_wf (w_fs (snd (snd (createDirectories V s))))"
  unfolding createDirectories_def
  by (rule run_steps_preserves [where P = "\<lambda>s. fs_wf (w_fs (snd s))", OF _ assms])
    (auto simp: log_step_def intro: fs_wf_make_tmp)

lemma tree_cleanTmp:
  assumes "list_all no_meta (resolve (TmpDir (cl_config (fst s))))" and "fs_plain (w_fs (snd s))"
  shows "tree_kept s (snd (cleanTmpDirectories V s))"
  by (rule tree.rel_cleanTmp [OF assms]) (auto simp: tree_rel_def temp_entry_def intro: fs_wf_os_RemoveAll)

lemma choose_instances_procs:
  assumes "choose_instances s = (r, t)"
  shows "w_procs (snd t) = w_procs (snd s)"
proof -
  obtain i u where sel: "select_instance (cl_galeraAgentCaller (fst s)) (Instances (cl_config (fst s))) 0
      no_instance s = (i, u)" by (metis surj_pair)
  let ?c = "cl_config (fst s)"
  have "t = s \<or> t = u"
    using assms sel
    by (cases "BackupAllMasters ?c"; cases "BackupFromInactiveNode ?c"; cases "Address i = []"; cases "Instances ?c = []")
      (simp_all add: choose_instances_def Let_def)
  with select_instance_keeps [OF sel] show ?thesis by auto
qed

context download_service
begin

lemma fs_wf_BackupNode:
  assumes "cl_downloader (fst s) = dl" and "programs_wf (ce_programs V)"
    and "TmpDir (cl_config (fst s)) \<noteq> []" and "fs_wf (w_fs (snd s))"
  shows "fs_wf (w_fs (snd (snd (BackupNode V inst s))))"
proof -
  obtain e t where c: "createDirectories V s = (e, t)" by (metis surj_pair)
  from fs_wf_createDirectories [OF assms(4), of V] c have w: "fs_wf (w_fs (snd t))" by simp
  have "evolves (\<lambda>_. True) s (snd (createDirectories V s))"
    by (rule evolves_createDirectories) (use assms(3) in simp_all)
  with c have "base (fst t) = base (fst s)" by (simp add: evolves_def)
  from base_fields(4) [OF this] assms(1) have "cl_downloader (fst t) = dl" by simp
  from kept_fs [OF rel_node_steps [OF tree.file_relation_axioms this tree_node_runs [OF assms(2)] TrueI TrueI, of inst]] w
  have "fs_wf (w_fs (snd (snd (run_steps (node_steps V inst) t))))"
    by (simp add: tree_rel_def)
  with c w show ?thesis by (cases e) (simp_all add: BackupNode_steps run_steps_Cons)
qed

text \<open>The state between two instances.\<close>

lemma backup_instance_tree:
  assumes "cl_downloader (fst s) = dl" and "programs_wf (ce_programs V)" and "frame_ok V (fst s)"
    and "dirs_ok (fst s)" and "inst \<in> set (Instances (cl_config (fst s)))" and "fs_wf (w_fs (snd s))"
  shows "fs_wf (w_fs (snd (snd (backup_instance V inst s))))"
proof -
  let ?s = "start_instance V inst s"
  have b: "base (fst ?s) = base (fst s)" "dirs_ok (fst ?s) = dirs_ok (fst s)" "w_fs (snd ?s) = w_fs (snd s)"
    by (simp_all add: start_instance_def time_now_def base_def dirs_ok_def)
  note bf = base_fields [OF b(1)]
  obtain e t where n: "BackupNode V inst ?s = (e, t)" by (metis surj_pair)
  have "fs_wf (w_fs (snd (snd (BackupNode V inst ?s))))"
    by (rule fs_wf_BackupNode) (use assms b bf in \<open>simp_all add: frame_ok_def\<close>)
  with n have w: "fs_wf (w_fs (snd t))" by simp
  have "evolves (inst_region (cl_config (fst ?s)) (UUID inst)) ?s (snd (BackupNode V inst ?s))"
    by (rule evolves_BackupNode) (use assms b bf frame_ok_base [OF b(1)] in simp_all)
  with n assms(4) b(2) have "dirs_ok (fst t)" by (simp add: evolves_def)
  from tree_cleanDirectories [OF this, of V] w n show ?thesis
    by (simp add: fs_kept_def tree_rel_def backup_instance_def)
qed

text \<open>An invariant of the loop over the instances.\<close>

definition loop_ok :: "client_env \<Rightarrow> client \<Rightarrow> cstate \<Rightarrow> bool" where
  "loop_ok V c0 s \<longleftrightarrow> base (fst s) = base c0 \<and> dirs_ok (fst s)"

lemma loop_ok_instance:
  assumes "loop_ok V c0 s" and "cl_downloader c0 = dl" and "frame_ok V c0" and "i \<in> set (Instances (cl_config c0))"
  shows "loop_ok V c0 (snd (backup_instance V i s))"
proof -
  from assms(1) have b: "base (fst s) = base c0" and d: "dirs_ok (fst s)" by (simp_all add: loop_ok_def)
  note bf = base_fields [OF b]
  from evolves_backup_instance [of s V i] assms bf frame_ok_base [OF b, of V] d b show ?thesis
    by (simp add: loop_ok_def evolves_def)
qed

text \<open>What every instance of the configuration keeps, the loop keeps.\<close>

lemma backup_loop_keeps:
  assumes "\<And>i s. i \<in> set is \<Longrightarrow> loop_ok V cc s \<Longrightarrow> P s \<Longrightarrow> P (snd (backup_instance V i s))"
    and "cl_downloader cc = dl" and "frame_ok V cc" and "set is \<subseteq> set (Instances (cl_config cc))"
    and "loop_ok V cc s" and "P s"
  shows "P (snd (backup_loop V is errs s))"
  using assms(1,4-6)
proof (induction "is" arbitrary: errs s)
  case (Cons i "is")
  obtain e t where b: "backup_instance V i s = (e, t)" by (metis surj_pair)
  from Cons.prems loop_ok_instance [OF Cons.prems(3) assms(2,3), of i] b
  have l: "loop_ok V cc t" by simp
  from Cons.prems(1) [of i s] Cons.prems(3,4) b have p: "P t" by simp
  have "P (snd (backup_loop V is errs' t))" for errs'
    by (rule Cons.IH [OF _ _ l p]) (use Cons.prems(1,2) in auto)
  with b show ?case by (cases e) simp_all
qed simp

lemma Execute_keeps:
  assumes "\<And>i s. i \<in> set (Instances (cl_config (fst s0))) \<Longrightarrow> loop_ok V (fst s0) s \<Longrightarrow> P s
      \<Longrightarrow> P (snd (backup_instance V i s))"
    and "cl_downloader (fst s0) = dl" and "frame_ok V (fst s0)" and "dirs_ok (fst s0)"
    and "P (snd (cleanTmpDirectories V s0))"
    and "\<And>s t. fst t = fst s \<Longrightarrow> w_fs (snd t) = w_fs (snd s) \<Longrightarrow> w_procs (snd t) = w_procs (snd s) \<Longrightarrow> P s \<Longrightarrow> P t"
  shows "P (snd (Execute V s0))"
proof -
  obtain e s1 where c: "cleanTmpDirectories V s0 = (e, s1)" by (metis surj_pair)
  with cleanTmp_client [of V s0] have f1: "fst s1 = fst s0" by simp
  obtain r s2 where ch: "choose_instances s1 = (r, s2)" by (metis surj_pair)
  note f2 = choose_instances_facts(1,2) [OF ch]
  have pr: "w_procs (snd s2) = w_procs (snd s1)" using choose_instances_procs [OF ch] .
  from assms(5) c have p1: "P s1" by simp
  from assms(6) [OF f2 pr p1] have p2: "P s2" .
  have "P (snd (backup_loop V is [] s2))" if "r = Returned (Inr is)" for "is"
    by (rule backup_loop_keeps [where cc = "fst s0", OF assms(1) assms(2,3) _ _ p2])
      (use choose_instances_facts(3) [OF ch that] f1 f2 assms(4) in \<open>auto simp: loop_ok_def\<close>)
  with c ch p1 p2 show ?thesis
    by (simp add: Execute_def split_beta split: option.split run.split sum.split)
qed

end

text \<open>
  C23: Execute keeps the state well formed, whatever fails: the file system stays a tree
  whose entries have directories as parents, and the working directories of the client stay
  unset or temporary entries of TmpDir.
\<close>

theorem run_keeps_tree:
  assumes "cl_downloader (fst s) = DownloadBackup D cfg" and "programs_wf (ce_programs V)"
    and "frame_ok V (fst s)" and "dirs_ok (fst s)"
    and "list_all no_meta (resolve (TmpDir (cl_config (fst s))))" and "fs_plain (w_fs (snd s))"
    and "fs_wf (w_fs (snd s))"
  shows "fs_wf (w_fs (snd (snd (Execute V s)))) \<and> dirs_ok (fst (snd (Execute V s)))"
proof
  have c: "fs_wf (w_fs (snd (snd (cleanTmpDirectories V s))))"
    using tree_cleanTmp [OF assms(5,6), of V] assms(7) by (simp add: fs_kept_def tree_rel_def)
  show "fs_wf (w_fs (snd (snd (Execute V s))))"
  proof (rule http.Execute_keeps [where P = "\<lambda>s. fs_wf (w_fs (snd s))", OF _ assms(1,3,4) c])
    fix i u
    assume i: "i \<in> set (Instances (cl_config (fst s)))" and l: "http.loop_ok V (fst s) u" and w: "fs_wf (w_fs (snd u))"
    from l have b: "base (fst u) = base (fst s)" and d: "dirs_ok (fst u)" by (simp_all add: http.loop_ok_def)
    from http.backup_instance_tree [of u D cfg V i] base_fields(1,4) [OF b] frame_ok_base [OF b, of V] d w assms(1-3) i
    show "fs_wf (w_fs (snd (snd (backup_instance V i u))))" by simp
  qed simp
  from http.evolves_Execute [OF assms(1,3-6)] assms(4) show "dirs_ok (fst (snd (Execute V s)))"
    by (simp add: evolves_def)
qed

text \<open>
  The sample programs with an xbstream that makes room for its file and refuses to work on
  what is not a directory, so that it leaves a tree.
\<close>

definition tree_programs :: programs where
  "tree_programs c input fs =
     (let d = resolve (last (cmd_args c)); p = d @ [''xtrabackup_info'']
      in if cmd_name c \<noteq> ''xbstream'' then sample_programs c input fs
         else if fs_wf fs \<and> fs_lookup fs d \<noteq> Some Dir then exits 1 [] fs
         else (exits 0 [] (fs_put p (File 420 (concat input)) (fs_remove p (\<lambda>_. False) fs)))\<lparr>oc_takes := length input\<rparr>)"

lemma tree_programs_other: "cmd_name c \<noteq> ''xbstream'' \<Longrightarrow> tree_programs c = sample_programs c"
  by (intro ext) (simp add: tree_programs_def Let_def)

lemma not_within_snoc [simp]: "\<not> within (d @ [n]) d"
  by (auto simp: within_def prefix_def)

lemma tree_programs_wf: "programs_wf tree_programs"
proof -
  have "fs_wf (oc_fs (tree_programs c input fs))" if "fs_wf fs" for c input fs
  proof (cases "cmd_name c = ''xbstream''")
    case True
    have "fs_wf (fs_put (d @ [n]) (File m x) (fs_remove (d @ [n]) (\<lambda>_. False) fs))"
      if "fs_lookup fs d = Some Dir" for d n m x
      by (rule fs_wf_put) (use \<open>fs_wf fs\<close> that in \<open>auto simp: fs_wf_remove\<close>)
    with True that show ?thesis by (auto simp: tree_programs_def Let_def exits_def)
  next
    case False
    with that show ?thesis by (auto simp: tree_programs_other sample_programs_def exits_def)
  qed
  then show ?thesis by (simp add: programs_wf_def)
qed

definition tree_env :: client_env where
  "tree_env = sample_env\<lparr>ce_programs := tree_programs\<rparr>"

lemma tree_env_simps [simp]:
  "ce_os tree_env = ce_os sample_env" "ce_programs tree_env = tree_programs" "ce_pgp tree_env = sample_pgp"
  by (simp_all add: tree_env_def sample_env_def)

lemma tree_xbstream:
  "tree_programs (Unpacker_cmd (NewUnpacker d)) input fs =
     (if fs_wf fs \<and> fs_lookup fs (resolve d) \<noteq> Some Dir then exits 1 [] fs
      else (exits 0 [] (fs_put (resolve d @ [''xtrabackup_info'']) (File 420 (concat input))
        (fs_remove (resolve d @ [''xtrabackup_info'']) (\<lambda>_. False) fs)))\<lparr>oc_takes := length input\<rparr>)"
  by (simp add: tree_programs_def Unpacker_cmd_def NewUnpacker_def exec_Command_def Let_def)

lemma tree_others:
  "tree_programs (BackupPreparer_Command d) = sample_programs (BackupPreparer_Command d)"
  "tree_programs (TarClient_Tar NewGnuTarClient d) = sample_programs (TarClient_Tar NewGnuTarClient d)"
  by (rule tree_programs_other; simp add: BackupPreparer_Command_def TarClient_Tar_def NewGnuTarClient_def
      NewTarClient_def exec_Command_def)+

lemma within_inside: "within (d @ [n]) q \<Longrightarrow> within d q"
  by (auto simp: within_def dest: append_prefixD)

lemma tree_frame_ok: "frame_ok tree_env sample_client"
proof -
  have "same_except (within d) fs (fs_put (d @ [n]) x (fs_remove (d @ [n]) (\<lambda>_. False) fs))" for d fs n x
    by (rule same_except_trans [of _ _ "fs_remove (d @ [n]) (\<lambda>_. False) fs"])
      (auto intro: same_except_remove same_except_put simp: within_inside within_snoc)
  then have "confined tree_programs (Unpacker_cmd (NewUnpacker d)) (within (resolve d))" for d
    by (simp add: confined_def tree_xbstream exits_def)
  with sample_frame_ok show ?thesis
    by (simp add: frame_ok_def programs_confined_def confined_def tree_others sample_env_def)
qed

lemma tree_programs_work: "programs_work tree_programs sample_client input"
  by (auto simp: programs_work_def tree_xbstream tree_others sample_program_runs exits_def succeeds_def has_info_def
      is_file_def fs_lookup_put Let_def)

theorem run_keeps_tree_witness:
  "fs_wf (w_fs (snd (snd (Execute tree_env sample_start))))"
proof -
  have "fs_plain sample_fs" "list_all no_meta [''tmp'']" "fs_wf sample_fs" by code_simp+
  with run_keeps_tree [of sample_start sample_download sample_config tree_env]
    tree_frame_ok tree_programs_wf
  show ?thesis by simp
qed

subsection \<open>Nothing is left of the working directories\<close>

text \<open>Whatever there is in the region of the working directories is in one of the given ones.\<close>

definition occupied :: "(client \<Rightarrow> string) list \<Rightarrow> cstate \<Rightarrow> bool" where
  "occupied ds s \<longleftrightarrow> (\<forall>q. tmp_region (cl_config (fst s)) q \<longrightarrow> fs_lookup (w_fs (snd s)) q \<noteq> None
     \<longrightarrow> (\<exists>d \<in> set ds. d (fst s) \<noteq> [] \<and> within (resolve (d (fst s))) q))"

lemma occupied_same:
  assumes "fst t = fst s" and "w_fs (snd t) = w_fs (snd s)"
  shows "occupied ds t = occupied ds s"
  unfolding occupied_def assms ..

lemma occupied_make_tmp:
  assumes "occupied ds s" and "\<And>x v c. x \<in> set ds \<Longrightarrow> x (set_dir v c) = x c" and "\<And>v c. fld (set_dir v c) = v"
    and "\<And>v c. cl_config (set_dir v c) = cl_config c" and "TmpDir (cl_config (fst s)) \<noteq> []"
    and "pat \<in> {''mysql-backup-downloads'', ''mysql-backup-prepare'', ''mysql-backup-encrypt''}"
  shows "occupied (fld # ds) (snd (make_tmp V set_dir pat s))"
proof -
  obtain e t where m: "make_tmp V set_dir pat s = (e, t)" by (metis surj_pair)
  have other: "(\<exists>d \<in> set ds. d (set_dir v c) \<noteq> [] \<and> within (resolve (d (set_dir v c))) q)
      = (\<exists>d \<in> set ds. d c \<noteq> [] \<and> within (resolve (d c)) q)" for v c q
    by (intro bex_cong refl) (simp add: assms(2))
  show ?thesis
  proof (cases e)
    case (Some x)
    with other make_tmp_Some [OF m [unfolded Some]] assms(1,4) m show ?thesis by (simp add: occupied_def)
  next
    case None
    from make_tmp_None [OF m [unfolded None] assms(5,6)] obtain d where d: "fst t = set_dir d (fst s)" "d \<noteq> []"
      "temp_entry (TmpDir (cl_config (fst s))) pat (resolve d)"
      "w_fs (snd t) = fs_put (resolve d) Dir (w_fs (snd s))" by metis
    then have "resolve d \<noteq> []" by (auto simp: temp_entry_def)
    with d assms(1,3,4) m show ?thesis by (simp add: occupied_def fs_lookup_put other)
  qed
qed

lemma occupied_mono: "occupied ds s \<Longrightarrow> set ds \<subseteq> set ds' \<Longrightarrow> occupied ds' s"
  unfolding occupied_def by blast

abbreviation work_dirs :: "(client \<Rightarrow> string) list" where
  "work_dirs \<equiv> [encryptDirectory, prepareDirectory, downloadDirectory]"

lemma occupied_createDirectories:
  assumes "occupied [] s" and "TmpDir (cl_config (fst s)) \<noteq> []"
  shows "occupied work_dirs (snd (createDirectories V s))"
proof -
  let ?m1 = "make_tmp V (\<lambda>d. downloadDirectory_update (\<lambda>_. d)) ''mysql-backup-downloads''"
  let ?m2 = "make_tmp V (\<lambda>d. prepareDirectory_update (\<lambda>_. d)) ''mysql-backup-prepare''"
  let ?m3 = "make_tmp V (\<lambda>d. encryptDirectory_update (\<lambda>_. d)) ''mysql-backup-encrypt''"
  let ?s1 = "clog DEBUG ''Creating directories'' None [] s"
  have cfg: "cl_config (fst (snd (make_tmp V set_dir pat t))) = cl_config (fst t)"
    if "\<And>v c. cl_config (set_dir v c) = cl_config c" for set_dir pat t
    using that by (auto simp: make_tmp_def split: prod.split sum.split)
  obtain e1 s2 where m1: "?m1 ?s1 = (e1, s2)" by (metis surj_pair)
  obtain e2 s3 where m2: "?m2 s2 = (e2, s3)" by (metis surj_pair)
  obtain e3 s4 where m3: "?m3 s3 = (e3, s4)" by (metis surj_pair)
  have o1: "occupied [downloadDirectory] (snd (?m1 ?s1))"
    by (rule occupied_make_tmp) (use assms in \<open>simp_all add: occupied_same [of ?s1 s]\<close>)
  have c2: "TmpDir (cl_config (fst s2)) \<noteq> []"
    using cfg [of "\<lambda>d. downloadDirectory_update (\<lambda>_. d)" "''mysql-backup-downloads''" ?s1] m1 assms(2) by simp
  have o2: "occupied [prepareDirectory, downloadDirectory] (snd (?m2 s2))"
    by (rule occupied_make_tmp) (use o1 m1 c2 in simp_all)
  have c3: "TmpDir (cl_config (fst s3)) \<noteq> []"
    using cfg [of "\<lambda>d. prepareDirectory_update (\<lambda>_. d)" "''mysql-backup-prepare''" s2] m2 c2 by simp
  have o3: "occupied work_dirs (snd (?m3 s3))"
    by (rule occupied_make_tmp) (use o2 m2 c3 in auto)
  have l: "occupied work_dirs (clog l a x d t) = occupied work_dirs t" for l a x d t
    by (rule occupied_same) simp_all
  have "occupied work_dirs s2" "occupied work_dirs s3" "occupied work_dirs s4"
    using o1 o2 o3 m1 m2 m3 by (auto elim: occupied_mono)
  with m1 m2 m3 show ?thesis
    by (cases e1; cases e2; cases e3) (simp_all add: createDirectories_def run_steps_Cons log_step_def l)
qed

text \<open>Without faults a removal removes.\<close>

lemma RemoveAll_gone:
  assumes "no_faults E" and "fs_wf (w_fs w)" and "p \<noteq> []" and "\<not> ends_with_dot p" and "resolve p = d @ [n]"
  shows "fs_lookup (w_fs (snd (os_RemoveAll E p w))) q
    = (if within (resolve p) q then None else fs_lookup (w_fs w) q)"
proof (cases "walk_err (w_fs w) [] (resolve p) = Some ENOTDIR")
  case True
  have "fs_lookup (w_fs w) q = None" if wi: "within (resolve p) q"
  proof (rule ccontr)
    assume "fs_lookup (w_fs w) q \<noteq> None"
    from fs_wf_ancestor [OF assms(2) this wi] assms(5) have "resolve p \<in> set (map fst (w_fs w))" by simp
    with assms(2,5) have "fs_lookup (w_fs w) d = Some Dir" unfolding fs_wf_def by (metis butlast_snoc)
    from walk_ok [OF assms(2) this, of n] True assms(5) show False by simp
  qed
  with True assms(1,3,4) show ?thesis by (simp add: os_RemoveAll_def)
next
  case False
  have "q \<noteq> []" if "within (resolve p) q" using that assms(5) by (auto simp: within_def)
  with False assms(1,3,4) show ?thesis by (simp add: os_RemoveAll_def)
qed

lemma clean_dir_gone:
  assumes "no_faults (ce_os V)" and "fs_wf (w_fs (snd s))" and "dirs_ok (fst s)"
    and "dir \<in> {downloadDirectory, prepareDirectory, encryptDirectory}"
  shows "fst (snd (clean_dir V dir what s)) = fst s" and "fs_wf (w_fs (snd (snd (clean_dir V dir what s))))"
    and "fs_lookup (w_fs (snd (snd (clean_dir V dir what s)))) q
      = (if dir (fst s) \<noteq> [] \<and> within (resolve (dir (fst s))) q then None else fs_lookup (w_fs (snd s)) q)"
proof -
  let ?r = "os_RemoveAll (ce_os V) (dir (fst s)) (snd s)"
  obtain e w where r: "?r = (e, w)" by (metis surj_pair)
  then have f: "fst (snd (clean_dir V dir what s)) = fst s" "w_fs (snd (snd (clean_dir V dir what s))) = w_fs (snd ?r)"
    by (cases e; simp add: clean_dir_def run_steps_Cons logging_def on_world_def log_step_def)+
  then show "fst (snd (clean_dir V dir what s)) = fst s" by simp
  have "dir (fst s) = [] \<or> resolve (dir (fst s)) \<noteq> []"
    using dirs_ok_resolve [OF assms(3), of "dir (fst s)"] assms(4) by auto
  with f(2) fs_wf_os_RemoveAll [OF assms(2)] show "fs_wf (w_fs (snd (snd (clean_dir V dir what s))))" by auto
  show "fs_lookup (w_fs (snd (snd (clean_dir V dir what s)))) q
      = (if dir (fst s) \<noteq> [] \<and> within (resolve (dir (fst s))) q then None else fs_lookup (w_fs (snd s)) q)"
  proof (cases "dir (fst s) = []")
    case True
    with f(2) show ?thesis by (simp add: os_RemoveAll_def)
  next
    case False
    have "work_dir (TmpDir (cl_config (fst s))) (dir (fst s))"
      using assms(3,4) False by (auto simp: dirs_ok_def)
    then obtain n where "resolve (dir (fst s)) = resolve (TmpDir (cl_config (fst s))) @ [n]" "\<not> ends_with_dot (dir (fst s))"
      by (auto simp: work_dir_def temp_entry_def)
    from RemoveAll_gone [OF assms(1,2) False this(2,1), of q] f(2) False show ?thesis by simp
  qed
qed

lemma cleanDirectories_gone:
  assumes "no_faults (ce_os V)" and "fs_wf (w_fs (snd s))" and "dirs_ok (fst s)"
  shows "fst (cleanDirectories V s) = fst s"
    and "fs_lookup (w_fs (snd (cleanDirectories V s))) q
      = (if work_region (fst s) q then None else fs_lookup (w_fs (snd s)) q)"
proof -
  define s0 where "s0 = clog DEBUG ''Cleaning directories'' None (dir_data (fst s)) s"
  define s1 where "s1 = snd (cleanDownloadDirectory V s0)"
  define s2 where "s2 = snd (cleanPrepareDirectory V s1)"
  define s3 where "s3 = snd (cleanEncryptDirectory V s2)"
  have 0: "fst s0 = fst s" "w_fs (snd s0) = w_fs (snd s)" by (simp_all add: s0_def)
  note c1 = clean_dir_gone [of V s0 downloadDirectory "''download''", folded cleanDownloadDirectory_def s1_def, unfolded 0]
  note 1 = c1 [OF assms, simplified]
  note c2 = clean_dir_gone [of V s1 prepareDirectory "''prepare''", folded cleanPrepareDirectory_def s2_def, unfolded 1(1)]
  note 2 = c2 [OF assms(1) 1(2) assms(3), simplified]
  note c3 = clean_dir_gone [of V s2 encryptDirectory "''encrypt''", folded cleanEncryptDirectory_def s3_def, unfolded 2(1)]
  note 3 = c3 [OF assms(1) 2(2) assms(3), simplified]
  have "cleanDirectories V s = s3"
    by (simp only: cleanDirectories_def Let_def s0_def s1_def s2_def s3_def)
  with 1 2 3 show "fst (cleanDirectories V s) = fst s"
    "fs_lookup (w_fs (snd (cleanDirectories V s))) q = (if work_region (fst s) q then None else fs_lookup (w_fs (snd s)) q)"
    by (auto simp: work_region_def)
qed

lemma work_region_dirs:
  "work_region c q \<longleftrightarrow> (\<exists>d \<in> set work_dirs. d c \<noteq> [] \<and> within (resolve (d c)) q)"
  by (auto simp: work_region_def)

context download_service
begin

lemma occupied_BackupNode:
  assumes "cl_downloader (fst s) = dl" and "programs_wf (ce_programs V)" and "frame_ok V (fst s)"
    and "dirs_ok (fst s)" and "output_apart (cl_config (fst s))" and "inst \<in> set (Instances (cl_config (fst s)))"
    and "fs_wf (w_fs (snd s))" and "occupied [] s" and "BackupNode V inst s = (e, u)"
  shows "occupied work_dirs u" and "fs_wf (w_fs (snd u))" and "dirs_ok (fst u)"
proof -
  have tmp: "TmpDir (cl_config (fst s)) \<noteq> []" using assms(3) by (simp add: frame_ok_def)
  show "fs_wf (w_fs (snd u))" using fs_wf_BackupNode [OF assms(1,2) tmp assms(7), of inst] assms(9) by simp
  show "dirs_ok (fst u)" using evolves_BackupNode [OF assms(1,3,4,6)] assms(4,9) by (simp add: evolves_def)
  obtain e1 t where c: "createDirectories V s = (e1, t)" by (metis surj_pair)
  from occupied_createDirectories [OF assms(8) tmp, of V] c have o: "occupied work_dirs t" by simp
  show "occupied work_dirs u"
  proof (cases e1)
    case (Some x)
    with c o assms(9) show ?thesis by (simp add: BackupNode_steps run_steps_Cons)
  next
    case None
    from createDirectories_None [OF c [unfolded None] tmp] have p: "prepareDirectory (fst t) \<noteq> []"
      and b: "base (fst t) = base (fst s)" by metis+
    note bf = base_fields [OF b]
    let ?Q = "\<lambda>q. within (resolve (prepareDirectory (fst t))) q \<or> artifact_region (cl_config (fst t)) (UUID inst) q"
    have "CHR ''/'' \<notin> set (UUID inst)" using assms(3,6) by (auto simp: frame_ok_def list_all_iff)
    note ar = artifact_regions [OF this, of "fst t"]
    have "kept ?Q t (snd (run_steps (node_steps V inst) t))"
      by (rule kept_node_steps)
        (use assms(1,3) bf frame_ok_base [OF b, of V] ar in \<open>auto simp: frame_ok_def\<close>)
    with c None assms(9) have k: "kept ?Q t u" by (simp add: BackupNode_steps run_steps_Cons)
    show ?thesis unfolding occupied_def
    proof (intro allI impI)
      fix q
      assume q: "tmp_region (cl_config (fst u)) q" "fs_lookup (w_fs (snd u)) q \<noteq> None"
      from kept_client [OF k] bf(1) have f: "fst u = fst t" "cl_config (fst t) = cl_config (fst s)" by simp_all
      have na: "\<not> artifact_region (cl_config (fst t)) (UUID inst) q"
        using artifact_not_tmp [of "cl_config (fst t)" "UUID inst" q] assms(5) q(1) f by auto
      show "\<exists>d \<in> set work_dirs. d (fst u) \<noteq> [] \<and> within (resolve (d (fst u))) q"
      proof (cases "within (resolve (prepareDirectory (fst t))) q")
        case True
        with p f(1) show ?thesis by simp
      next
        case False
        with na same_exceptD [OF kept_fs [OF k]] q(2) have "fs_lookup (w_fs (snd t)) q \<noteq> None" by simp
        with o q(1) f(1) show ?thesis unfolding occupied_def f(1) by blast
      qed
    qed
  qed
qed

lemma occupied_backup_instance:
  assumes "cl_downloader (fst s) = dl" and "programs_wf (ce_programs V)" and "frame_ok V (fst s)"
    and "dirs_ok (fst s)" and "output_apart (cl_config (fst s))" and "inst \<in> set (Instances (cl_config (fst s)))"
    and "fs_wf (w_fs (snd s))" and "occupied [] s" and "no_faults (ce_os V)"
  shows "occupied [] (snd (backup_instance V inst s))"
proof -
  let ?s = "start_instance V inst s"
  have b: "base (fst ?s) = base (fst s)" "dirs_ok (fst ?s) = dirs_ok (fst s)" "w_fs (snd ?s) = w_fs (snd s)"
    by (simp_all add: start_instance_def time_now_def base_def dirs_ok_def)
  note bf = base_fields [OF b(1)]
  have o: "occupied [] ?s" using assms(8) b(3) bf(1) by (simp add: occupied_def)
  obtain e u where n: "BackupNode V inst ?s = (e, u)" by (metis surj_pair)
  note u = occupied_BackupNode [OF _ assms(2) _ _ _ _ _ o n]
  have h: "cl_downloader (fst ?s) = dl" "frame_ok V (fst ?s)" "dirs_ok (fst ?s)" "output_apart (cl_config (fst ?s))"
    "inst \<in> set (Instances (cl_config (fst ?s)))" "fs_wf (w_fs (snd ?s))"
    using assms b bf frame_ok_base [OF b(1), of V] by simp_all
  note u = u [OF h]
  note g = cleanDirectories_gone [OF assms(9) u(2,3)]
  have "fs_lookup (w_fs (snd (cleanDirectories V u))) q = None" if "tmp_region (cl_config (fst u)) q" for q
  proof (cases "work_region (fst u) q")
    case False
    with u(1) that have "fs_lookup (w_fs (snd u)) q = None"
      unfolding occupied_def work_region_dirs by blast
    with False show ?thesis by (simp add: g(2))
  qed (simp add: g(2))
  then have "occupied [] (cleanDirectories V u)" by (simp add: occupied_def g(1))
  with n show ?thesis by (simp add: backup_instance_def)
qed

end

text \<open>
  C13: When no call of the system fails, nothing is left of the working directories below
  TmpDir after Execute, whether the backups of the instances succeeded or not.
\<close>

theorem nothing_left_behind:
  assumes "no_faults (ce_os V)" and "cl_downloader (fst s) = DownloadBackup D cfg" and "programs_wf (ce_programs V)"
    and "frame_ok V (fst s)" and "dirs_ok (fst s)" and "output_apart (cl_config (fst s))"
    and "list_all no_meta (resolve (TmpDir (cl_config (fst s))))" and "fs_plain (w_fs (snd s))"
    and "fs_wf (w_fs (snd s))" and "tmp_region (cl_config (fst s)) q"
  shows "fs_lookup (w_fs (snd (snd (Execute V s)))) q = None"
proof -
  let ?P = "\<lambda>t. fs_wf (w_fs (snd t)) \<and> (\<forall>q. tmp_region (cl_config (fst s)) q \<longrightarrow> fs_lookup (w_fs (snd t)) q = None)"
  from cleanTmp_ok [OF assms(1,7-9)] have c: "?P (snd (cleanTmpDirectories V s))" by auto
  have "?P (snd (Execute V s))"
  proof (rule http.Execute_keeps [where P = ?P, OF _ assms(2,4,5) c])
    fix i u
    assume i: "i \<in> set (Instances (cl_config (fst s)))" and l: "http.loop_ok V (fst s) u" and w: "?P u"
    from l have b: "base (fst u) = base (fst s)" and d: "dirs_ok (fst u)" by (simp_all add: http.loop_ok_def)
    note bf = base_fields [OF b]
    have h: "cl_downloader (fst u) = DownloadBackup D cfg" "frame_ok V (fst u)" "output_apart (cl_config (fst u))"
      "i \<in> set (Instances (cl_config (fst u)))" "fs_wf (w_fs (snd u))" "occupied [] u"
      using assms i w bf frame_ok_base [OF b, of V] by (simp_all add: occupied_def)
    have l': "http.loop_ok V (fst s) (snd (backup_instance V i u))"
      by (rule http.loop_ok_instance [OF l assms(2,4) i])
    then have "base (fst (snd (backup_instance V i u))) = base (fst s)" by (simp add: http.loop_ok_def)
    from base_fields(1) [OF this] http.occupied_backup_instance [OF h(1) assms(3) h(2) d h(3-6) assms(1)]
      http.backup_instance_tree [OF h(1) assms(3) h(2) d h(4,5)]
    show "?P (snd (backup_instance V i u))" by (simp add: occupied_def)
  qed simp
  with assms(10) show ?thesis by blast
qed

theorem nothing_left_behind_witness:
  "fs_lookup (w_fs (snd (snd (Execute tree_env sample_start))))
     [''tmp'', ''mysql-backup-prepare1'', ''xtrabackup_info''] = None"
proof -
  have "fs_plain sample_fs" "list_all no_meta [''tmp'']" "fs_wf sample_fs" by code_simp+
  moreover have "tmp_region sample_config [''tmp'', ''mysql-backup-prepare1'', ''xtrabackup_info'']"
    by (auto simp: tmp_region_def temp_entry_def tmp_prefix_def HasPrefix_def within_def
        intro!: exI [of _ "[''tmp'', ''mysql-backup-prepare1'']"])
  ultimately show ?thesis
    using nothing_left_behind [of tree_env sample_start sample_download sample_config]
      tree_frame_ok tree_programs_wf sample_no_faults sample_output_apart
    by simp
qed

end
