(* ===== verification/Run_Liveness.thy ===== *)
theory Run_Liveness
  imports Run_State
begin

text \<open>
  One instance that can be backed up is enough: the failures of the others do not keep a run
  from succeeding, because each instance leaves the directories as it found them.
\<close>

subsection \<open>Directories\<close>

text \<open>Outside of the region of the working directories nothing becomes a directory.\<close>

definition no_new_dirs :: "client_config \<Rightarrow> fs \<Rightarrow> fs \<Rightarrow> bool" where
  "no_new_dirs cfg a b \<longleftrightarrow>
     (\<forall>q. \<not> tmp_region cfg q \<longrightarrow> fs_lookup b q = Some Dir \<longrightarrow> fs_lookup a q = Some Dir)"

lemma no_new_dirs_refl [simp]: "no_new_dirs cfg a a"
  by (simp add: no_new_dirs_def)

lemma no_new_dirs_trans: "no_new_dirs cfg a b \<Longrightarrow> no_new_dirs cfg b c \<Longrightarrow> no_new_dirs cfg a c"
  by (simp add: no_new_dirs_def)

lemma no_new_dirs_file:
  assumes "p \<noteq> []"
  shows "no_new_dirs cfg fs (fs_put p (File m c) fs)"
  using assms by (auto simp: no_new_dirs_def fs_lookup_put split: if_splits)

lemma no_new_dirs_append: "no_new_dirs cfg fs (append_file p x fs)"
  by (auto simp: append_file_def intro: no_new_dirs_file split: option.split node.split)

lemma no_new_dirs_outside:
  assumes "same_except Q a b" and "\<And>q. Q q \<Longrightarrow> tmp_region cfg q"
  shows "no_new_dirs cfg a b"
  using assms unfolding no_new_dirs_def same_except_def by metis

interpretation no_dirs: file_relation "no_new_dirs cfg" "\<lambda>_. True"
  by unfold_locales
    (auto intro: no_new_dirs_trans no_new_dirs_file no_new_dirs_append dest: create_err_path
      simp: os_Create_def os_Write_def split: option.split)

text \<open>Where the directories are ready, the region of the working directories is empty.\<close>

lemma dirs_ready_occupied:
  assumes "dirs_ready (cl_config (fst s)) (w_fs (snd s))"
  shows "occupied [] s"
proof -
  have "fs_lookup (w_fs (snd s)) q = None" if q: "tmp_region (cl_config (fst s)) q" for q
  proof (rule ccontr)
    assume ne: "fs_lookup (w_fs (snd s)) q \<noteq> None"
    from q obtain e where e: "temp_entry (TmpDir (cl_config (fst s))) tmp_prefix e" "within e q"
      by (auto simp: tmp_region_def)
    then have "e \<noteq> []" by (auto simp: temp_entry_def)
    from fs_wf_ancestor [OF _ ne e(2) this] assms have "e \<in> set (map fst (w_fs (snd s)))"
      by (simp add: dirs_ready_def)
    with \<open>e \<noteq> []\<close> have "fs_lookup (w_fs (snd s)) e \<noteq> None" by (simp add: fs_lookup_def map_of_eq_None_iff)
    with assms e(1) show False by (simp add: dirs_ready_def)
  qed
  then show ?thesis by (simp add: occupied_def)
qed

text \<open>The programs of a node make directories where they are allowed to only.\<close>

lemma no_dirs_node_runs:
  assumes "programs_confined P c" and "\<And>q. within (resolve (prepareDirectory c)) q \<Longrightarrow> tmp_region cfg q"
  shows "node_runs (no_new_dirs cfg) P c"
  using programs_confined_runs [of P c "tmp_region cfg", OF assms]
  unfolding node_runs_def runs_in_def by (blast intro: no_new_dirs_outside)

context download_service
begin

lemma no_dirs_BackupNode:
  assumes "cl_downloader (fst s) = dl" and "frame_ok V (fst s)" and "dirs_ok (fst s)"
  shows "no_new_dirs (cl_config (fst s)) (w_fs (snd s)) (w_fs (snd (snd (BackupNode V inst s))))"
proof -
  let ?cfg = "cl_config (fst s)"
  obtain e t where c: "createDirectories V s = (e, t)" by (metis surj_pair)
  have tmp: "TmpDir ?cfg \<noteq> []" using assms(2) by (simp add: frame_ok_def)
  from evolves_createDirectories [OF tmp, where Q = "tmp_region ?cfg" and V = V] c
  have et: "evolves (tmp_region ?cfg) s t" by simp
  then have st: "no_new_dirs ?cfg (w_fs (snd s)) (w_fs (snd t))"
    by (auto simp: evolves_def intro: no_new_dirs_outside)
  show ?thesis
  proof (cases e)
    case (Some x)
    with c st show ?thesis by (simp add: BackupNode_steps run_steps_Cons)
  next
    case None
    from createDirectories_None [OF c [unfolded None] tmp] have p: "prepareDirectory (fst t) \<noteq> []" by metis
    from et assms(3) have b: "base (fst t) = base (fst s)" and d: "dirs_ok (fst t)" by (simp_all add: evolves_def)
    note bf = base_fields [OF b]
    have "node_runs (no_new_dirs ?cfg) (ce_programs V) (fst t)"
      by (rule no_dirs_node_runs)
        (use prepare_dir_within [OF d p] bf frame_ok_base [OF b, of V] assms(2) in \<open>simp_all add: frame_ok_def\<close>)
    from kept_fs [OF rel_node_steps [OF no_dirs.file_relation_axioms _ this TrueI TrueI, of inst]] bf assms(1)
    have "no_new_dirs ?cfg (w_fs (snd t)) (w_fs (snd (snd (run_steps (node_steps V inst) t))))" by simp
    from no_new_dirs_trans [OF st this] c None show ?thesis
      by (simp add: BackupNode_steps run_steps_Cons)
  qed
qed

lemma no_dirs_backup_instance:
  assumes "cl_downloader (fst s) = dl" and "frame_ok V (fst s)" and "dirs_ok (fst s)"
  shows "no_new_dirs (cl_config (fst s)) (w_fs (snd s)) (w_fs (snd (snd (backup_instance V inst s))))"
proof -
  let ?s = "start_instance V inst s"
  have b: "base (fst ?s) = base (fst s)" "dirs_ok (fst ?s) = dirs_ok (fst s)" "w_fs (snd ?s) = w_fs (snd s)"
    by (simp_all add: start_instance_def time_now_def base_def dirs_ok_def)
  note bf = base_fields [OF b(1)]
  have h: "cl_downloader (fst ?s) = dl" "frame_ok V (fst ?s)" "dirs_ok (fst ?s)"
    using assms b bf frame_ok_base [OF b(1), of V] by simp_all
  obtain e t where n: "BackupNode V inst ?s = (e, t)" by (metis surj_pair)
  from no_dirs_BackupNode [OF h, of inst] n b bf
  have 1: "no_new_dirs (cl_config (fst s)) (w_fs (snd s)) (w_fs (snd t))" by simp
  from evolves_BackupNode_exact [OF h, of inst] n have ev: "evolves (node_region (fst ?s) (UUID inst)) ?s t" by simp
  from ev h(3) have e: "dirs_ok (fst t)" "cl_config (fst t) = cl_config (fst ?s)"
    using evolves_config [OF ev] by (simp_all only: evolves_def simp_thms)
  have "no_new_dirs (cl_config (fst s)) (w_fs (snd t)) (w_fs (snd (cleanDirectories V t)))"
    using dirs_ok_within [OF e(1)] e(2) bf(1)
    by (intro no_new_dirs_outside [OF kept_fs [OF kept_cleanDirectories]]) simp
  from no_new_dirs_trans [OF 1 this] n show ?thesis by (simp add: backup_instance_def)
qed

text \<open>An instance leaves the directories ready for the next one.\<close>

lemma dirs_ready_backup_instance:
  assumes "cl_downloader (fst s) = dl" and "programs_wf (ce_programs V)" and "frame_ok V (fst s)"
    and "dirs_ok (fst s)" and "output_apart (cl_config (fst s))" and "inst \<in> set (Instances (cl_config (fst s)))"
    and "no_faults (ce_os V)" and "dirs_ready (cl_config (fst s)) (w_fs (snd s))"
  shows "dirs_ready (cl_config (fst s)) (w_fs (snd (snd (backup_instance V inst s))))"
proof -
  let ?cfg = "cl_config (fst s)"
  define t where "t = snd (backup_instance V inst s)"
  from assms(8) have r: "fs_wf (w_fs (snd s))" "TmpDir ?cfg \<noteq> []"
    "fs_lookup (w_fs (snd s)) (resolve (TmpDir ?cfg)) = Some Dir"
    "fs_lookup (w_fs (snd s)) (resolve (OutputDir ?cfg)) = Some Dir"
    "\<And>uuid q. artifact_region ?cfg uuid q \<Longrightarrow> fs_lookup (w_fs (snd s)) q \<noteq> Some Dir"
    by (auto simp: dirs_ready_def)
  have wf: "fs_wf (w_fs (snd t))"
    unfolding t_def by (rule backup_instance_tree [OF assms(1-4,6) r(1)])
  have ev: "evolves (inst_region ?cfg (UUID inst)) s t"
    unfolding t_def by (rule evolves_backup_instance [OF assms(1,3,4,6)])
  note cfg = evolves_config [OF ev]
  have "occupied [] t"
    unfolding t_def
    by (rule occupied_backup_instance [OF assms(1-6) r(1) dirs_ready_occupied [OF assms(8)] assms(7)])
  then have em: "fs_lookup (w_fs (snd t)) q = None" if "temp_entry (TmpDir ?cfg) tmp_prefix q" for q
    using that cfg by (auto simp: occupied_def tmp_region_def intro: within_refl)
  have same: "fs_lookup (w_fs (snd t)) q = fs_lookup (w_fs (snd s)) q"
    if "\<not> tmp_region ?cfg q" "fs_lookup (w_fs (snd s)) q = Some Dir" for q
    using ev that r(5) by (auto simp: evolves_def same_except_def inst_region_def)
  have nd: "fs_lookup (w_fs (snd t)) q \<noteq> Some Dir" if "artifact_region ?cfg uuid q" for uuid q
    using no_dirs_backup_instance [OF assms(1,3,4), of inst] r(5) [OF that] artifact_not_tmp [OF assms(5) that]
    by (auto simp: no_new_dirs_def t_def)
  have "fs_lookup (w_fs (snd t)) (resolve (TmpDir ?cfg)) = Some Dir"
    using same [OF TmpDir_not_region r(3)] r(3) by simp
  moreover have "fs_lookup (w_fs (snd t)) (resolve (OutputDir ?cfg)) = Some Dir"
    using same [OF _ r(4)] assms(5) r(4) by (simp add: output_apart_def)
  ultimately show ?thesis
    using wf r(2) em nd unfolding dirs_ready_def t_def [symmetric] by blast
qed

end

subsection \<open>Runs\<close>

text \<open>The choice depends on the client only.\<close>

lemma choose_instances_client:
  assumes "fst s = fst t"
  shows "fst (choose_instances s) = fst (choose_instances t)"
proof -
  let ?c = "cl_config (fst t)"
  have sel: "fst (select_instance (cl_galeraAgentCaller (fst t)) (Instances ?c) 0 no_instance s)
      = fst (select_instance (cl_galeraAgentCaller (fst t)) (Instances ?c) 0 no_instance t)"
    by (simp only: select_instance_last_max)
  then show ?thesis
    unfolding choose_instances_def Let_def assms
    by (cases "select_instance (cl_galeraAgentCaller (fst t)) (Instances ?c) 0 no_instance s";
        cases "select_instance (cl_galeraAgentCaller (fst t)) (Instances ?c) 0 no_instance t") simp
qed

context reliable_download
begin

text \<open>
  When the loop comes to an instance that can be backed up, its backup succeeds, whatever
  became of those before it.
\<close>

lemma backup_loop_some_ok:
  assumes "inst \<in> set is" and "backup_loop V is errs s = (es, t)"
    and "loop_ok V cc s" and "dirs_ready (cl_config cc) (w_fs (snd s))"
    and "set is \<subseteq> set (Instances (cl_config cc))"
    and "no_faults (ce_os V)" and "cl_downloader cc = dl" and "frame_ok V cc"
    and "programs_wf (ce_programs V)" and "output_apart (cl_config cc)"
    and "snd (pgp_init (ce_pgp V) (ck_key (cl_encryptor cc))) = None"
    and "\<And>n. delivers n (backup_url cc (Address inst)) r"
    and "programs_work (ce_programs V) cc (rd_chunks r)"
  shows "length es < length errs + length is"
  using assms(1-5)
proof (induction "is" arbitrary: errs s)
  case (Cons i "is")
  from Cons.prems(3) have b: "base (fst s) = base cc" and d: "dirs_ok (fst s)" by (simp_all add: loop_ok_def)
  note bf = base_fields [OF b]
  obtain e u where bi: "backup_instance V i s = (e, u)" by (metis surj_pair)
  have h: "cl_downloader (fst s) = dl" "frame_ok V (fst s)" "output_apart (cl_config (fst s))"
    "dirs_ready (cl_config (fst s)) (w_fs (snd s))"
    using assms(7,8,10) Cons.prems(4) bf frame_ok_base [OF b, of V] by simp_all
  show ?case
  proof (cases "i = inst")
    case True
    have "\<exists>t. backup_instance V inst s = (None, t)"
      by (rule backup_instance_ok [OF assms(6) h(1), of inst r])
        (use assms(11-13) True Cons.prems(5) bf h backup_url_base [OF b] in \<open>simp_all add: programs_work_def\<close>)
    with bi True Cons.prems(2) have "backup_loop V is errs u = (es, t)" by simp
    from backup_loop_length [OF this] show ?thesis by simp
  next
    case False
    with Cons.prems(1) have m: "inst \<in> set is" by simp
    have i: "i \<in> set (Instances (cl_config cc))" and sub: "set is \<subseteq> set (Instances (cl_config cc))"
      using Cons.prems(5) by simp_all
    from loop_ok_instance [OF Cons.prems(3) assms(7,8) i] bi have l: "loop_ok V cc u" by simp
    from dirs_ready_backup_instance [OF h(1) assms(9) h(2) d h(3) _ assms(6) h(4), of i] i bi bf(1)
    have r: "dirs_ready (cl_config cc) (w_fs (snd u))" by simp
    note IH = Cons.IH [OF m _ l r sub]
    show ?thesis
    proof (cases e)
      case None
      with bi Cons.prems(2) have "backup_loop V is errs u = (es, t)" by simp
      from IH [OF this] show ?thesis by simp
    next
      case (Some x)
      with bi Cons.prems(2) have "backup_loop V is (errs @ [x]) u = (es, t)" by simp
      from IH [OF this] show ?thesis by simp
    qed
  qed
qed simp

lemma Execute_some_ok:
  assumes "no_faults (ce_os V)" and "start_ready (cl_config (fst s)) (w_fs (snd s))"
    and "cl_downloader (fst s) = dl" and "frame_ok V (fst s)" and "dirs_ok (fst s)"
    and "programs_wf (ce_programs V)" and "snd (pgp_init (ce_pgp V) (ck_key (cl_encryptor (fst s)))) = None"
    and "choose_instances s = (Returned (Inr is), u)" and "inst \<in> set is"
    and "\<And>n. delivers n (backup_url (fst s) (Address inst)) r"
    and "programs_work (ce_programs V) (fst s) (rd_chunks r)"
  shows "\<exists>t. Execute V s = (Returned None, t)"
proof -
  from start_ready_clean [OF assms(1,2)] obtain s1 where c: "cleanTmpDirectories V s = (None, s1)"
    and f: "fst s1 = fst s" and d: "dirs_ready (cl_config (fst s)) (w_fs (snd s1))" by blast
  obtain x s2 where ch: "choose_instances s1 = (x, s2)" by (metis surj_pair)
  with choose_instances_client [OF f] assms(8) have x: "x = Returned (Inr is)" by simp
  note cf = choose_instances_facts [OF ch]
  obtain es t where l: "backup_loop V is [] s2 = (es, t)" by (metis surj_pair)
  have "length es < length ([] :: go_error list) + length is"
    by (rule backup_loop_some_ok [OF assms(9) l, where cc = "fst s" and r = r])
      (use assms f d cf(1,2) cf(3) [OF x] in \<open>auto simp: loop_ok_def start_ready_def\<close>)
  with c ch x l show ?thesis by (simp add: Execute_def)
qed

end

end
