(* ===== verification/Run_Program.thy ===== *)
theory Run_Program
  imports Run_Properties Run_Liveness
begin

text \<open>
  Runs against a cluster succeed when one node can be backed up, and the client program as a
  whole, from its arguments to the way it ends: it returns from main when an instance was
  backed up, and ends with the errors of all of them otherwise.
\<close>

subsection \<open>One good node\<close>

text \<open>What a host of the cluster answers when xtrabackup succeeds on it.\<close>

lemma cluster_answered:
  assumes "plain_host ip" and "BackupServerPort (cl_config c) = int n" and "hosts (ip @ '':'' @ nat_decimal n) = h"
    and "succeeds (host_outcome h)" and "let_in (h_config h) (backup_request cfg (backup_url_of ip n))"
    and "link_holds (links k) (oc_out (host_outcome h))"
  shows "answered (D\<lparr>d_Do := cluster hosts links\<rparr>) cfg k (backup_url c ip)
    \<lparr>rd_chunks = oc_out (host_outcome h), rd_err = None\<rparr>"
  unfolding host_outcome_def
  by (rule served_answers [where links = links and k = k, OF assms(5) assms(4,6) [unfolded host_outcome_def] parse_backup_url [OF assms(1,2)]])
    (use backup_url_request(2) assms(3) in \<open>simp_all add: cluster_def backup_url_of_def Let_def\<close>)

text \<open>
  C9: When the directories exist and no call of the client fails, one chosen instance is
  enough for Execute to return nil, in each of the three modes: one on whose host xtrabackup
  succeeds, over connections that hold, with the right credentials and programs that can
  handle its backup. Whatever happens on the other instances, each leaves the directories
  ready for the next.
\<close>

theorem one_good_node_suffices:
  assumes "no_faults (ce_os V)" and "start_ready (cl_config (fst s)) (w_fs (snd s))"
    and "cl_downloader (fst s) = DownloadBackup (D\<lparr>d_Do := cluster hosts links\<rparr>) cfg"
    and "frame_ok V (fst s)" and "dirs_ok (fst s)"
    and "programs_wf (ce_programs V)" and "snd (pgp_init (ce_pgp V) (ck_key (cl_encryptor (fst s)))) = None"
    and "choose_instances s = (Returned (Inr is), u)" and "inst \<in> set is"
    and "plain_host (Address inst)" and "BackupServerPort (cl_config (fst s)) = int n"
    and "hosts (Address inst @ '':'' @ nat_decimal n) = h"
    and "succeeds (host_outcome h)" and "let_in (h_config h) (backup_request cfg (backup_url_of (Address inst) n))"
    and "\<forall>k. link_holds (links k) (oc_out (host_outcome h))"
    and "programs_work (ce_programs V) (fst s) (oc_out (host_outcome h))"
  shows "\<exists>t. Execute V s = (Returned None, t)"
proof (rule http_ok.Execute_some_ok [OF assms(1-9)])
  show "answered (D\<lparr>d_Do := cluster hosts links\<rparr>) cfg k (backup_url (fst s) (Address inst))
      \<lparr>rd_chunks = oc_out (host_outcome h), rd_err = None\<rparr>" for k
    using assms(15) by (intro cluster_answered [where hosts = hosts and ip = "Address inst" and n = n, OF assms(10-14)]) simp
qed (use assms(16) in simp)

text \<open>Two hosts: on the first one xtrabackup fails, the second one is the sample server.\<close>

definition half_hosts :: "string \<Rightarrow> host" where
  "half_hosts a = (if HasPrefix a ''10.0.0.1''
     then \<lparr>h_programs = (\<lambda>c input fs. exits 1 [] fs), h_fs = [], h_config = sample_server_config\<rparr>
     else sample_host_of a)"

abbreviation half_download :: download_env where
  "half_download \<equiv> sample_download\<lparr>d_Do := cluster half_hosts (\<lambda>_. Inr (None, None))\<rparr>"

definition half_client :: client where
  "half_client = sample_client\<lparr>cl_downloader := DownloadBackup half_download sample_config\<rparr>"

lemma half_client_simps [simp]:
  "cl_config half_client = sample_config" "cl_downloader half_client = DownloadBackup half_download sample_config"
  "dirs_ok half_client" "cl_encryptor half_client = cl_encryptor sample_client"
  using sample_client_simps(7) by (simp_all add: half_client_def dirs_ok_def)

lemma half_frame_ok: "frame_ok tree_env half_client"
  using tree_frame_ok by (simp add: frame_ok_def programs_confined_def half_client_def)

lemma half_programs_work: "programs_work tree_programs half_client input"
  using tree_programs_work by (simp add: programs_work_def half_client_def)

lemma half_second: "half_hosts (''10.0.0.2'' @ p) = sample_host_of (''10.0.0.2'' @ p)"
  by (simp add: half_hosts_def HasPrefix_def)

lemma half_link: "link_holds (Inr (None, None)) cs"
  by (simp add: link_holds_def takes_all_def)

lemma half_choice: "choose_instances (half_client, w) = (Returned (Inr (Instances sample_config)), (half_client, w))"
  by (simp add: choose_instances_def Let_def)

lemma half_second_config: "h_config (sample_host_of a) = sample_server_config"
  by (simp add: sample_host_of_def)

lemma half_second_succeeds: "succeeds (host_outcome (sample_host_of a))"
  by (simp add: sample_host_outcome succeeds_def exits_def)

lemma half_start:
  "no_faults (ce_os tree_env)" "start_ready sample_config (w_fs (new_world sample_fs))"
  "snd (pgp_init sample_pgp k) = None"
  using sample_no_faults sample_start_ready by (simp_all add: new_world_def sample_pgp_def)

theorem one_good_node_suffices_witness:
  "\<not> succeeds (host_outcome (half_hosts (''10.0.0.1'' @ '':'' @ nat_decimal 8081)))
   \<and> (\<exists>t. Execute tree_env (half_client, new_world sample_fs) = (Returned None, t))"
proof
  show "\<not> succeeds (host_outcome (half_hosts (''10.0.0.1'' @ '':'' @ nat_decimal 8081)))"
    by (simp add: half_hosts_def HasPrefix_def host_outcome_def backup_outcome_def succeeds_def exits_def)
  show "\<exists>t. Execute tree_env (half_client, new_world sample_fs) = (Returned None, t)"
    by (rule one_good_node_suffices [where D = sample_download and hosts = half_hosts and links = "\<lambda>_. Inr (None, None)"
          and cfg = sample_config and n = 8081 and inst = "\<lparr>Address = ''10.0.0.2'', UUID = ''b''\<rparr>"
          and h = "sample_host_of (''10.0.0.2'' @ '':'' @ nat_decimal 8081)", OF half_start(1) _ _ _ _ _ _ half_choice])
      (simp_all add: half_start(2,3) [simplified] half_frame_ok tree_programs_wf sample_hosts_plain sample_let_in half_link
        half_programs_work half_second [simplified] half_second_config half_second_succeeds)
qed

subsection \<open>How the program ends\<close>

text \<open>How main ends with a configuration that could be read.\<close>

lemma client_main_run:
  assumes "NewConfig (ce_os V) X getenv unmarshal osArgs w = (Returned (None, cfg), w1)"
    and "NewSystemTarClient goos = Returned tc"
    and "Execute V (client_of X D G cfg tc, w1) = (Returned r, c, w2)"
  obtains w' where "client_main V X getenv unmarshal goos D G osArgs w
      = (case r of None \<Rightarrow> Returned () | Some e \<Rightarrow> Panicked e, w')" and "w_fs w' = w_fs w2"
  using assms that unfolding client_main_def by (cases r) auto


text \<open>The sample client, with the cluster in which the backup of the second host succeeds only.\<close>

lemma half_client_of: "client_of sample_x509 half_download sample_galera sample_config NewGnuTarClient = half_client"
  by (simp add: half_client_def sample_client_def client_of_def NewClient_def)

lemma half_run: "\<exists>t. Execute tree_env (half_client, new_world sample_fs) = (Returned None, t)"
proof (rule http_ok.Execute_some_ok [where D = half_download and c = sample_config and
      inst = "\<lparr>Address = ''10.0.0.2'', UUID = ''b''\<rparr>" and r = "\<lparr>rd_chunks = [''tool = x'', [nl]], rd_err = None\<rparr>",
      OF half_start(1) _ _ _ _ _ _ half_choice], goal_cases)
  case (8 k)
  have "BackupServerPort (cl_config half_client) = int 8081" by simp
  from cluster_answered [where links = "\<lambda>_. Inr (None, None)" and k = k and cfg = sample_config
        and hosts = half_hosts, OF sample_hosts_plain(2) this half_second half_second_succeeds _ half_link] show ?case
    by (simp add: half_second_config sample_let_in sample_host_outcome exits_def)
qed (use half_start(2,3) half_frame_ok tree_programs_wf half_programs_work in simp_all)


end
