(* ===== verification/Run_Artifacts.thy ===== *)
theory Run_Artifacts
  imports Run_State
begin

text \<open>
  The artifacts of different runs: their names carry the time at which the backup of an
  instance began, and a run touches the files of its own times only.
\<close>

definition artifact_path :: "client_config \<Rightarrow> int \<Rightarrow> string \<Rightarrow> string \<Rightarrow> string list" where
  "artifact_path cfg v uuid ext =
     resolve (OutputDir cfg) @ [''mysql-backup-'' @ decimal v @ ''-'' @ uuid @ ext]"

lemma artifact_path_inject:
  assumes "artifact_path cfg v uuid ext = artifact_path cfg w uuid' ext'"
  shows "v = w"
proof -
  from assms have "decimal v @ CHR ''-'' # (uuid @ ext) = decimal w @ CHR ''-'' # (uuid' @ ext')"
    by (simp add: artifact_path_def)
  then show ?thesis by (rule after_decimal(2))
qed

lemma artifact_path_locations:
  assumes "CHR ''/'' \<notin> set uuid"
  shows "resolve (finalMetadataLocation c uuid) = artifact_path (cl_config c) (cl_version c) uuid ''.txt''"
    and "resolve (encryptedBackupLocation c uuid) = artifact_path (cl_config c) (cl_version c) uuid ''.tar.gpg''"
  by (simp_all add: artifact_locations [OF assms] artifact_path_def)

text \<open>Files of another time are not in the region of an instance.\<close>

lemma artifact_path_outside:
  assumes "CHR ''/'' \<notin> set uuid" and "output_apart (cl_config c)" and "v \<noteq> cl_version c"
    and "ext \<in> {''.txt'', ''.tar.gpg''}"
  shows "\<not> node_region c uuid (artifact_path (cl_config c) v id' ext)"
proof -
  have "artifact_region (cl_config c) id' (artifact_path (cl_config c) v id' ext)"
    using assms(4) unfolding artifact_region_def artifact_path_def by blast
  from artifact_not_tmp [OF assms(2) this] have "\<not> tmp_region (cl_config c) (artifact_path (cl_config c) v id' ext)" .
  moreover have "artifact_path (cl_config c) v id' ext \<noteq> artifact_path (cl_config c) (cl_version c) uuid e" for e
    using artifact_path_inject assms(3) by blast
  ultimately show ?thesis by (simp add: node_region_def artifact_path_locations [OF assms(1)])
qed



end
