(* ===== verification/Run_Refinement.thy ===== *)
theory Run_Refinement
  imports Run_Artifacts
begin

text \<open>
  What a run is, seen from the outside: a sequence of events on a store of files, one for each
  chosen instance. An event either stores the two artifacts of its instance under its own time
  or fails, and then nothing is known of these two files; everything else stays. Every run of
  the client is such a sequence, and its result is determined by the errors of the events.
\<close>

subsection \<open>The specification\<close>

type_synonym store = "string list \<Rightarrow> node option"

text \<open>The error of an event, or none, and the time at which it began.\<close>

type_synonym event = "int \<times> err"

text \<open>
  What an event stores comes from one directory: the backup was unpacked into it and prepared,
  the metadata were read from it and tar ran over it, each program without an error.
\<close>

definition made_from :: "client_env \<Rightarrow> client \<Rightarrow> string \<Rightarrow> string \<Rightarrow> string \<Rightarrow> string list \<Rightarrow> bool" where
  "made_from V c uuid p info outs \<longleftrightarrow>
     (\<exists>r f0 tree.
        let un = ce_programs V (Unpacker_cmd (NewUnpacker p)) r f0;
            pr = ce_programs V (cl_backupPreparer c p) [] (oc_fs un);
            ta = ce_programs V (TarClient_Tar (cl_tarClient c) p) [] tree
        in succeeds un \<and> succeeds pr \<and> succeeds ta \<and> same_except (artifact_region (cl_config c) uuid) (oc_fs pr) tree
         \<and> info = file_text (oc_fs pr) (resolve p @ [''xtrabackup_info'']) \<and> outs = oc_out ta)"

inductive backup_event ::
  "client_env \<Rightarrow> client \<Rightarrow> Instance \<Rightarrow> event \<Rightarrow> store \<Rightarrow> store \<Rightarrow> bool"
  for V :: client_env and c :: client and i :: Instance where
  stored: "made_from V c (UUID i) p info outs
    \<Longrightarrow> backup_event V c i (v, None) a
      (a(artifact_path (cl_config c) v (UUID i) ''.txt'' \<mapsto> File m (fields_text (final_fields V c info)),
         artifact_path (cl_config c) v (UUID i) ''.tar.gpg'' \<mapsto> File n (message_text (ce_pgp V) (ck_key (cl_encryptor c)) outs)))"
| failed: "(\<And>q. q \<noteq> artifact_path (cl_config c) v (UUID i) ''.txt''
      \<Longrightarrow> q \<noteq> artifact_path (cl_config c) v (UUID i) ''.tar.gpg'' \<Longrightarrow> b q = a q)
    \<Longrightarrow> backup_event V c i (v, Some e) a b"

inductive backup_events :: "client_env \<Rightarrow> client \<Rightarrow> Instance list \<Rightarrow> event list \<Rightarrow> store \<Rightarrow> store \<Rightarrow> bool"
  for V :: client_env and c :: client where
  no_event: "backup_events V c [] [] a a"
| event: "backup_event V c i x a b \<Longrightarrow> backup_events V c is xs b d \<Longrightarrow> backup_events V c (i # is) (x # xs) a d"

inductive_cases backup_events_ConsE: "backup_events V c (i # is) xs a d"

text \<open>The result of a run, as far as the events determine it.\<close>

definition result_of :: "event list \<Rightarrow> err run \<Rightarrow> bool" where
  "result_of xs r \<longleftrightarrow>
     (case r of
        Returned None \<Rightarrow> None \<in> snd ` set xs
      | Returned (Some e) \<Rightarrow> xs = [] \<or> None \<notin> snd ` set xs \<and> e = MultiError (errors_of (map snd xs))
      | Panicked e \<Rightarrow> xs = []
      | OsExit n \<Rightarrow> False)"

text \<open>An event changes the two files of its time only, and so does a sequence.\<close>

lemma backup_event_frame:
  assumes "backup_event V c i (v, e) a b"
    and "q \<noteq> artifact_path (cl_config c) v (UUID i) ''.txt''" and "q \<noteq> artifact_path (cl_config c) v (UUID i) ''.tar.gpg''"
  shows "b q = a q"
  using assms by (cases rule: backup_event.cases) auto

lemma backup_events_frame:
  assumes "backup_events V c is xs a d"
    and "\<And>i v ext. i \<in> set is \<Longrightarrow> v \<in> fst ` set xs \<Longrightarrow> ext \<in> {''.txt'', ''.tar.gpg''}
      \<Longrightarrow> q \<noteq> artifact_path (cl_config c) v (UUID i) ext"
  shows "d q = a q"
  using assms
proof (induction rule: backup_events.induct)
  case (event i x a b "is" xs d)
  have "d q = b q" using event.prems by (intro event.IH) auto
  also have "b q = a q"
    using event.hyps(1) event.prems [of i "fst x"] by (cases x) (auto intro: backup_event_frame)
  finally show ?case .
qed simp

subsection \<open>The client implements it\<close>

text \<open>The files outside of the working directories.\<close>

definition outside :: "client_config \<Rightarrow> fs \<Rightarrow> store" where
  "outside cfg fs q = (if tmp_region cfg q then None else fs_lookup fs q)"

lemma outside_same: "same_except (tmp_region cfg) a b \<Longrightarrow> outside cfg b = outside cfg a"
  by (intro ext) (simp add: outside_def same_except_def)

lemma artifact_path_region:
  "ext \<in> {''.txt'', ''.tar.gpg''} \<Longrightarrow> artifact_region cfg uuid (artifact_path cfg v uuid ext)"
  unfolding artifact_region_def artifact_path_def by blast

lemma outside_artifact:
  "output_apart cfg \<Longrightarrow> ext \<in> {''.txt'', ''.tar.gpg''}
   \<Longrightarrow> outside cfg fs (artifact_path cfg v uuid ext) = fs_lookup fs (artifact_path cfg v uuid ext)"
  using artifact_not_tmp [OF _ artifact_path_region] by (simp add: outside_def)

text \<open>What a node that was backed up leaves in its two files.\<close>

lemma node_backed_up_files:
  assumes "node_backed_up_from src V d uuid fs" and "base d = base c" and "CHR ''/'' \<notin> set uuid"
  shows "\<exists>p info outs m n. made_from V c uuid p info outs
    \<and> fs_lookup fs (artifact_path (cl_config c) (cl_version d) uuid ''.txt'') = Some (File m (fields_text (final_fields V c info)))
    \<and> fs_lookup fs (artifact_path (cl_config c) (cl_version d) uuid ''.tar.gpg'') = Some (File n (message_text (ce_pgp V)
        (ck_key (cl_encryptor c)) outs))"
proof -
  note bf = base_fields [OF assms(2)]
  have ff: "final_fields V d = final_fields V c" by (intro ext) (simp add: final_fields_def bf(7))
  from assms(1) show ?thesis
    unfolding node_backed_up_from_def made_from_def Let_def artifact_path_locations [OF assms(3)] bf ff succeeds_def
    by blast
qed

context download_service
begin

lemma backup_instance_event:
  assumes "backup_instance V i s = (e, t)" and "run_ok V (fst s)" and "base (fst s) = base c"
    and "i \<in> set (Instances (cl_config c))"
  shows "backup_event V c i (os_now (ce_os V) (w_clock (snd s)), e)
    (outside (cl_config c) (w_fs (snd s))) (outside (cl_config c) (w_fs (snd t)))"
proof -
  let ?cfg = "cl_config c" and ?v = "os_now (ce_os V) (w_clock (snd s))"
  let ?txt = "artifact_path ?cfg ?v (UUID i) ''.txt''" and ?gpg = "artifact_path ?cfg ?v (UUID i) ''.tar.gpg''"
  let ?a = "outside ?cfg (w_fs (snd s))" and ?b = "outside ?cfg (w_fs (snd t))"
  note bf = base_fields [OF assms(3)]
  have i: "i \<in> set (Instances (cl_config (fst s)))" using assms(4) bf(1) by simp
  have sl: "CHR ''/'' \<notin> set (UUID i)" using assms(2) i by (auto simp: run_ok_def frame_ok_def list_all_iff)
  have oa: "output_apart ?cfg" using assms(2) bf(1) by (simp add: run_ok_def)
  have "evolves (node_region (fst (start_instance V i s)) (UUID i)) s t"
    using evolves_backup_instance_exact [of s V i] assms(1,2) by (simp add: run_ok_def)
  then have se: "same_except (node_region (fst (start_instance V i s)) (UUID i)) (w_fs (snd s)) (w_fs (snd t))"
    by (simp add: evolves_def)
  have st: "cl_config (fst (start_instance V i s)) = ?cfg" "cl_version (fst (start_instance V i s)) = ?v"
    using bf(1) by (simp_all add: start_instance_def time_now_def)
  have frame: "?b q = ?a q" if "q \<noteq> ?txt" "q \<noteq> ?gpg" for q
    using same_exceptD [OF se, of q] that
    by (simp add: outside_def node_region_def artifact_path_locations [OF sl] st)
  show ?thesis
  proof (cases e)
    case None
    from backup_instance_stored [OF assms(1) [unfolded None] assms(2) i] obtain d where
      d: "base d = base (fst s)" "cl_version d = ?v"
      and nb: "node_backed_up_from (src (backup_url (fst s) (Address i))) V d (UUID i) (w_fs (snd t))" by blast
    have "base d = base c" using d(1) assms(3) by simp
    from node_backed_up_files [OF nb this sl] d(2) obtain p info outs m n where
      ta: "made_from V c (UUID i) p info outs"
      and f: "fs_lookup (w_fs (snd t)) ?txt = Some (File m (fields_text (final_fields V c info)))"
        "fs_lookup (w_fs (snd t)) ?gpg = Some (File n (message_text (ce_pgp V) (ck_key (cl_encryptor c)) outs))" by auto
    have "?b = ?a(?txt \<mapsto> File m (fields_text (final_fields V c info)), ?gpg \<mapsto> File n (message_text (ce_pgp V) (ck_key (cl_encryptor c)) outs))"
    proof
      fix q
      show "?b q = (?a(?txt \<mapsto> File m (fields_text (final_fields V c info)), ?gpg \<mapsto> File n (message_text (ce_pgp V) (ck_key (cl_encryptor c)) outs))) q"
        using frame [of q] f outside_artifact [OF oa, of "''.txt''"] outside_artifact [OF oa, of "''.tar.gpg''"]
        by (cases "q = ?gpg"; cases "q = ?txt") simp_all
    qed
    with backup_event.stored [OF ta] None show ?thesis by simp
  next
    case (Some x)
    then show ?thesis by (simp add: backup_event.failed frame)
  qed
qed

text \<open>The loop is a sequence of events, whose errors it collects.\<close>

lemma backup_loop_events:
  assumes "backup_loop V is errs s = (es, t)" and "run_ok V c" and "loop_ok V c s"
    and "set is \<subseteq> set (Instances (cl_config c))"
  shows "\<exists>xs. backup_events V c is xs (outside (cl_config c) (w_fs (snd s))) (outside (cl_config c) (w_fs (snd t)))
    \<and> es = errs @ errors_of (map snd xs) \<and> fst ` set xs \<subseteq> range (os_now (ce_os V))"
  using assms(1,3,4)
proof (induction "is" arbitrary: errs s)
  case Nil
  then show ?case by (intro exI [of _ "[]"]) (simp add: backup_events.no_event)
next
  case (Cons i "is")
  obtain e u where b: "backup_instance V i s = (e, u)" by (metis surj_pair)
  from Cons.prems(2) have bs: "base (fst s) = base c" "dirs_ok (fst s)" by (simp_all add: loop_ok_def)
  note bf = base_fields [OF bs(1)]
  have i: "i \<in> set (Instances (cl_config c))" and sub: "set is \<subseteq> set (Instances (cl_config c))"
    using Cons.prems(3) by simp_all
  have ru: "run_ok V (fst s)"
    using assms(2) bs bf frame_ok_base [OF bs(1), of V] by (simp add: run_ok_def)
  from loop_ok_instance [OF Cons.prems(2) _ _ i] assms(2) b have l: "loop_ok V c u" by (simp add: run_ok_def)
  obtain errs' where rest: "backup_loop V is errs' u = (es, t)" and errs': "errs' = errs @ errors_of [e]"
    using Cons.prems(1) b by (cases e) auto
  from Cons.IH [OF rest l sub] obtain xs where
    xs: "backup_events V c is xs (outside (cl_config c) (w_fs (snd u))) (outside (cl_config c) (w_fs (snd t)))"
    "es = errs' @ errors_of (map snd xs)" "fst ` set xs \<subseteq> range (os_now (ce_os V))" by blast
  have "errors_of (map snd ((os_now (ce_os V) (w_clock (snd s)), e) # xs)) = errors_of [e] @ errors_of (map snd xs)"
    by (cases e) simp_all
  with backup_events.event [OF backup_instance_event [OF b ru bs(1) i] xs(1)] xs(2,3) errs' show ?case
    by (intro exI [of _ "(os_now (ce_os V) (w_clock (snd s)), e) # xs"]) simp
qed

end

lemma backup_events_length: "backup_events V c is xs a b \<Longrightarrow> length xs = length is"
  by (induction rule: backup_events.induct) simp_all



end
