(* ===== verification/Run_Processes.thy ===== *)
theory Run_Processes
  imports Component_Properties
begin

text \<open>
  Which child processes a backup of a node leaves running: none, but for tar when the
  encryption of its output fails.
\<close>

named_theorems procs_intros \<open>steps that leave the child processes alone\<close>

lemma same_procs_refl [simp]: "same_procs s s"
  by (simp add: same_procs_def)

lemma same_procs_trans: "same_procs s t \<Longrightarrow> same_procs t u \<Longrightarrow> same_procs s u"
  by (simp add: same_procs_def)

lemma same_procs_clog [simp]:
  "same_procs (clog l a e d s) t = same_procs s t" "same_procs s (clog l a e d t) = same_procs s t"
  by (simp_all add: same_procs_def)

lemma same_procs_log_step [procs_intros]: "same_procs s (snd (log_step l a d s))"
  by (simp add: log_step_def)

lemma same_procs_logging [procs_intros]: "same_procs s (snd (f s)) \<Longrightarrow> same_procs s (snd (logging m d f s))"
  by (auto simp: logging_def split: prod.split option.split)

lemma same_procs_on_world [procs_intros]:
  "w_procs (snd (f (snd s))) = w_procs (snd s) \<Longrightarrow> same_procs s (snd (on_world f s))"
  by (simp add: same_procs_def)

lemma same_procs_run_steps:
  assumes "\<And>f t. f \<in> set fs \<Longrightarrow> same_procs t (snd (f t))"
  shows "same_procs s (snd (run_steps fs s))"
  by (rule run_steps_rel [where R = same_procs]) (use assms same_procs_trans in auto)

lemma same_procs_make_tmp [procs_intros]: "same_procs s (snd (make_tmp V set_dir pat s))"
proof -
  have "w_procs (snd (ioutil_TempDir E d p w)) = w_procs w" for E d p w
    by (simp add: ioutil_TempDir_def Let_def mkdirtemp_frame)
  from this [of "ce_os V" "TmpDir (cl_config (fst s))" pat "snd s"] show ?thesis
    by (auto simp: make_tmp_def same_procs_def split: prod.split sum.split)
qed

lemma same_procs_createDirectories: "same_procs s (snd (createDirectories V s))"
  unfolding createDirectories_def by (rule same_procs_run_steps) (auto intro: procs_intros)

context download_service
begin

lemma same_procs_download:
  assumes "cl_downloader (fst s) = dl"
  shows "same_procs s (snd (downloadAndUnpackBackup V ip s))"
proof -
  let ?u = "clog INFO ''Starting download of backup'' None (prepare_path_data (fst s)) s"
  obtain e v where c: "call_downloader V ip ?u = (e, v)" by (metis surj_pair)
  have "w_procs (snd (snd (call_downloader V ip ?u))) = w_procs (snd ?u)"
    unfolding call_downloader_def on_world_simps using assms by (simp add: dl_procs Unpacker_fs(2))
  with c have "same_procs s v" by (simp add: same_procs_def)
  with c show ?thesis
    by (cases e) (simp_all add: downloadAndUnpackBackup_def run_steps_Cons log_step_def logging_def)
qed

end

lemma same_procs_prepare: "same_procs s (snd (prepareBackup V s))"
  unfolding prepareBackup_def
proof (rule same_procs_run_steps, goal_cases)
  case (1 f t)
  have "same_procs t (snd (run_prepare V t))"
    using CombinedOutput_frame(2) [of "ce_programs V" "prepare_cmd (fst t)" no_stdin "snd t"]
    by (auto simp: run_prepare_def same_procs_def split: prod.split option.split)
  with 1 show ?case by (auto intro: procs_intros)
qed

lemma same_procs_metadata: "same_procs s (snd (writeMetadataFile V uuid s))"
  unfolding writeMetadataFile_def Let_def
proof (rule same_procs_run_steps, goal_cases)
  case (1 f t)
  let ?src = "originalMetadataLocation (fst s)" and ?dst = "finalMetadataLocation (fst s) uuid"
  have wr: "same_procs u (snd (write_field V ?dst kv u))" for u kv
    unfolding write_field_def by (intro procs_intros) (simp add: frame_simps)
  have "same_procs t (snd (extract_and_write V ?src ?dst t))"
  proof (cases "ExtractFileFields (ce_os V) ?src (snd t)")
    case (Pair r w)
    with ExtractFileFields_frame(3) [of "ce_os V" ?src "snd t"] have "w_procs w = w_procs (snd t)" by simp
    then have k: "same_procs t (fst t, w)" by (simp add: same_procs_def)
    have "same_procs (fst t, w) (snd (run_steps (map (write_field V ?dst) l) (fst t, w)))" for l
      by (rule same_procs_run_steps) (auto intro: wr)
    with k Pair show ?thesis
      by (auto simp: extract_and_write_def split: sum.split intro: same_procs_trans)
  qed
  moreover have "same_procs t (snd (on_world (os_Create (ce_os V) ?dst) t))"
    by (intro procs_intros) (simp add: frame_simps)
  ultimately show ?case using 1 by (auto intro: procs_intros)
qed

text \<open>The tar process, and what becomes of it.\<close>

lemma Encrypt_procs: "w_procs (snd (Encrypt L k r (os_Write E p) w)) = w_procs w"
  by (rule Encrypt_preserves [where P = "\<lambda>v. w_procs v = w_procs w"]) (simp_all add: frame_simps)

lemma encrypt_output_procs:
  assumes "encrypt_output V dst oc tarCmd s = (e, t)" and "w_procs (snd s) = tarCmd # ps"
  shows "w_procs (snd t) = ps \<or> (\<exists>x u. e = Some x
    \<and> Encrypt (ce_pgp V) (cl_encryptor (fst s)) (stdout_reader oc) (os_Write (ce_os V) dst) (snd s) = (Some x, u)
    \<and> w_procs (snd t) = tarCmd # ps)"
proof -
  obtain y u where en: "Encrypt (ce_pgp V) (cl_encryptor (fst s)) (stdout_reader oc) (os_Write (ce_os V) dst) (snd s) = (y, u)"
    by (metis surj_pair)
  with Encrypt_procs [of "ce_pgp V" "cl_encryptor (fst s)" "stdout_reader oc" "ce_os V" dst "snd s"] assms(2)
  have p: "w_procs u = tarCmd # ps" by simp
  show ?thesis
  proof (cases y)
    case (Some x)
    with en assms(1) p show ?thesis
      by (auto simp: encrypt_output_def run_steps_Cons logging_def on_world_def)
  next
    case None
    have "w_procs (snd t) = ps"
      using en None assms(1) p
      by (cases "exit_err (oc_exit oc)")
        (auto simp: encrypt_output_def run_steps_Cons logging_def on_world_def cmd_Wait_def log_step_def)
    then show ?thesis by simp
  qed
qed

lemma start_and_encrypt_procs:
  assumes "start_and_encrypt V dst tarCmd s = (e, t)"
  shows "w_procs (snd t) = w_procs (snd s) \<or> (\<exists>x r w u. e = Some x
    \<and> Encrypt (ce_pgp V) (cl_encryptor (fst s)) r (os_Write (ce_os V) dst) w = (Some x, u)
    \<and> w_procs (snd t) = tarCmd # w_procs (snd s))"
proof -
  let ?oc = "ce_programs V tarCmd [] (w_fs (snd s))"
  obtain y w where st: "cmd_Start (ce_programs V) tarCmd (snd s) = (y, w)" by (metis surj_pair)
  show ?thesis
  proof (cases y)
    case (Some x)
    with st assms have "t = clog ERROR ''Error starting tar command'' (Some x) [] (fst s, w)"
      by (auto simp: start_and_encrypt_def Let_def run_steps_Cons logging_def on_world_def)
    moreover have "w_procs w = w_procs (snd s)"
      using st Some by (auto simp: cmd_Start_def Let_def split: option.splits)
    ultimately show ?thesis by simp
  next
    case None
    from cmd_Start_None(3) [OF st [unfolded None]] have p: "w_procs (snd (fst s, w)) = tarCmd # w_procs (snd s)" by simp
    from st None assms have "encrypt_output V dst ?oc tarCmd (fst s, w) = (e, t)"
      by (auto simp: start_and_encrypt_def Let_def run_steps_Cons logging_def on_world_def split: prod.splits option.splits)
    from encrypt_output_procs [OF this p] show ?thesis by auto
  qed
qed

lemma tarAndEncrypt_procs:
  assumes "tarAndEncryptBackup V uuid s = (e, t)"
  shows "w_procs (snd t) = w_procs (snd s) \<or> (\<exists>x r w u. e = Some x
    \<and> Encrypt (ce_pgp V) (cl_encryptor (fst s)) r (os_Write (ce_os V) (encryptedBackupLocation (fst s) uuid)) w = (Some x, u)
    \<and> w_procs (snd t) = TarClient_Tar (cl_tarClient (fst s)) (prepareDirectory (fst s)) # w_procs (snd s))"
proof -
  let ?dst = "encryptedBackupLocation (fst s) uuid"
  let ?tar = "TarClient_Tar (cl_tarClient (fst s)) (prepareDirectory (fst s))"
  let ?s = "clog INFO ''Starting encrypting backup'' None [] s"
  obtain e1 s1 where c: "logging ''Error creating encrypted backup file'' []
      (on_world (os_Create (ce_os V) ?dst)) ?s = (e1, s1)" by (metis surj_pair)
  have "kept (\<lambda>_. True) ?s (snd (logging ''Error creating encrypted backup file'' [] (on_world (os_Create (ce_os V) ?dst)) ?s))"
    by (intro kept_intros same_except_os_Create) simp
  moreover have "same_procs ?s (snd (logging ''Error creating encrypted backup file'' [] (on_world (os_Create (ce_os V) ?dst)) ?s))"
    by (intro procs_intros) (simp add: frame_simps)
  ultimately have s1: "fst s1 = fst s" "w_procs (snd s1) = w_procs (snd s)"
    using c by (simp_all add: kept_def same_procs_def)
  show ?thesis
  proof (cases e1)
    case (Some x)
    with c assms s1 show ?thesis by (auto simp: tarAndEncryptBackup_def Let_def)
  next
    case None
    obtain y s2 where p: "logging ''Error attaching stdout to encryption'' [] (on_world (cmd_StdoutPipe (ce_os V))) s1 = (y, s2)"
      by (metis surj_pair)
    then have s2: "fst s2 = fst s" "w_procs (snd s2) = w_procs (snd s)"
      using s1 by (auto simp: logging_def on_world_def cmd_StdoutPipe_def split: option.splits)
    show ?thesis
    proof (cases y)
      case (Some x)
      with c None p s2 assms show ?thesis
        by (auto simp: tarAndEncryptBackup_def Let_def run_steps_Cons os_Close_def)
    next
      case yN: None
      obtain z s3 where st: "start_and_encrypt V ?dst ?tar s2 = (z, s3)" by (metis surj_pair)
      have t: "z = e" "w_procs (snd t) = w_procs (snd s3)"
        using c None p yN st assms
        by (auto simp: tarAndEncryptBackup_def Let_def run_steps_Cons os_Close_def split: option.splits)
      from start_and_encrypt_procs [OF st] show ?thesis unfolding t s2 .
    qed
  qed
qed

subsection \<open>A node\<close>

lemma base_createDirectories: "base (fst (snd (createDirectories V s))) = base (fst s)"
proof -
  have mk: "base (fst (snd (make_tmp V set_dir pat t))) = base (fst t)"
    if "\<And>d c. base (set_dir d c) = base c" for set_dir pat t
    using that by (auto simp: make_tmp_def split: prod.split sum.split)
  have upd: "base (c\<lparr>downloadDirectory := d\<rparr>) = base c" "base (c\<lparr>prepareDirectory := d\<rparr>) = base c"
    "base (c\<lparr>encryptDirectory := d\<rparr>) = base c" for c d
    by (simp_all add: base_def)
  show ?thesis
    unfolding createDirectories_def
  proof (rule run_steps_preserves [where P = "\<lambda>t. base (fst t) = base (fst s)"], goal_cases)
    case (1 f t)
    then show ?case using mk [of _ _ t] upd by (auto simp: log_step_def)
  qed simp
qed

lemma confined_True: "confined P c (\<lambda>_. True)"
  by (simp add: confined_def same_except_def)

text \<open>What holds when a sequence of steps is over, by the step at which it ended.\<close>

lemma run_steps_Cons_cases:
  assumes "run_steps (f # fs) s = (e, t)" and "f s = (x, u)"
  shows "(x \<noteq> None \<and> e = x \<and> t = u) \<or> (x = None \<and> run_steps fs u = (e, t))"
  using assms by (cases x) (auto simp: run_steps_Cons)

context download_service
begin

lemma node_steps_procs:
  assumes "run_steps (node_steps V inst) s = (e, t)" and "cl_downloader (fst s) = dl"
  shows "fst t = fst s \<and> (w_procs (snd t) = w_procs (snd s) \<or> (\<exists>x r w u. e = Some x
    \<and> Encrypt (ce_pgp V) (cl_encryptor (fst s)) r
        (os_Write (ce_os V) (encryptedBackupLocation (fst s) (UUID inst))) w = (Some x, u)
    \<and> w_procs (snd t) = TarClient_Tar (cl_tarClient (fst s)) (prepareDirectory (fst s)) # w_procs (snd s)))"
proof -
  obtain e1 s1 where d: "downloadAndUnpackBackup V (Address inst) s = (e1, s1)" by (metis surj_pair)
  obtain e2 s2 where p: "prepareBackup V s1 = (e2, s2)" by (metis surj_pair)
  obtain e3 s3 where m: "writeMetadataFile V (UUID inst) s2 = (e3, s3)" by (metis surj_pair)
  obtain e4 s4 where a: "tarAndEncryptBackup V (UUID inst) s3 = (e4, s4)" by (metis surj_pair)
  have 1: "fst s1 = fst s" "same_procs s s1"
    using kept_client [OF kept_download [OF assms(2) confined_True]] same_procs_download [OF assms(2)]
    by (metis d snd_conv)+
  have 2: "fst s2 = fst s" "same_procs s s2"
    using kept_client [OF kept_prepare [where V = V and s = s1, OF confined_True]]
      same_procs_trans [OF 1(2)] same_procs_prepare [of s1 V] p 1(1) by simp_all
  have 3: "fst s3 = fst s" "same_procs s s3"
    using kept_client [OF kept_metadata [where Q = "\<lambda>_. True" and s = s2 and V = V and uuid = "UUID inst", OF TrueI]]
      same_procs_trans [OF 2(2)] same_procs_metadata [of s2 V "UUID inst"] m 2(1) by simp_all
  have 4: "fst s4 = fst s"
    using kept_client [OF kept_tarAndEncrypt [where Q = "\<lambda>_. True" and s = s3 and V = V and uuid = "UUID inst", OF TrueI confined_True]]
      a 3(1) by simp
  have "(e, t) \<in> {(e1, s1), (e2, s2), (e3, s3), (e4, s4)}"
    using assms(1) d p m a unfolding node_steps_def
    by (cases e1; cases e2; cases e3; cases e4) (simp_all add: run_steps_Cons)
  then show ?thesis
    using 1 2 3 4 tarAndEncrypt_procs [OF a] unfolding same_procs_def by auto
qed

end

text \<open>
  C24: After BackupNode no child process is left running, except tar, and that only when the
  encryption of its output failed, whose error is then returned.
\<close>

theorem children_after_backup:
  assumes "BackupNode V inst s = (e, t)" and "cl_downloader (fst s) = DownloadBackup D cfg"
  shows "w_procs (snd t) = w_procs (snd s) \<or> (\<exists>x r w u. e = Some x
    \<and> Encrypt (ce_pgp V) (cl_encryptor (fst s)) r
        (os_Write (ce_os V) (encryptedBackupLocation (fst t) (UUID inst))) w = (Some x, u)
    \<and> w_procs (snd t) = TarClient_Tar (cl_tarClient (fst s)) (prepareDirectory (fst t)) # w_procs (snd s))"
proof -
  obtain e1 u where c: "createDirectories V s = (e1, u)" by (metis surj_pair)
  have p: "w_procs (snd u) = w_procs (snd s)"
    using same_procs_createDirectories [of s V] c by (simp add: same_procs_def)
  have b: "base (fst u) = base (fst s)" using base_createDirectories [of V s] c by simp
  note bf = base_fields [OF b]
  from run_steps_Cons_cases [OF assms(1) [unfolded BackupNode_steps] c] show ?thesis
  proof (elim disjE conjE)
    assume "t = u"
    with p show ?thesis by simp
  next
    assume r: "run_steps (node_steps V inst) u = (e, t)"
    have dl: "cl_downloader (fst u) = DownloadBackup D cfg" using bf(4) assms(2) by simp
    from http.node_steps_procs [OF r dl] show ?thesis unfolding p bf by auto
  qed
qed

text \<open>An encryption library that cannot even start a message.\<close>

definition broken_pgp :: openpgp where
  "broken_pgp = sample_pgp\<lparr>pgp_init := \<lambda>k. ([], Some ErrUnexpectedEOF)\<rparr>"

theorem children_after_backup_witness:
  "\<exists>e t. BackupNode (sample_env\<lparr>ce_pgp := broken_pgp\<rparr>) \<lparr>Address = ''10.0.0.1'', UUID = ''a''\<rparr>
      (sample_client, new_world [([''tmp''], Dir), ([''out''], Dir)]) = (e, t)
    \<and> (w_procs (snd t) = [] \<or> w_procs (snd t) = [TarClient_Tar NewGnuTarClient (prepareDirectory (fst t))])"
proof -
  let ?V = "sample_env\<lparr>ce_pgp := broken_pgp\<rparr>"
  let ?s = "(sample_client, new_world [([''tmp''], Dir), ([''out''], Dir)])"
  obtain e t where b: "BackupNode ?V \<lparr>Address = ''10.0.0.1'', UUID = ''a''\<rparr> ?s = (e, t)" by (metis surj_pair)
  from children_after_backup [OF b, of sample_download sample_config] b show ?thesis
    by (auto simp: new_world_def)
qed

text \<open>
  C25: When tar has started and the encryption cannot be set up, tarAndEncryptBackup returns
  the error and leaves the tar process behind: it is neither waited for nor killed.
\<close>

theorem tar_left_running:
  assumes "no_faults (ce_os V)" and "CHR ''/'' \<notin> set uuid"
    and "dirs_to (w_fs (snd s)) (resolve (OutputDir (cl_config (fst s))))"
    and "fs_lookup (w_fs (snd s)) (resolve (encryptedBackupLocation (fst s) uuid)) \<noteq> Some Dir"
    and "\<And>fs. oc_start (ce_programs V (TarClient_Tar (cl_tarClient (fst s)) (prepareDirectory (fst s))) [] fs) = None"
    and "snd (pgp_init (ce_pgp V) (ck_key (cl_encryptor (fst s)))) = Some x"
  shows "\<exists>e t. tarAndEncryptBackup V uuid s = (Some e, t)
    \<and> w_procs (snd t) = TarClient_Tar (cl_tarClient (fst s)) (prepareDirectory (fst s)) # w_procs (snd s)"
proof -
  let ?dst = "encryptedBackupLocation (fst s) uuid" and ?E = "ce_os V"
  let ?tar = "TarClient_Tar (cl_tarClient (fst s)) (prepareDirectory (fst s))"
  let ?u = "clog INFO ''Starting encrypting backup'' None [] s"
  obtain n where n: "resolve ?dst = resolve (OutputDir (cl_config (fst s))) @ [n]"
    using artifact_place(2) [OF assms(2)] by blast
  obtain w where c: "os_Create ?E ?dst (snd ?u) = (None, w)"
    using os_Create_ok [OF assms(1) n, of "snd ?u"] assms(3,4) by auto
  with os_Create_frame(2) [of ?E ?dst "snd ?u"] have pw: "w_procs w = w_procs (snd s)" by simp
  define oc where "oc = ce_programs V ?tar [] (w_fs w)"
  have p: "on_world (cmd_StdoutPipe ?E) (fst s, w) = (None, (fst s, ticked w))"
    using assms(1) by (simp add: on_world_None cmd_StdoutPipe_def)
  obtain w3 where st: "cmd_Start (ce_programs V) ?tar (ticked w) = (None, w3)"
    using assms(5) by (auto simp: cmd_Start_def Let_def)
  from cmd_Start_None(3) [OF st] pw have p3: "w_procs w3 = ?tar # w_procs (snd s)" by simp
  obtain y w4 where en: "Encrypt (ce_pgp V) (cl_encryptor (fst s)) (stdout_reader oc) (os_Write ?E ?dst) w3 = (y, w4)"
    by (metis surj_pair)
  with Encrypt_procs [of "ce_pgp V" "cl_encryptor (fst s)" "stdout_reader oc" ?E ?dst w3] p3
  have p4: "w_procs w4 = ?tar # w_procs (snd s)" by simp
  have "y \<noteq> None" using Encrypt_None_iff [of "ce_pgp V" "cl_encryptor (fst s)"] en assms(6) by fastforce
  then obtain e where y: "y = Some e" by auto
  have "start_and_encrypt V ?dst ?tar (fst s, ticked w) = (Some e, clog ERROR ''Error while encrypting backup file'' (Some e) [] (fst s, w4))"
    using en st y by (simp add: start_and_encrypt_def encrypt_output_def run_steps_Cons logging_def on_world_def oc_def)
  with c p p4 show ?thesis
    by (simp add: tarAndEncryptBackup_def Let_def run_steps_Cons logging_def on_world_def os_Close_def)
qed

theorem tar_left_running_witness:
  "\<exists>e t. tarAndEncryptBackup (sample_env\<lparr>ce_pgp := broken_pgp\<rparr>) ''a''
      (sample_client\<lparr>prepareDirectory := ''/tmp/p''\<rparr>, new_world sample_fs) = (Some e, t)
    \<and> w_procs (snd t) = [TarClient_Tar NewGnuTarClient ''/tmp/p'']"
proof -
  let ?V = "sample_env\<lparr>ce_pgp := broken_pgp\<rparr>"
  let ?s = "(sample_client\<lparr>prepareDirectory := ''/tmp/p''\<rparr>, new_world sample_fs)"
  have ne: "no_faults (ce_os ?V)" using sample_no_faults by simp
  have out: "dirs_to (w_fs (snd ?s)) (resolve (OutputDir (cl_config (fst ?s))))"
    using sample_start_ready by (auto simp: start_ready_def new_world_def intro: dirs_to_wf)
  have "artifact_region sample_config ''a'' (resolve (encryptedBackupLocation (fst ?s) ''a''))"
    using artifact_regions(2) [of "''a''" "fst ?s"] by simp
  then have nd: "fs_lookup (w_fs (snd ?s)) (resolve (encryptedBackupLocation (fst ?s) ''a'')) \<noteq> Some Dir"
    using sample_start_ready by (auto simp: start_ready_def new_world_def)
  from tar_left_running [OF ne _ out nd, of ErrUnexpectedEOF] show ?thesis
    by (simp add: sample_env_def sample_program_runs exits_def broken_pgp_def new_world_def)
qed

end
