(* ===== verification/Test_Commands.thy ===== *)
theory Test_Commands
  imports Go_Exec Go_JSON
begin

text \<open>
  \<^verbatim>\<open>e2e-tests/utilities/cmd/cmd.go\<close>: running a program with its output in the writer of ginkgo
  or in a buffer of the caller; and the part of \<^verbatim>\<open>encoding/json\<close> with which the utilities
  decode what such a program printed. What the programs do is a parameter.
\<close>

subsection \<open>Commands with their outputs\<close>

text \<open>
  Where an output goes: \<^verbatim>\<open>ginkgo.GinkgoWriter\<close>, or the \<^verbatim>\<open>bytes.Buffer\<close> that every caller of
  \<^verbatim>\<open>RunWithoutOutput\<close> makes for the one command.
\<close>

datatype sink = GinkgoWriter | Buffer

record exec_cmd = cmd +
  cmd_Dir :: string
  cmd_Env :: "string list option"
  cmd_Stdout :: sink
  cmd_Stderr :: sink

type_synonym MutatorFunc = "exec_cmd \<Rightarrow> exec_cmd"

record e2e_env =
  env_programs :: "exec_cmd \<Rightarrow> fs \<Rightarrow> outcome"
  env_Environ :: "string list"

record e2e_world =
  ew_fs :: fs
  ew_ginkgo :: string
  ew_log :: "string list"

text \<open>\<^verbatim>\<open>Println\<close>: the operands with blanks between them, and a newline.\<close>

definition Println :: "string list \<Rightarrow> e2e_world \<Rightarrow> e2e_world" where
  "Println ss w = w\<lparr>ew_ginkgo := ew_ginkgo w @ join_with sp ss @ [nl]\<rparr>"

text \<open>
  What a sink receives. Outputs that share their writer share one pipe, so that the writer
  gets them in the order they were written.
\<close>

definition received :: "sink \<Rightarrow> exec_cmd \<Rightarrow> outcome \<Rightarrow> string" where
  "received k c oc =
     (if cmd_Stdout c = k \<and> cmd_Stderr c = k then oc_combined oc
      else if cmd_Stdout c = k then concat (oc_out oc)
      else if cmd_Stderr c = k then concat (oc_stderr oc)
      else [])"

text \<open>\<^verbatim>\<open>cmd.Run\<close> with such outputs: the error, and what the buffer holds.\<close>

definition run_command :: "e2e_env \<Rightarrow> exec_cmd \<Rightarrow> e2e_world \<Rightarrow> err \<times> string \<times> e2e_world" where
  "run_command E c w =
     (let oc = env_programs E c (ew_fs w)
      in case oc_start oc of
           Some e \<Rightarrow> (Some e, [], w)
         | None \<Rightarrow> (exit_err (oc_exit oc), received Buffer c oc,
             w\<lparr>ew_fs := oc_fs oc, ew_ginkgo := ew_ginkgo w @ received GinkgoWriter c oc\<rparr>))"

definition RunCustom ::
  "e2e_env \<Rightarrow> MutatorFunc option \<Rightarrow> string \<Rightarrow> string list \<Rightarrow> e2e_world \<Rightarrow> err \<times> string \<times> e2e_world" where
  "RunCustom E mutator name args w =
     (let c0 = \<lparr>cmd_name = name, cmd_args = args, cmd_Dir = [], cmd_Env = None,
                cmd_Stdout = GinkgoWriter, cmd_Stderr = GinkgoWriter\<rparr>;
          c = (case mutator of None \<Rightarrow> c0 | Some f \<Rightarrow> f c0);
          w1 = Println [''$'', join_with sp (cmd_name c # cmd_args c)] w;
          (e, b, w2) = run_command E c w1
      in (e, b, Println [] w2))"

definition Run :: "e2e_env \<Rightarrow> string \<Rightarrow> string list \<Rightarrow> e2e_world \<Rightarrow> err \<times> e2e_world" where
  "Run E name args w = (case RunCustom E None name args w of (e, _, w') \<Rightarrow> (e, w'))"

definition RunWithoutOutput ::
  "e2e_env \<Rightarrow> string \<Rightarrow> string list \<Rightarrow> e2e_world \<Rightarrow> err \<times> string \<times> e2e_world" where
  "RunWithoutOutput E name args = RunCustom E (Some (\<lambda>c. c\<lparr>cmd_Stdout := Buffer\<rparr>)) name args"

definition WithCwd :: "string \<Rightarrow> MutatorFunc" where
  "WithCwd path c = c\<lparr>cmd_Dir := path\<rparr>"

definition WithEnv :: "e2e_env \<Rightarrow> string list \<Rightarrow> MutatorFunc" where
  "WithEnv E values c = c\<lparr>cmd_Env := Some (env_Environ E @ values)\<rparr>"

definition Setup :: "MutatorFunc list \<Rightarrow> MutatorFunc" where
  "Setup funcs c = fold (\<lambda>f. f) funcs c"

text \<open>Mutators compose in order; of several working directories or environments the last counts.\<close>

lemma Setup_simps [simp]:
  "Setup [] = (\<lambda>c. c)" "Setup (f # fs) = Setup fs \<circ> f"
  by (simp_all add: Setup_def fun_eq_iff)

lemma Setup_append: "Setup (fs @ gs) = Setup gs \<circ> Setup fs"
  by (simp add: Setup_def fun_eq_iff)

lemma WithEnv_WithEnv: "WithEnv E a \<circ> WithEnv E b = WithEnv E a"
  by (simp add: WithEnv_def fun_eq_iff)

text \<open>The command the two shorthands run.\<close>

definition plain_cmd :: "sink \<Rightarrow> string \<Rightarrow> string list \<Rightarrow> exec_cmd" where
  "plain_cmd out name args = \<lparr>cmd_name = name, cmd_args = args, cmd_Dir = [], cmd_Env = None,
     cmd_Stdout = out, cmd_Stderr = GinkgoWriter\<rparr>"

lemma RunWithoutOutput_outcome:
  "RunWithoutOutput E name args w =
     (let oc = env_programs E (plain_cmd Buffer name args) (ew_fs w);
          head = ''$ '' @ join_with sp (name # args) @ [nl]
      in case oc_start oc of
           Some e \<Rightarrow> (Some e, [], w\<lparr>ew_ginkgo := ew_ginkgo w @ head @ [nl]\<rparr>)
         | None \<Rightarrow> (exit_err (oc_exit oc), concat (oc_out oc),
             w\<lparr>ew_fs := oc_fs oc, ew_ginkgo := ew_ginkgo w @ head @ concat (oc_stderr oc) @ [nl]\<rparr>))"
  by (simp add: RunWithoutOutput_def RunCustom_def run_command_def plain_cmd_def received_def
      Println_def Let_def split: option.split)

lemma exit_err_None_iff: "exit_err x = None \<longleftrightarrow> x = Exited 0"
  by (cases x) simp_all

lemma RunWithoutOutput_None:
  "RunWithoutOutput E name args w = (None, out, w') \<Longrightarrow>
    let oc = env_programs E (plain_cmd Buffer name args) (ew_fs w)
    in oc_start oc = None \<and> oc_exit oc = Exited 0 \<and> out = concat (oc_out oc) \<and> ew_fs w' = oc_fs oc"
  by (auto simp: RunWithoutOutput_outcome Let_def exit_err_None_iff split: option.splits)

subsection \<open>Decoding into structs and slices\<close>

text \<open>
  A decoder of a Go type: the error, and the new value for the old one. Texts are taken to be
  valid UTF-8 (\<^verbatim>\<open>encoding/json\<close> replaces other bytes).
\<close>

type_synonym 'a decoder = "json \<Rightarrow> 'a \<Rightarrow> err \<times> 'a"

definition decode_string :: "string decoder" where
  "decode_string j old =
     (case j of
        JNull \<Rightarrow> (None, old)
      | JStr s \<Rightarrow> (None, s)
      | _ \<Rightarrow> (Some ErrUnmarshalType, old))"

text \<open>The elements of an array are decoded into those the slice has, and into zero values after them.\<close>

fun decode_elems :: "'a decoder \<Rightarrow> 'a \<Rightarrow> json list \<Rightarrow> 'a list \<Rightarrow> err \<times> 'a list" where
  "decode_elems d zero [] olds = (None, [])"
| "decode_elems d zero (j # js) olds =
     (let (e, v) = d j (case olds of [] \<Rightarrow> zero | x # _ \<Rightarrow> x);
          (e', vs) = decode_elems d zero js (tl olds)
      in (first_err e e', v # vs))"

definition decode_slice :: "'a decoder \<Rightarrow> 'a \<Rightarrow> 'a list decoder" where
  "decode_slice d zero j old =
     (case j of
        JNull \<Rightarrow> (None, [])
      | JArr js \<Rightarrow> decode_elems d zero js old
      | _ \<Rightarrow> (Some ErrUnmarshalType, old))"

text \<open>A struct, given by the decoders of its fields under their (folded) names.\<close>

definition decode_field :: "(string \<times> 'a decoder) list \<Rightarrow> string \<times> json \<Rightarrow> err \<times> 'a \<Rightarrow> err \<times> 'a" where
  "decode_field fds kv ev =
     (case find (\<lambda>fd. key_matches (fst fd) (fst kv)) fds of
        None \<Rightarrow> ev
      | Some (_, d) \<Rightarrow> (let (e, v) = d (snd kv) (snd ev) in (first_err (fst ev) e, v)))"

definition decode_struct :: "(string \<times> 'a decoder) list \<Rightarrow> 'a decoder" where
  "decode_struct fds j old =
     (case j of
        JNull \<Rightarrow> (None, old)
      | JObj ms \<Rightarrow> fold (decode_field fds) ms (None, old)
      | _ \<Rightarrow> (Some ErrUnmarshalType, old))"

definition Unmarshal :: "'a decoder \<Rightarrow> string \<Rightarrow> 'a \<Rightarrow> err \<times> 'a" where
  "Unmarshal d text old =
     (case parse_json text of
        None \<Rightarrow> (Some ErrJSONSyntax, old)
      | Some j \<Rightarrow> d j old)"

end
