(* ===== verification/Test_Utilities.thy ===== *)
theory Test_Utilities
  imports Test_Commands "HOL-Library.List_Lexorder" "HOL-Library.Char_ord"
begin

text \<open>
  The utilities of the end-to-end tests around the programs bosh, credhub and docker:
  \<^verbatim>\<open>e2e-tests/utilities/bosh/bosh.go\<close>, \<^verbatim>\<open>e2e-tests/utilities/credhub/credhub.go\<close> and
  \<^verbatim>\<open>specs/docker/docker.go\<close>.
\<close>

subsection \<open>bosh\<close>

record bosh_Instance =
  bi_IP :: string
  bi_Instance :: string
  bi_Index :: string
  bi_VMCid :: string

definition zero_instance :: bosh_Instance where
  "zero_instance = \<lparr>bi_IP = [], bi_Instance = [], bi_Index = [], bi_VMCid = []\<rparr>"

text \<open>A field of type string, given how it is read and set.\<close>

definition string_field :: "('a \<Rightarrow> string) \<Rightarrow> (string \<Rightarrow> 'a \<Rightarrow> 'a) \<Rightarrow> 'a decoder" where
  "string_field get put j x = (case decode_string j (get x) of (e, s) \<Rightarrow> (e, put s x))"

definition decode_Instance :: "bosh_Instance decoder" where
  "decode_Instance = decode_struct
     [(''ips'', string_field bi_IP (\<lambda>s x. x\<lparr>bi_IP := s\<rparr>)),
      (''instance'', string_field bi_Instance (\<lambda>s x. x\<lparr>bi_Instance := s\<rparr>)),
      (''index'', string_field bi_Index (\<lambda>s x. x\<lparr>bi_Index := s\<rparr>)),
      (''vm_cid'', string_field bi_VMCid (\<lambda>s x. x\<lparr>bi_VMCid := s\<rparr>))]"

text \<open>
  The anonymous struct that receives the document: its \<^verbatim>\<open>Tables\<close>, a table being its \<^verbatim>\<open>Rows\<close>.
\<close>

definition decode_result :: "bosh_Instance list list decoder" where
  "decode_result = decode_struct
     [(''tables'', decode_slice
        (decode_struct [(''rows'', decode_slice decode_Instance zero_instance)]) [])]"

definition DeleteDeployment :: "e2e_env \<Rightarrow> string \<Rightarrow> e2e_world \<Rightarrow> err \<times> e2e_world" where
  "DeleteDeployment E deploymentName =
     Run E ''bosh''
       [''--deployment='' @ deploymentName, ''--non-interactive'', ''delete-deployment'', ''--force'']"

definition instances_args :: "string \<Rightarrow> string list" where
  "instances_args deploymentName =
     [''--non-interactive'', ''--tty'', ''--deployment='' @ deploymentName, ''instances'', ''--details'', ''--json'']"

text \<open>\<^verbatim>\<open>Instances\<close>; \<^verbatim>\<open>sort.SliceStable\<close> by the index, which is a string.\<close>

definition Instances_of_rows :: "(bosh_Instance \<Rightarrow> bool) \<Rightarrow> bosh_Instance list \<Rightarrow> bosh_Instance list" where
  "Instances_of_rows match rows = sort_key bi_Index (filter match rows)"

definition bosh_Instances ::
  "e2e_env \<Rightarrow> string \<Rightarrow> (bosh_Instance \<Rightarrow> bool) \<Rightarrow> e2e_world
   \<Rightarrow> (go_error + bosh_Instance list) run \<times> e2e_world" where
  "bosh_Instances E deploymentName match w =
     (case RunWithoutOutput E ''bosh'' (instances_args deploymentName) w of
        (Some e, _, w') \<Rightarrow> (Returned (Inl e), w')
      | (None, out, w') \<Rightarrow>
          (case Unmarshal decode_result out [] of
             (Some e, _) \<Rightarrow>
               (Returned (Inl (ErrorString (''failed to decode bosh instances output: '' @ Error e))), w')
           | (None, tables) \<Rightarrow>
               (case tables of
                  [] \<Rightarrow> (Panicked index_out_of_range, w')
                | rows # _ \<Rightarrow> (Returned (Inr (Instances_of_rows match rows)), w'))))"

definition InstanceIPs ::
  "e2e_env \<Rightarrow> string \<Rightarrow> (bosh_Instance \<Rightarrow> bool) \<Rightarrow> e2e_world
   \<Rightarrow> (go_error + string list) run \<times> e2e_world" where
  "InstanceIPs E deploymentName match w =
     (case bosh_Instances E deploymentName match w of
        (Returned (Inl e), w') \<Rightarrow> (Returned (Inl e), w')
      | (Returned (Inr is), w') \<Rightarrow> (Returned (Inr (map bi_IP is)), w')
      | (OsExit n, w') \<Rightarrow> (OsExit n, w')
      | (Panicked e, w') \<Rightarrow> (Panicked e, w'))"

definition MatchByInstanceGroup :: "string \<Rightarrow> bosh_Instance \<Rightarrow> bool" where
  "MatchByInstanceGroup name i \<longleftrightarrow> hd (SplitN2 (bi_Instance i) CHR ''/'') = name"

definition RemoteCommand ::
  "e2e_env \<Rightarrow> string \<Rightarrow> string \<Rightarrow> string \<Rightarrow> e2e_world \<Rightarrow> string \<times> err \<times> e2e_world" where
  "RemoteCommand E deploymentName instanceSpec cmdString w =
     (case RunWithoutOutput E ''bosh''
             [''--deployment='' @ deploymentName, ''ssh'', instanceSpec, ''--column=Stdout'',
              ''--results'', ''--command='' @ cmdString] w of
        (e, out, w') \<Rightarrow> (TrimSpace out, e, w'))"

definition Scp :: "e2e_env \<Rightarrow> string \<Rightarrow> string \<Rightarrow> string \<Rightarrow> string list \<Rightarrow> e2e_world \<Rightarrow> err \<times> e2e_world" where
  "Scp E deploymentName sourcePath destPath args =
     Run E ''bosh'' ([''--deployment='' @ deploymentName, ''scp''] @ args @ [sourcePath, destPath])"

definition Stop :: "e2e_env \<Rightarrow> string \<Rightarrow> string \<Rightarrow> string list \<Rightarrow> e2e_world \<Rightarrow> err \<times> e2e_world" where
  "Stop E deploymentName instanceSpec args =
     Run E ''bosh'' ([''-d'', deploymentName, ''stop''] @ args @ [instanceSpec])"

definition Start :: "e2e_env \<Rightarrow> string \<Rightarrow> string \<Rightarrow> string list \<Rightarrow> e2e_world \<Rightarrow> err \<times> e2e_world" where
  "Start E deploymentName instanceSpec args =
     Run E ''bosh'' ([''-d'', deploymentName, ''start''] @ args @ [instanceSpec])"

subsection \<open>credhub\<close>

record CertificateCredential =
  cc_CA :: string
  cc_Certificate :: string
  cc_PrivateKey :: string

definition zero_certificate :: CertificateCredential where
  "zero_certificate = \<lparr>cc_CA = [], cc_Certificate = [], cc_PrivateKey = []\<rparr>"

definition decode_credentials :: "string list decoder" where
  "decode_credentials = decode_struct
     [(''credentials'', decode_slice (decode_struct [(''name'', decode_string)]) [])]"

definition decode_certificate :: "CertificateCredential decoder" where
  "decode_certificate = decode_struct
     [(''value'', decode_struct
        [(''ca'', string_field cc_CA (\<lambda>s x. x\<lparr>cc_CA := s\<rparr>)),
         (''certificate'', string_field cc_Certificate (\<lambda>s x. x\<lparr>cc_Certificate := s\<rparr>)),
         (''private_key'', string_field cc_PrivateKey (\<lambda>s x. x\<lparr>cc_PrivateKey := s\<rparr>))])]"

text \<open>
  The error when there is not one credential; \<open>q\<close> is what \<^verbatim>\<open>%q\<close> prints for the pattern
  (\<^verbatim>\<open>strconv.Quote\<close>, which depends on the tables of Unicode).
\<close>

definition credentials_error :: "(string \<Rightarrow> string) \<Rightarrow> string \<Rightarrow> string list \<Rightarrow> go_error" where
  "credentials_error q pattern names = ErrorString
     (''unexpected credentials found for '' @ q pattern @ ''. Expected 1 credentials but found ''
      @ nat_decimal (length names) @ '': ['' @ join_with sp (map (\<lambda>n. ''{'' @ n @ ''}'') names) @ '']'')"

definition FindCredentialName ::
  "(string \<Rightarrow> string) \<Rightarrow> e2e_env \<Rightarrow> string \<Rightarrow> e2e_world \<Rightarrow> string \<times> err \<times> e2e_world" where
  "FindCredentialName q E pattern w =
     (case RunWithoutOutput E ''credhub'' [''find'', ''--name-like='' @ pattern, ''--output-json''] w of
        (Some e, _, w') \<Rightarrow> ([], Some e, w')
      | (None, out, w') \<Rightarrow>
          (case Unmarshal decode_credentials out [] of
             (Some e, _) \<Rightarrow> ([], Some e, w')
           | (None, names) \<Rightarrow>
               (case names of
                  [name] \<Rightarrow> (name, None, w')
                | _ \<Rightarrow> ([], Some (credentials_error q pattern names), w'))))"

definition GetCredhubPassword ::
  "(string \<Rightarrow> string) \<Rightarrow> e2e_env \<Rightarrow> string \<Rightarrow> e2e_world \<Rightarrow> string \<times> err \<times> e2e_world" where
  "GetCredhubPassword q E partialName w =
     (case FindCredentialName q E partialName w of
        (_, Some e, w1) \<Rightarrow> ([], Some e, w1)
      | (name, None, w1) \<Rightarrow>
          (case RunWithoutOutput E ''credhub'' [''get'', ''--name='' @ name, ''--quiet''] w1 of
             (e, out, w2) \<Rightarrow> (TrimSpace out, e, w2)))"

definition GetCredhubCertificate ::
  "(string \<Rightarrow> string) \<Rightarrow> e2e_env \<Rightarrow> string \<Rightarrow> e2e_world \<Rightarrow> CertificateCredential \<times> err \<times> e2e_world" where
  "GetCredhubCertificate q E partialName w =
     (case FindCredentialName q E partialName w of
        (_, Some e, w1) \<Rightarrow> (zero_certificate, Some e, w1)
      | (name, None, w1) \<Rightarrow>
          (case RunWithoutOutput E ''credhub'' [''get'', ''--name='' @ name, ''--output-json''] w1 of
             (Some e, _, w2) \<Rightarrow> (zero_certificate, Some e, w2)
           | (None, out, w2) \<Rightarrow>
               (case Unmarshal decode_certificate out zero_certificate of
                  (Some e, _) \<Rightarrow> (zero_certificate, Some e, w2)
                | (None, v) \<Rightarrow> (v, None, w2))))"

subsection \<open>docker\<close>

text \<open>\<^verbatim>\<open>docker.Command\<close>: standard output to a buffer, standard error to ginkgo; the line of the log.\<close>

definition docker_Command :: "e2e_env \<Rightarrow> string list \<Rightarrow> e2e_world \<Rightarrow> string \<times> err \<times> e2e_world" where
  "docker_Command E args w =
     (let w1 = w\<lparr>ew_log := ew_log w @ [''$ docker  '' @ join_with sp args]\<rparr>
      in case run_command E (plain_cmd Buffer ''docker'' args) w1 of
           (e, out, w2) \<Rightarrow> (TrimSpace out, e, w2))"

definition docker_quiet :: "e2e_env \<Rightarrow> string list \<Rightarrow> e2e_world \<Rightarrow> err \<times> e2e_world" where
  "docker_quiet E args w = snd (docker_Command E args w)"

definition RemoveContainer :: "e2e_env \<Rightarrow> string \<Rightarrow> e2e_world \<Rightarrow> err \<times> e2e_world" where
  "RemoveContainer E name = docker_quiet E [''container'', ''rm'', ''--force'', ''--volumes'', name]"

definition RemoveVolume :: "e2e_env \<Rightarrow> string \<Rightarrow> e2e_world \<Rightarrow> err \<times> e2e_world" where
  "RemoveVolume E name = docker_quiet E [''volume'', ''rm'', ''--force'', name]"

definition CreateNetwork :: "e2e_env \<Rightarrow> string \<Rightarrow> e2e_world \<Rightarrow> err \<times> e2e_world" where
  "CreateNetwork E name = docker_quiet E [''network'', ''create'', name]"

definition RemoveNetwork :: "e2e_env \<Rightarrow> string \<Rightarrow> e2e_world \<Rightarrow> err \<times> e2e_world" where
  "RemoveNetwork E name = docker_quiet E [''network'', ''remove'', name]"

definition PullImage :: "e2e_env \<Rightarrow> string \<Rightarrow> e2e_world \<Rightarrow> string \<times> err \<times> e2e_world" where
  "PullImage E imageRef = docker_Command E [''pull'', ''--quiet'', imageRef]"

text \<open>\<^verbatim>\<open>net.SplitHostPort\<close>.\<close>

definition addr_error :: "string \<Rightarrow> string \<Rightarrow> go_error" where
  "addr_error a why = ErrorString (''address '' @ a @ '': '' @ why)"

definition last_colon :: "string \<Rightarrow> (string \<times> string) option" where
  "last_colon s = map_option (\<lambda>(b, a). (rev a, rev b)) (cut CHR '':'' (rev s))"

definition SplitHostPort :: "string \<Rightarrow> go_error + string \<times> string" where
  "SplitHostPort s =
     (case last_colon s of
        None \<Rightarrow> Inl (addr_error s ''missing port in address'')
      | Some (before, port) \<Rightarrow>
          if hd s = CHR ''['' then
            (case cut CHR '']'' s of
               None \<Rightarrow> Inl (addr_error s (''missing '' @ [CHR 0x27, CHR '']'', CHR 0x27] @ '' in address''))
             | Some (bracket, behind) \<Rightarrow>
                 if behind = [] then Inl (addr_error s ''missing port in address'')
                 else if before \<noteq> bracket @ '']'' then
                   Inl (addr_error s (if hd behind = CHR '':'' then ''too many colons in address''
                                      else ''missing port in address''))
                 else if CHR ''['' \<in> set (tl s) then
                   Inl (addr_error s (''unexpected '' @ [CHR 0x27, CHR ''['', CHR 0x27] @ '' in address''))
                 else if CHR '']'' \<in> set behind then
                   Inl (addr_error s (''unexpected '' @ [CHR 0x27, CHR '']'', CHR 0x27] @ '' in address''))
                 else Inr (tl bracket, port))
          else if CHR '':'' \<in> set before then Inl (addr_error s ''too many colons in address'')
          else if CHR ''['' \<in> set s then
            Inl (addr_error s (''unexpected '' @ [CHR 0x27, CHR ''['', CHR 0x27] @ '' in address''))
          else if CHR '']'' \<in> set s then
            Inl (addr_error s (''unexpected '' @ [CHR 0x27, CHR '']'', CHR 0x27] @ '' in address''))
          else Inr (before, port))"

definition ContainerPort :: "e2e_env \<Rightarrow> string \<Rightarrow> string \<Rightarrow> e2e_world \<Rightarrow> string \<times> err \<times> e2e_world" where
  "ContainerPort E containerName portSpec w =
     (case docker_Command E [''container'', ''port'', containerName, portSpec] w of
        (_, Some e, w1) \<Rightarrow> ([], Some e, w1)
      | (hostPort, None, w1) \<Rightarrow>
          (case SplitHostPort hostPort of
             Inl e \<Rightarrow> ([], Some e, w1)
           | Inr (_, port) \<Rightarrow> (port, None, w1)))"

text \<open>\<open>sqlOpen\<close> is \<^verbatim>\<open>sql.Open\<close> with the driver of MySQL, given the name of the data source.\<close>

definition MySQLDB ::
  "(string \<Rightarrow> go_error + 'db) \<Rightarrow> e2e_env \<Rightarrow> string \<Rightarrow> string \<Rightarrow> e2e_world \<Rightarrow> (go_error + 'db) \<times> e2e_world" where
  "MySQLDB sqlOpen E containerName portSpec w =
     (case ContainerPort E containerName portSpec w of
        (_, Some e, w1) \<Rightarrow> (Inl e, w1)
      | (mysqlPort, None, w1) \<Rightarrow> (sqlOpen (''root@tcp(127.0.0.1:'' @ mysqlPort @ '')/''), w1))"

end
