(* ===== verification/Test_Proxy.thy ===== *)
theory Test_Proxy
  imports Go_HTTP Go_Files "HOL-Library.List_Lexorder" "HOL-Library.Char_ord"
begin

text \<open>
  \<^verbatim>\<open>e2e-tests/utilities/proxy/proxy.go\<close>: dialling through a jump box. The query of the proxy
  URL names a file with a private key; its content replaces the name in the URL, and is read
  from there when the ssh client is configured. The ssh library is a parameter.
\<close>

subsection \<open>url.Parse\<close>

record userinfo =
  ui_username :: string
  ui_password :: "string option"

record proxy_url =
  pu_Scheme :: string
  pu_User :: "userinfo option"
  pu_Host :: string
  pu_Path :: string
  pu_RawQuery :: string

text \<open>Unescaping outside of a query, where a plus is a plus.\<close>

fun path_unescape :: "string \<Rightarrow> string option" where
  "path_unescape [] = Some []"
| "path_unescape (c # r) =
     (if c = CHR ''%'' then
        (case r of
           a # b # t \<Rightarrow>
             (case (hex_value a, hex_value b) of
                (Some i, Some j) \<Rightarrow> map_option (Cons (char_of (i * 16 + j))) (path_unescape t)
              | _ \<Rightarrow> None)
         | _ \<Rightarrow> None)
      else map_option (Cons c) (path_unescape r))"

definition letter :: "char \<Rightarrow> bool" where
  "letter c \<longleftrightarrow> in_range c (CHR ''a'', CHR ''z'') \<or> in_range c (CHR ''A'', CHR ''Z'')"

definition scheme_char :: "char \<Rightarrow> bool" where
  "scheme_char c \<longleftrightarrow> alphanumeric c \<or> c \<in> set ''+-.''"

text \<open>The scheme in lower case and the rest, or no scheme.\<close>

definition get_scheme :: "string \<Rightarrow> (string \<times> string) option" where
  "get_scheme s =
     (case cut CHR '':'' s of
        Some (a, r) \<Rightarrow>
          if a \<noteq> [] \<and> letter (hd a) \<and> list_all scheme_char a then Some (map lower a, r) else None
      | None \<Rightarrow> None)"

definition user_char :: "char \<Rightarrow> bool" where
  "user_char c \<longleftrightarrow> alphanumeric c \<or> c \<in> set (''-._:~!$&()*+,;=%@'' @ [CHR 0x27])"

definition parse_userinfo :: "string \<Rightarrow> userinfo option" where
  "parse_userinfo s =
     (if \<not> list_all user_char s then None
      else case cut CHR '':'' s of
        None \<Rightarrow> map_option (\<lambda>u. \<lparr>ui_username = u, ui_password = None\<rparr>) (path_unescape s)
      | Some (u, p) \<Rightarrow>
          (case (path_unescape u, path_unescape p) of
             (Some u', Some p') \<Rightarrow> Some \<lparr>ui_username = u', ui_password = Some p'\<rparr>
           | _ \<Rightarrow> None))"

text \<open>The authority is split at the last \<^verbatim>\<open>@\<close>.\<close>

definition parse_authority :: "string \<Rightarrow> (userinfo option \<times> string) option" where
  "parse_authority a =
     (case cut CHR ''@'' (rev a) of
        None \<Rightarrow> if list_all host_char a \<and> port_ok a then Some (None, a) else None
      | Some (h, u) \<Rightarrow>
          if list_all host_char (rev h) \<and> port_ok (rev h)
          then map_option (\<lambda>ui. (Some ui, rev h)) (parse_userinfo (rev u)) else None)"

definition url_error :: "string \<Rightarrow> go_error" where
  "url_error why = ErrorString (''parse: '' @ why)"

text \<open>
  \<^verbatim>\<open>url.Parse\<close> for a URL with a scheme; one without a scheme gives the empty scheme, which the
  caller refuses, and the rest of it does not matter; what is opaque is left out. A percent sign
  in a host is refused (Go takes the escapes of bytes that are not ASCII).
\<close>

definition url_Parse :: "string \<Rightarrow> go_error + proxy_url" where
  "url_Parse raw =
     (let u = takeWhile (\<lambda>c. c \<noteq> CHR ''#'') raw; frag = drop (Suc (length u)) raw
      in if list_ex (\<lambda>c. c < CHR 0x20 \<or> c = CHR 0x7F) u
         then Inl (url_error ''net/url: invalid control character in URL'')
         else if path_unescape frag = None then Inl (url_error ''invalid URL escape'')
         else case get_scheme u of
           None \<Rightarrow> Inr \<lparr>pu_Scheme = [], pu_User = None, pu_Host = [], pu_Path = u, pu_RawQuery = []\<rparr>
         | Some (scheme, rest) \<Rightarrow>
             (let (body, query) = (case cut CHR ''?'' rest of None \<Rightarrow> (rest, []) | Some bq \<Rightarrow> bq);
                  (auth, path) = (if HasPrefix body ''//''
                    then (takeWhile (\<lambda>c. c \<noteq> CHR ''/'') (drop 2 body), dropWhile (\<lambda>c. c \<noteq> CHR ''/'') (drop 2 body))
                    else ([], body))
              in if \<not> HasPrefix body ''/''
                 then Inr \<lparr>pu_Scheme = scheme, pu_User = None, pu_Host = [], pu_Path = [], pu_RawQuery = query\<rparr>
                 else case parse_authority auth of
                   None \<Rightarrow> Inl (url_error ''invalid authority'')
                 | Some (ui, host) \<Rightarrow>
                     (case path_unescape path of
                        None \<Rightarrow> Inl (url_error ''invalid URL escape'')
                      | Some p \<Rightarrow> Inr \<lparr>pu_Scheme = scheme, pu_User = ui, pu_Host = host, pu_Path = p, pu_RawQuery = query\<rparr>)))"

subsection \<open>url.Values\<close>

type_synonym url_values = "(string \<times> string list) list"

definition values_add :: "string \<times> string \<Rightarrow> url_values \<Rightarrow> url_values" where
  "values_add kv m = AList.update (fst kv) ((case map_of m (fst kv) of None \<Rightarrow> [] | Some vs \<Rightarrow> vs) @ [snd kv]) m"

definition url_Query :: "string \<Rightarrow> url_values" where
  "url_Query q = fold values_add (List.map_filter query_pair (split_on CHR ''&'' q)) []"

definition values_Get :: "url_values \<Rightarrow> string \<Rightarrow> string" where
  "values_Get m k = (case map_of m k of Some (v # _) \<Rightarrow> v | _ \<Rightarrow> [])"

definition values_Set :: "string \<Rightarrow> string \<Rightarrow> url_values \<Rightarrow> url_values" where
  "values_Set k v m = AList.update k [v] m"

definition HEX :: string where "HEX = ''0123456789ABCDEF''"

definition query_unreserved :: "char \<Rightarrow> bool" where
  "query_unreserved c \<longleftrightarrow> alphanumeric c \<or> c \<in> set ''-_.~''"

definition QueryEscape :: "string \<Rightarrow> string" where
  "QueryEscape s = concat (map (\<lambda>c.
     if query_unreserved c then [c] else if c = sp then ''+''
     else (let n = of_char c in [CHR ''%'', HEX ! (n div 16), HEX ! (n mod 16)])) s)"

text \<open>\<^verbatim>\<open>Values.Encode\<close>: sorted by key.\<close>

definition url_Encode :: "url_values \<Rightarrow> string" where
  "url_Encode m =
     join_with CHR ''&'' (concat (map (\<lambda>(k, vs). map (\<lambda>v. QueryEscape k @ ''='' @ QueryEscape v) vs) (sort_key fst m)))"

subsection \<open>The functions of the package\<close>

definition os_ReadFile :: "os_env \<Rightarrow> string \<Rightarrow> world \<Rightarrow> (go_error + string) \<times> world" where
  "os_ReadFile E p w =
     (case os_Open E p w of
        (Some e, w1) \<Rightarrow> (Inl e, w1)
      | (None, w1) \<Rightarrow>
          (case os_read_all E p w1 of
             (c, Some e, w2) \<Rightarrow> (Inl e, w2)
           | (c, None, w2) \<Rightarrow> (Inr c, w2)))"

definition proxy_user :: "proxy_url \<Rightarrow> string" where
  "proxy_user u = (case pu_User u of None \<Rightarrow> [] | Some ui \<Rightarrow> ui_username ui)"

text \<open>A URL without a user name gets the user \<^verbatim>\<open>jumpbox\<close> (and loses a password).\<close>

definition default_user :: "proxy_url \<Rightarrow> proxy_url" where
  "default_user u =
     (if proxy_user u = [] then u\<lparr>pu_User := Some \<lparr>ui_username = ''jumpbox'', ui_password = None\<rparr>\<rparr> else u)"

lemma default_user_simps [simp]:
  "pu_RawQuery (default_user u) = pu_RawQuery u" "pu_Host (default_user u) = pu_Host u"
  "proxy_user (default_user u) = (if proxy_user u = [] then ''jumpbox'' else proxy_user u)"
  by (simp_all add: default_user_def proxy_user_def)

text \<open>\<open>q\<close> is what \<^verbatim>\<open>%q\<close> prints.\<close>

definition parseProxyURL ::
  "(string \<Rightarrow> string) \<Rightarrow> os_env \<Rightarrow> string \<Rightarrow> world \<Rightarrow> (go_error + proxy_url) \<times> world" where
  "parseProxyURL q E raw w =
     (case url_Parse raw of
        Inl e \<Rightarrow> (Inl (WithMessage ''invalid url'' e), w)
      | Inr u \<Rightarrow>
          if pu_Scheme u \<noteq> ''ssh+socks5''
          then (Inl (ErrorString (''unsupported schema '' @ q (pu_Scheme u))), w)
          else let u1 = default_user u;
                   file = values_Get (url_Query (pu_RawQuery u1)) ''private-key''
               in case os_ReadFile E file w of
                    (Inl e, w1) \<Rightarrow>
                      (Inl (WithMessage (''unable to read private-key file '' @ q file) e), w1)
                  | (Inr privateKey, w1) \<Rightarrow>
                      (Inr (u1\<lparr>pu_RawQuery := url_Encode (values_Set ''private-key'' privateKey (url_Query (pu_RawQuery u1)))\<rparr>), w1))"

datatype host_key_callback = InsecureIgnoreHostKey

record 'signer ssh_config =
  ssh_Timeout :: nat
  ssh_User :: string
  ssh_HostKeyCallback :: host_key_callback
  ssh_Auth :: "'signer list"

text \<open>The timeout is in seconds; \<open>parseKey\<close> is \<^verbatim>\<open>ssh.ParsePrivateKey\<close>.\<close>

definition sshConfig ::
  "(string \<Rightarrow> go_error + 'signer) \<Rightarrow> proxy_url \<Rightarrow> go_error + 'signer ssh_config" where
  "sshConfig parseKey u =
     (case parseKey (values_Get (url_Query (pu_RawQuery u)) ''private-key'') of
        Inl e \<Rightarrow> Inl (WithMessage ''parse private key'' e)
      | Inr signer \<Rightarrow> Inr \<lparr>ssh_Timeout = 30, ssh_User = proxy_user u,
          ssh_HostKeyCallback = InsecureIgnoreHostKey, ssh_Auth = [signer]\<rparr>)"

text \<open>
  The ssh library: parsing a key, connecting to a host over TCP, connecting from there.
\<close>

record ('signer, 'conn, 'net) ssh_lib =
  ssh_ParsePrivateKey :: "string \<Rightarrow> go_error + 'signer"
  ssh_Dial :: "string \<Rightarrow> 'signer ssh_config \<Rightarrow> go_error + 'conn"
  conn_Dial :: "'conn \<Rightarrow> string \<Rightarrow> string \<Rightarrow> go_error + 'net"

text \<open>The result: the dialer, with the connection that is kept alive behind it.\<close>

definition NewDialerViaSSH ::
  "('signer, 'conn, 'net) ssh_lib \<Rightarrow> (string \<Rightarrow> string) \<Rightarrow> os_env \<Rightarrow> string \<Rightarrow> world
   \<Rightarrow> (go_error + 'conn \<times> (string \<Rightarrow> string \<Rightarrow> go_error + 'net)) \<times> world" where
  "NewDialerViaSSH L q E proxyURL w =
     (case parseProxyURL q E proxyURL w of
        (Inl e, w1) \<Rightarrow> (Inl (WithMessage ''invalid url'' e), w1)
      | (Inr u, w1) \<Rightarrow>
          (case sshConfig (ssh_ParsePrivateKey L) u of
             Inl e \<Rightarrow> (Inl e, w1)
           | Inr cfg \<Rightarrow>
               (case ssh_Dial L (pu_Host u) cfg of
                  Inl e \<Rightarrow> (Inl (WithMessage ''ssh dial'' e), w1)
                | Inr conn \<Rightarrow> (Inr (conn, conn_Dial L conn), w1))))"

text \<open>
  The goroutine of \<^verbatim>\<open>startKeepAlive\<close>: what it has printed after \<open>n\<close> ticks, when \<open>sent i\<close> is the
  error of the request at tick \<open>i\<close>. It goes on after an error and never ends.
\<close>

fun startKeepAlive :: "(nat \<Rightarrow> err) \<Rightarrow> nat \<Rightarrow> string" where
  "startKeepAlive sent 0 = []"
| "startKeepAlive sent (Suc n) = startKeepAlive sent n @
     (case sent n of None \<Rightarrow> [] | Some e \<Rightarrow> ''error sending ssh keep-alive: '' @ Error e)"

subsection \<open>Encoding a query and reading it back\<close>

lemma hex_digits: "d < 16 \<Longrightarrow> hex_value (HEX ! d) = Some d"
proof -
  have "list_all (\<lambda>d. hex_value (HEX ! d) = Some d) [0..<16]" by code_simp
  then show "d < 16 \<Longrightarrow> hex_value (HEX ! d) = Some d" by (simp add: list_all_iff)
qed

lemma query_unescape_hex:
  "query_unescape (CHR ''%'' # HEX ! (of_char c div 16) # HEX ! (of_char c mod 16) # t)
     = map_option (Cons c) (query_unescape t)"
proof -
  have "of_char c div 16 < (16 :: nat)" by (simp add: less_mult_imp_div_less)
  then show ?thesis by (simp add: hex_digits)
qed

lemma QueryEscape_simps [simp]:
  "QueryEscape [] = []"
  "QueryEscape (c # s) = (if query_unreserved c then [c] else if c = sp then ''+''
     else [CHR ''%'', HEX ! (of_char c div 16), HEX ! (of_char c mod 16)]) @ QueryEscape s"
  by (simp_all add: QueryEscape_def Let_def)

lemma unreserved_plain:
  "\<not> query_unreserved CHR ''%''" "\<not> query_unreserved CHR ''+''" "\<not> query_unreserved CHR ''&''"
  "\<not> query_unreserved CHR '';''" "\<not> query_unreserved CHR ''=''" "\<not> query_unreserved sp"
  by code_simp+

lemma query_unescape_QueryEscape: "query_unescape (QueryEscape s) = Some s"
proof (induction s)
  case (Cons c s)
  consider "query_unreserved c" | "c = sp" | "\<not> query_unreserved c" "c \<noteq> sp" by blast
  then show ?case
  proof cases
    case 1
    then have "c \<noteq> CHR ''%''" "c \<noteq> CHR ''+''" using unreserved_plain by auto
    with 1 Cons show ?thesis by simp
  next
    case 2
    with Cons show ?thesis by (simp add: unreserved_plain)
  next
    case 3
    with Cons query_unescape_hex show ?thesis by simp
  qed
qed simp

text \<open>An escaped text holds no separator.\<close>

definition query_separators :: "char list" where "query_separators = ''&;=''"

lemma HEX_plain: "d < 16 \<Longrightarrow> HEX ! d \<notin> set query_separators"
proof -
  have "list_all (\<lambda>d. HEX ! d \<notin> set query_separators) [0..<16]" by code_simp
  then show "d < 16 \<Longrightarrow> HEX ! d \<notin> set query_separators" by (simp add: list_all_iff)
qed

lemma QueryEscape_plain: "x \<in> set (QueryEscape s) \<Longrightarrow> x \<notin> set query_separators"
proof (induction s)
  case (Cons c s)
  have "of_char c div 16 < (16 :: nat)" by (simp add: less_mult_imp_div_less)
  then have h: "HEX ! (of_char c div 16) \<notin> set query_separators" "HEX ! (of_char c mod 16) \<notin> set query_separators"
    by (simp_all add: HEX_plain)
  have p: "CHR ''%'' \<notin> set query_separators" "CHR ''+'' \<notin> set query_separators" by code_simp+
  have u: "query_unreserved c \<Longrightarrow> c \<notin> set query_separators"
    using unreserved_plain by (auto simp: query_separators_def)
  from Cons.prems consider "x \<in> set (QueryEscape s)" | "query_unreserved c" "x = c" | "x = CHR ''+''"
    | "x = CHR ''%''" | "x = HEX ! (of_char c div 16)" | "x = HEX ! (of_char c mod 16)"
    by (auto split: if_splits)
  then show ?case using Cons.IH h p u by cases simp_all
qed simp

lemma QueryEscape_separators:
  "CHR ''&'' \<notin> set (QueryEscape s)" "CHR '';'' \<notin> set (QueryEscape s)" "CHR ''='' \<notin> set (QueryEscape s)"
  using QueryEscape_plain [of _ s] by (auto simp: query_separators_def)

lemma query_pair_escaped: "query_pair (QueryEscape k @ ''='' @ QueryEscape v) = Some (k, v)"
proof -
  have "CHR '';'' \<notin> set (QueryEscape k @ ''='' @ QueryEscape v)" using QueryEscape_separators by simp
  moreover have "cut CHR ''='' (QueryEscape k @ ''='' @ QueryEscape v) = Some (QueryEscape k, QueryEscape v)"
    using QueryEscape_separators by simp
  ultimately show ?thesis by (simp add: query_pair_def Let_def query_unescape_QueryEscape)
qed

text \<open>Adding values in turn collects them by key.\<close>

lemma values_add_get:
  "map_of (fold values_add kvs m) k =
     (case map fst (filter (\<lambda>x. fst x = k) kvs) of
        [] \<Rightarrow> map_of m k
      | _ \<Rightarrow> Some ((case map_of m k of None \<Rightarrow> [] | Some vs \<Rightarrow> vs) @ map snd (filter (\<lambda>x. fst x = k) kvs)))"
  by (induction kvs arbitrary: m) (auto simp: values_add_def update_conv' split: list.splits option.splits)

lemma distinct_values: "distinct (map fst m) \<Longrightarrow> distinct (map fst (fold values_add kvs m))"
  by (induction kvs arbitrary: m) (simp_all add: values_add_def distinct_update)

definition encoded_pairs :: "url_values \<Rightarrow> (string \<times> string) list" where
  "encoded_pairs m = concat (map (\<lambda>(k, vs). map (Pair k) vs) (sort_key fst m))"

lemma url_Encode_pairs:
  "url_Encode m = join_with CHR ''&'' (map (\<lambda>(k, v). QueryEscape k @ ''='' @ QueryEscape v) (encoded_pairs m))"
  by (simp add: url_Encode_def encoded_pairs_def map_concat o_def case_prod_beta')

lemma Query_Encode:
  assumes "encoded_pairs m \<noteq> []"
  shows "url_Query (url_Encode m) = fold values_add (encoded_pairs m) []"
proof -
  let ?e = "\<lambda>(k, v). QueryEscape k @ ''='' @ QueryEscape v"
  have "split_on CHR ''&'' (url_Encode m) = map ?e (encoded_pairs m)"
    unfolding url_Encode_pairs using assms
    by (intro split_on_join) (auto simp: QueryEscape_separators)
  moreover have "List.map_filter query_pair (map ?e kvs) = kvs" for kvs
    by (induction kvs) (use query_pair_escaped in \<open>auto simp: List.map_filter_simps\<close>)
  ultimately show ?thesis by (simp add: url_Query_def)
qed

lemma filter_pairs_of_key:
  assumes "distinct (map fst m)"
  shows "map snd (filter (\<lambda>x. fst x = k) (concat (map (\<lambda>(k, vs). map (Pair k) vs) m)))
    = (case map_of m k of None \<Rightarrow> [] | Some vs \<Rightarrow> vs)"
  using assms
proof (induction m)
  case (Cons x m)
  obtain j vs where x: "x = (j, vs)" by (rule prod.exhaust)
  have "filter (\<lambda>y. fst y = k) (map (Pair j) vs) = (if j = k then map (Pair j) vs else [])"
    by (induction vs) auto
  moreover have "j = k \<Longrightarrow> map_of m k = None"
    using Cons.prems x by (auto simp: map_of_eq_None_iff)
  ultimately show ?case using Cons x by (auto simp: o_def)
qed simp

lemma map_of_sort_key:
  assumes "distinct (map fst m)"
  shows "map_of (sort_key fst m) = map_of m"
proof (rule map_of_inject_set [THEN iffD2])
  show "distinct (map fst (sort_key fst m))"
    using assms by (metis distinct_map distinct_sort set_sort)
  show "distinct (map fst m)" by (rule assms)
qed simp

text \<open>What is set for a key is what the encoded query holds for it.\<close>

lemma Get_Encode_Set:
  assumes "distinct (map fst m)"
  shows "values_Get (url_Query (url_Encode (values_Set k v m))) k = v"
proof -
  let ?m = "values_Set k v m"
  have d: "distinct (map fst ?m)" using assms by (simp add: values_Set_def distinct_update)
  have g: "map_of ?m k = Some [v]" by (simp add: values_Set_def update_conv')
  have ds: "distinct (map fst (sort_key fst ?m))"
    using d by (metis distinct_map distinct_sort set_sort)
  have s: "map snd (filter (\<lambda>x. fst x = k) (encoded_pairs ?m)) = [v]"
    using filter_pairs_of_key [OF ds, of k] g by (simp add: encoded_pairs_def map_of_sort_key [OF d])
  then have "encoded_pairs ?m \<noteq> []" by auto
  moreover from s have "map_of (fold values_add (encoded_pairs ?m) []) k = Some [v]"
    by (auto simp: values_add_get split: list.split)
  ultimately show ?thesis by (simp add: Query_Encode values_Get_def)
qed

lemma distinct_Query: "distinct (map fst (url_Query q))"
  by (simp add: url_Query_def distinct_values)

end
