(* ===== verification/Counterfeiter.thy ===== *)
theory Counterfeiter
  imports Go_Exec Client_Config
begin

text \<open>
  The test doubles counterfeiter generates: \<^verbatim>\<open>client/clientfakes\<close>, \<^verbatim>\<open>clock/fakes\<close>,
  \<^verbatim>\<open>clock/clockfakes\<close> and \<^verbatim>\<open>commandexecutor/commandexecutorfakes\<close>. A double of an interface with
  one method is a state machine: it records the arguments of the calls, and answers with its
  stub, with the result set for that call, or with the result set for all. Its methods hold
  the locks, so that each of them is one step.
\<close>

subsection \<open>The generic double\<close>

text \<open>A map without entries stands for \<^verbatim>\<open>nil\<close> too. A stub may change a state \<open>'s\<close> of the test.\<close>

record ('a, 'r, 's) fake =
  fk_Stub :: "('a \<Rightarrow> 's \<Rightarrow> 'r \<times> 's) option"
  fk_argsForCall :: "'a list"
  fk_returns :: 'r
  fk_returnsOnCall :: "(int \<times> 'r) list"
  fk_invocations :: "'a list gomap"

definition new_fake :: "'r \<Rightarrow> ('a, 'r, 's) fake" where
  "new_fake zero = \<lparr>fk_Stub = None, fk_argsForCall = [], fk_returns = zero,
     fk_returnsOnCall = [], fk_invocations = []\<rparr>"

definition recordInvocation :: "string \<Rightarrow> 'a \<Rightarrow> ('a, 'r, 's) fake \<Rightarrow> ('a, 'r, 's) fake" where
  "recordInvocation key a f = f\<lparr>fk_invocations := AList.update key
     ((case map_of (fk_invocations f) key of None \<Rightarrow> [] | Some as \<Rightarrow> as) @ [a]) (fk_invocations f)\<rparr>"

definition fake_call ::
  "string \<Rightarrow> 'a \<Rightarrow> ('a, 'r, 's) fake \<Rightarrow> 's \<Rightarrow> 'r \<times> ('a, 'r, 's) fake \<times> 's" where
  "fake_call name a f s =
     (let ret = map_of (fk_returnsOnCall f) (int (length (fk_argsForCall f)));
          f1 = recordInvocation name a (f\<lparr>fk_argsForCall := fk_argsForCall f @ [a]\<rparr>)
      in case fk_Stub f of
           Some stub \<Rightarrow> (case stub a s of (r, s') \<Rightarrow> (r, f1, s'))
         | None \<Rightarrow> (case ret of Some r \<Rightarrow> (r, f1, s) | None \<Rightarrow> (fk_returns f, f1, s)))"

definition fake_CallCount :: "('a, 'r, 's) fake \<Rightarrow> nat" where
  "fake_CallCount f = length (fk_argsForCall f)"

definition fake_Calls :: "('a \<Rightarrow> 's \<Rightarrow> 'r \<times> 's) option \<Rightarrow> ('a, 'r, 's) fake \<Rightarrow> ('a, 'r, 's) fake" where
  "fake_Calls stub f = f\<lparr>fk_Stub := stub\<rparr>"

definition fake_ArgsForCall :: "int \<Rightarrow> ('a, 'r, 's) fake \<Rightarrow> 'a run" where
  "fake_ArgsForCall i f =
     (if 0 \<le> i \<and> i < int (length (fk_argsForCall f)) then Returned (fk_argsForCall f ! nat i)
      else Panicked index_out_of_range)"

definition fake_Returns :: "'r \<Rightarrow> ('a, 'r, 's) fake \<Rightarrow> ('a, 'r, 's) fake" where
  "fake_Returns r f = f\<lparr>fk_Stub := None, fk_returns := r\<rparr>"

definition fake_ReturnsOnCall :: "int \<Rightarrow> 'r \<Rightarrow> ('a, 'r, 's) fake \<Rightarrow> ('a, 'r, 's) fake" where
  "fake_ReturnsOnCall i r f =
     f\<lparr>fk_Stub := None, fk_returnsOnCall := AList.update i r (fk_returnsOnCall f)\<rparr>"

text \<open>\<^verbatim>\<open>Invocations\<close>: a copy of the map.\<close>

definition fake_Invocations :: "('a, 'r, 's) fake \<Rightarrow> 'a list gomap" where
  "fake_Invocations f = fold (\<lambda>(key, value). AList.update key value) (fk_invocations f) []"

subsection \<open>A double as a machine\<close>

text \<open>The methods of a double, and their answers.\<close>

datatype ('a, 'r, 's) fake_op =
    Invoke 'a
  | Calls "('a \<Rightarrow> 's \<Rightarrow> 'r \<times> 's) option"
  | Returns 'r
  | ReturnsOnCall int 'r
  | CallCount
  | ArgsForCall int
  | Invocations

datatype ('a, 'r) fake_answer =
    Result 'r
  | Done
  | Count nat
  | Args "'a run"
  | Recorded "'a list gomap"

fun fake_step ::
  "string \<Rightarrow> ('a, 'r, 's) fake_op \<Rightarrow> ('a, 'r, 's) fake \<times> 's \<Rightarrow> ('a, 'r) fake_answer \<times> ('a, 'r, 's) fake \<times> 's" where
  "fake_step name (Invoke a) (f, s) = (case fake_call name a f s of (r, t) \<Rightarrow> (Result r, t))"
| "fake_step name (Calls stub) (f, s) = (Done, fake_Calls stub f, s)"
| "fake_step name (Returns r) (f, s) = (Done, fake_Returns r f, s)"
| "fake_step name (ReturnsOnCall i r) (f, s) = (Done, fake_ReturnsOnCall i r f, s)"
| "fake_step name CallCount (f, s) = (Count (fake_CallCount f), f, s)"
| "fake_step name (ArgsForCall i) (f, s) = (Args (fake_ArgsForCall i f), f, s)"
| "fake_step name Invocations (f, s) = (Recorded (fake_Invocations f), f, s)"

fun fake_run ::
  "string \<Rightarrow> ('a, 'r, 's) fake_op list \<Rightarrow> ('a, 'r, 's) fake \<times> 's \<Rightarrow> ('a, 'r) fake_answer list \<times> ('a, 'r, 's) fake \<times> 's" where
  "fake_run name [] t = ([], t)"
| "fake_run name (op # ops) t =
     (case fake_step name op t of (r, t1) \<Rightarrow>
        (case fake_run name ops t1 of (rs, t2) \<Rightarrow> (r # rs, t2)))"

subsection \<open>The doubles of the repository\<close>

type_synonym FakeDownloader =
  "(string \<times> (reader \<Rightarrow> world \<Rightarrow> err \<times> stream_use \<times> world), err, world) fake"

definition FakeDownloader_step where
  "FakeDownloader_step op (t :: FakeDownloader \<times> world) = fake_step ''DownloadBackup'' op t"

type_synonym FakeGaleraAgentCallerInterface = "(string, int \<times> err, world) fake"

definition FakeGaleraAgentCaller_step where
  "FakeGaleraAgentCaller_step op (t :: FakeGaleraAgentCallerInterface \<times> world) = fake_step ''WsrepLocalIndex'' op t"

type_synonym FakeBackupPreparer = "(string, cmd option, world) fake"

definition FakeBackupPreparer_step where
  "FakeBackupPreparer_step op (t :: FakeBackupPreparer \<times> world) = fake_step ''Command'' op t"

text \<open>
  A timer channel: the times it will deliver. The double of the clock is generated twice, in
  \<^verbatim>\<open>clock/fakes\<close> and \<^verbatim>\<open>clock/clockfakes\<close>.
\<close>

type_synonym FakeClock = "(int, int list, world) fake"

definition FakeClock_step where
  "FakeClock_step op (t :: FakeClock \<times> world) = fake_step ''After'' op t"

definition clockfakes_FakeClock_step where
  "clockfakes_FakeClock_step op (t :: FakeClock \<times> world) = fake_step ''After'' op t"

text \<open>
  The double of \<^verbatim>\<open>io.Writer\<close>, from an older generator: it records a copy of the bytes, has no
  results for single calls, and \<^verbatim>\<open>Invocations\<close> returns the map itself.
\<close>

record 's fake_writer =
  fw_WriteStub :: "(string \<Rightarrow> 's \<Rightarrow> (int \<times> err) \<times> 's) option"
  fw_writeArgsForCall :: "string list"
  fw_writeReturns :: "int \<times> err"
  fw_invocations :: "string list gomap"

definition FakeWriter_recordInvocation :: "string \<Rightarrow> string \<Rightarrow> 's fake_writer \<Rightarrow> 's fake_writer" where
  "FakeWriter_recordInvocation key p f = f\<lparr>fw_invocations := AList.update key
     ((case map_of (fw_invocations f) key of None \<Rightarrow> [] | Some ps \<Rightarrow> ps) @ [p]) (fw_invocations f)\<rparr>"

definition FakeWriter_Write ::
  "string \<Rightarrow> 's fake_writer \<Rightarrow> 's \<Rightarrow> (int \<times> err) \<times> 's fake_writer \<times> 's" where
  "FakeWriter_Write p f s =
     (let f1 = FakeWriter_recordInvocation ''Write'' p (f\<lparr>fw_writeArgsForCall := fw_writeArgsForCall f @ [p]\<rparr>)
      in case fw_WriteStub f1 of
           Some stub \<Rightarrow> (case stub p s of (r, s') \<Rightarrow> (r, f1, s'))
         | None \<Rightarrow> (fw_writeReturns f1, f1, s))"

definition WriteCallCount :: "'s fake_writer \<Rightarrow> nat" where
  "WriteCallCount f = length (fw_writeArgsForCall f)"

definition WriteArgsForCall :: "int \<Rightarrow> 's fake_writer \<Rightarrow> string run" where
  "WriteArgsForCall i f =
     (if 0 \<le> i \<and> i < int (length (fw_writeArgsForCall f)) then Returned (fw_writeArgsForCall f ! nat i)
      else Panicked index_out_of_range)"

definition WriteReturns :: "int \<Rightarrow> err \<Rightarrow> 's fake_writer \<Rightarrow> 's fake_writer" where
  "WriteReturns n e f = f\<lparr>fw_WriteStub := None, fw_writeReturns := (n, e)\<rparr>"

definition FakeWriter_Invocations :: "'s fake_writer \<Rightarrow> string list gomap" where
  "FakeWriter_Invocations f = fw_invocations f"

subsection \<open>What a history says\<close>

text \<open>The abstract double: its answers as functions of the operations before a call.\<close>

definition invoked :: "('a, 'r, 's) fake_op list \<Rightarrow> 'a list" where
  "invoked ops = List.map_filter (\<lambda>op. case op of Invoke a \<Rightarrow> Some a | _ \<Rightarrow> None) ops"

definition config_op :: "('a, 'r, 's) fake_op \<Rightarrow> bool" where
  "config_op op = (case op of Calls f \<Rightarrow> True | Returns r \<Rightarrow> True | ReturnsOnCall i r \<Rightarrow> True | _ \<Rightarrow> False)"

text \<open>The stub in force: the one the last configuring operation set, if it set one.\<close>

definition stub_in_force :: "('a, 'r, 's) fake_op list \<Rightarrow> ('a \<Rightarrow> 's \<Rightarrow> 'r \<times> 's) option" where
  "stub_in_force ops =
     (case filter config_op (rev ops) of Calls f # _ \<Rightarrow> f | _ \<Rightarrow> None)"

definition result_set :: "'r \<Rightarrow> ('a, 'r, 's) fake_op list \<Rightarrow> 'r" where
  "result_set zero ops =
     (case List.map_filter (\<lambda>op. case op of Returns r \<Rightarrow> Some r | _ \<Rightarrow> None) (rev ops) of
        r # _ \<Rightarrow> r | [] \<Rightarrow> zero)"

definition result_for :: "int \<Rightarrow> ('a, 'r, 's) fake_op list \<Rightarrow> 'r option" where
  "result_for n ops =
     (case List.map_filter (\<lambda>op. case op of ReturnsOnCall i r \<Rightarrow> if i = n then Some r else None | _ \<Rightarrow> None) (rev ops) of
        r # _ \<Rightarrow> Some r | [] \<Rightarrow> None)"

definition answer_after :: "'r \<Rightarrow> ('a, 'r, 's) fake_op list \<Rightarrow> 'a \<Rightarrow> 's \<Rightarrow> 'r" where
  "answer_after zero ops a s =
     (case stub_in_force ops of
        Some stub \<Rightarrow> fst (stub a s)
      | None \<Rightarrow> (case result_for (int (length (invoked ops))) ops of Some r \<Rightarrow> r | None \<Rightarrow> result_set zero ops))"

lemma invoked_simps [simp]:
  "invoked [] = []"
  "invoked (op # ops) = (case op of Invoke a \<Rightarrow> [a] | _ \<Rightarrow> []) @ invoked ops"
  by (auto simp: invoked_def List.map_filter_simps split: fake_op.split)

lemma invoked_append [simp]: "invoked (xs @ ys) = invoked xs @ invoked ys"
  by (induction xs) simp_all

lemma fake_run_snoc:
  "fake_run name (ops @ [op]) t =
     (case fake_run name ops t of (rs, t1) \<Rightarrow> (case fake_step name op t1 of (r, t2) \<Rightarrow> (rs @ [r], t2)))"
  by (induction ops arbitrary: t) (simp_all split: prod.split)

text \<open>The state a history leaves: the simulation between the double and what the history says.\<close>

definition fake_as :: "string \<Rightarrow> 'r \<Rightarrow> ('a, 'r, 's) fake_op list \<Rightarrow> ('a, 'r, 's) fake \<Rightarrow> bool" where
  "fake_as name zero ops f \<longleftrightarrow>
     fk_argsForCall f = invoked ops \<and> fk_Stub f = stub_in_force ops \<and> fk_returns f = result_set zero ops
     \<and> (\<forall>n. map_of (fk_returnsOnCall f) n = result_for n ops)
     \<and> fk_invocations f = (if invoked ops = [] then [] else [(name, invoked ops)])"

lemma spec_snoc:
  "stub_in_force (ops @ [op]) = (case op of Calls f \<Rightarrow> f | Returns r \<Rightarrow> None | ReturnsOnCall i r \<Rightarrow> None
     | _ \<Rightarrow> stub_in_force ops)"
  "result_set zero (ops @ [op]) = (case op of Returns r \<Rightarrow> r | _ \<Rightarrow> result_set zero ops)"
  "result_for n (ops @ [op]) = (case op of ReturnsOnCall i r \<Rightarrow> if i = n then Some r else result_for n ops | _ \<Rightarrow> result_for n ops)"
  by (cases op; simp add: stub_in_force_def result_set_def result_for_def config_op_def List.map_filter_simps)+

lemma fake_call_state:
  assumes "fake_call name a f s = (r, f', s')"
  shows "f' = recordInvocation name a (f\<lparr>fk_argsForCall := fk_argsForCall f @ [a]\<rparr>)"
    and "r = (case fk_Stub f of Some stub \<Rightarrow> fst (stub a s)
      | None \<Rightarrow> (case map_of (fk_returnsOnCall f) (int (length (fk_argsForCall f))) of Some x \<Rightarrow> x | None \<Rightarrow> fk_returns f))"
  using assms by (auto simp: fake_call_def Let_def split: option.splits prod.splits)

lemma fake_as_step:
  assumes "fake_as name zero ops f" and "fake_step name op (f, s) = (r, f', s')"
  shows "fake_as name zero (ops @ [op]) f'"
    and "op = Invoke a \<Longrightarrow> r = Result (answer_after zero ops a s)"
proof -
  show "fake_as name zero (ops @ [op]) f'"
  proof (cases op)
    case (Invoke a)
    with assms(2) obtain x where "fake_call name a f s = (x, f', s')" by (auto split: prod.splits)
    from fake_call_state(1) [OF this] assms(1) Invoke show ?thesis
      by (cases "invoked ops = []") (simp_all add: fake_as_def recordInvocation_def spec_snoc)
  qed (use assms in \<open>auto simp: fake_as_def fake_Calls_def fake_Returns_def fake_ReturnsOnCall_def
      spec_snoc update_conv'\<close>)
  assume "op = Invoke a"
  with assms(2) obtain x where c: "fake_call name a f s = (x, f', s')" "r = Result x" by (auto split: prod.splits)
  from assms(1) have f: "fk_argsForCall f = invoked ops" "fk_Stub f = stub_in_force ops"
    "fk_returns f = result_set zero ops" "map_of (fk_returnsOnCall f) n = result_for n ops" for n
    by (simp_all add: fake_as_def)
  have "x = answer_after zero ops a s"
    using fake_call_state(2) [OF c(1)] unfolding answer_after_def f by simp
  with c(2) show "r = Result (answer_after zero ops a s)" by simp
qed

lemma fake_as_new: "fake_as name zero [] (new_fake zero)"
  by (simp add: fake_as_def new_fake_def stub_in_force_def result_set_def result_for_def List.map_filter_simps)

lemma fake_as_run: "fake_run name ops (new_fake zero, s) = (rs, f, s') \<Longrightarrow> fake_as name zero ops f"
proof (induction ops arbitrary: rs f s' rule: rev_induct)
  case Nil
  then have "f = new_fake zero" by simp
  with fake_as_new show ?case by (simp only:)
next
  case (snoc op ops)
  obtain rs1 f1 s1 where r: "fake_run name ops (new_fake zero, s) = (rs1, f1, s1)" by (rule prod_cases3)
  obtain x f2 s2 where st: "fake_step name op (f1, s1) = (x, f2, s2)" by (rule prod_cases3)
  from snoc.prems have "f = f2" by (simp add: fake_run_snoc r st)
  with fake_as_step(1) [OF snoc.IH [OF r] st] show ?case by simp
qed

end
