(* ===== verification/Block_Sigint.thy ===== *)
theory Block_Sigint
  imports Go_Exec
begin

text \<open>
  Two small parts: \<^verbatim>\<open>commandexecutor/fixtures/block_sigint.go\<close>, the child with which the tests of
  the command executor show that an interrupt alone does not end a process, and
  \<^verbatim>\<open>clock/clock.go\<close> of the client.
\<close>

subsection \<open>The child that blocks interrupts\<close>

text \<open>
  The channel holds one signal. Writing to a closed standard output ends the process: the
  runtime raises SIGPIPE for it.
\<close>

record sigint_state =
  sg_pending :: bool
  sg_out :: string
  sg_open :: bool
  sg_alive :: bool

definition sigint_init :: sigint_state where
  "sigint_init = \<lparr>sg_pending = False, sg_out = [], sg_open = True, sg_alive = True\<rparr>"

definition write_stdout :: "string \<Rightarrow> sigint_state \<Rightarrow> sigint_state" where
  "write_stdout l s = (if sg_open s then s\<lparr>sg_out := sg_out s @ l\<rparr> else s\<lparr>sg_alive := False\<rparr>)"

text \<open>One round of the loop: a pending signal is reported, otherwise the child says it waits.\<close>

definition sigint_round :: "sigint_state \<Rightarrow> sigint_state" where
  "sigint_round s =
     (if sg_pending s then write_stdout (''Caught: interrupt'' @ [nl]) (s\<lparr>sg_pending := False\<rparr>)
      else write_stdout (''waiting to sigpipe'' @ [nl]) s)"

text \<open>The steps: a round, an interrupt from outside, the reader closing its end.\<close>

inductive sigint_step :: "sigint_state \<Rightarrow> sigint_state \<Rightarrow> bool" where
  round: "sg_alive s \<Longrightarrow> sigint_step s (sigint_round s)"
| interrupt: "sg_alive s \<Longrightarrow> sigint_step s (s\<lparr>sg_pending := True\<rparr>)"
| close: "sigint_step s (s\<lparr>sg_open := False\<rparr>)"

inductive_cases sigint_stepE: "sigint_step s t"

inductive sigint_reach :: "sigint_state \<Rightarrow> bool" where
  start: "sigint_reach sigint_init"
| step: "sigint_reach s \<Longrightarrow> sigint_step s t \<Longrightarrow> sigint_reach t"

lemma sigint_round_simps [simp]:
  "sg_open (sigint_round s) = sg_open s"
  "sg_alive (sigint_round s) \<longleftrightarrow> sg_alive s \<and> sg_open s"
  by (simp_all add: sigint_round_def write_stdout_def)

lemma sigint_alive: "sigint_reach s \<Longrightarrow> sg_open s \<Longrightarrow> sg_alive s"
  by (induction rule: sigint_reach.induct) (auto simp: sigint_init_def elim!: sigint_stepE)

subsection \<open>The clock\<close>

text \<open>The moments at which the channel of \<^verbatim>\<open>After\<close> delivers.\<close>

definition clock_After :: "int \<Rightarrow> int \<Rightarrow> int list" where
  "clock_After now interval = [now + max 0 interval]"

end
