(* ===== verification/Test_Properties.thy ===== *)
theory Test_Properties
  imports Test_Utilities Test_Proxy Counterfeiter Block_Sigint "HOL-Library.Multiset"
begin

text \<open>
  What the utilities of the end-to-end tests promise: which instances are returned and in
  which order, which port, which credential, and which private key; how the generated doubles
  answer; and what ends the child that blocks interrupts.
\<close>

subsection \<open>bosh\<close>

lemma bosh_Instances_Inr:
  assumes "bosh_Instances E d match w = (Returned (Inr is), w')"
  obtains out tables rows where "RunWithoutOutput E ''bosh'' (instances_args d) w = (None, out, w')"
    and "Unmarshal decode_result out [] = (None, rows # tables)"
    and "is = sort_key bi_Index (filter match rows)"
  using assms
  by (auto simp: bosh_Instances_def Instances_of_rows_def split: prod.splits option.splits list.splits)

text \<open>
  C37: The instances returned are the rows of the first table that match, sorted by their
  index as strings, rows of the same index in their order.
\<close>

theorem bosh_instances_sorted:
  assumes "bosh_Instances E d match w = (Returned (Inr is), w')"
  shows "\<exists>rows tables. Unmarshal decode_result
      (concat (oc_out (env_programs E (plain_cmd Buffer ''bosh'' (instances_args d)) (ew_fs w)))) [] = (None, rows # tables)
    \<and> mset is = mset (filter match rows) \<and> sorted (map bi_Index is)
    \<and> (\<forall>k. filter (\<lambda>i. bi_Index i = k) is = filter (\<lambda>i. match i \<and> bi_Index i = k) rows)"
proof -
  obtain out tables rows where o: "RunWithoutOutput E ''bosh'' (instances_args d) w = (None, out, w')"
    and u: "Unmarshal decode_result out [] = (None, rows # tables)"
    and s: "is = sort_key bi_Index (filter match rows)"
    by (rule bosh_Instances_Inr [OF assms])
  from RunWithoutOutput_None [OF o] u have
    "Unmarshal decode_result (concat (oc_out (env_programs E (plain_cmd Buffer ''bosh'' (instances_args d)) (ew_fs w)))) []
      = (None, rows # tables)" by (simp add: Let_def)
  moreover have "filter (\<lambda>i. bi_Index i = k) is = filter (\<lambda>i. match i \<and> bi_Index i = k) rows" for k
    unfolding s using sort_key_stable [of bi_Index k "filter match rows"] by (simp add: conj_commute)
  ultimately show ?thesis unfolding s by (intro exI conjI) auto
qed

text \<open>A program that prints a text and exits with 0.\<close>

definition prints :: "string \<Rightarrow> fs \<Rightarrow> outcome" where
  "prints s fs = \<lparr>oc_start = None, oc_out = [s], oc_combined = s, oc_stderr = [], oc_takes = 0,
     oc_exit = Exited 0, oc_exit_pipe = Exited 0, oc_fs = fs\<rparr>"

definition test_env :: "(exec_cmd \<Rightarrow> string) \<Rightarrow> e2e_env" where
  "test_env f = \<lparr>env_programs = (\<lambda>c. prints (f c)), env_Environ = []\<rparr>"

definition test_world :: e2e_world where
  "test_world = \<lparr>ew_fs = [], ew_ginkgo = [], ew_log = []\<rparr>"

lemma test_run: "RunWithoutOutput (test_env f) name args test_world =
  (None, f (plain_cmd Buffer name args), test_world\<lparr>ew_ginkgo := ''$ '' @ join_with sp (name # args) @ [nl, nl]\<rparr>)"
  by (simp add: RunWithoutOutput_outcome test_env_def prints_def test_world_def Let_def)

definition dq :: string where "dq = [CHR 0x22]"

text \<open>A document with three instances; the indices are compared as strings.\<close>

definition row_text :: "string \<Rightarrow> string" where
  "row_text i = ''{'' @ dq @ ''index'' @ dq @ '':'' @ dq @ i @ dq @ '','' @ dq @ ''instance'' @ dq @ '':'' @ dq @ ''mysql/a'' @ dq @ ''}''"

definition rows_text :: string where
  "rows_text = ''{'' @ dq @ ''Tables'' @ dq @ '':[{'' @ dq @ ''Rows'' @ dq @ '':['' @ row_text ''2'' @ '','' @ row_text ''10'' @ '']}]}''"

definition sample_row :: "string \<Rightarrow> bosh_Instance" where
  "sample_row i = zero_instance\<lparr>bi_Index := i, bi_Instance := ''mysql/a''\<rparr>"

lemma decode_rows_text: "Unmarshal decode_result rows_text [] = (None, [[sample_row ''2'', sample_row ''10'']])"
  by code_simp

lemma sample_instances:
  "bosh_Instances (test_env (\<lambda>_. rows_text)) ''d'' (MatchByInstanceGroup ''mysql'') test_world
    = (Returned (Inr [sample_row ''10'', sample_row ''2'']),
       test_world\<lparr>ew_ginkgo := ''$ '' @ join_with sp (''bosh'' # instances_args ''d'') @ [nl, nl]\<rparr>)"
proof -
  have "Instances_of_rows (MatchByInstanceGroup ''mysql'') [sample_row ''2'', sample_row ''10'']
      = [sample_row ''10'', sample_row ''2'']" by code_simp
  then show ?thesis by (simp add: bosh_Instances_def test_run decode_rows_text)
qed

theorem bosh_instances_sorted_witness:
  "\<exists>is w. bosh_Instances (test_env (\<lambda>_. rows_text)) ''d'' (MatchByInstanceGroup ''mysql'') test_world = (Returned (Inr is), w)
    \<and> map bi_Index is = [''10'', ''2''] \<and> sorted (map bi_Index is)"
proof -
  from bosh_instances_sorted [OF sample_instances] have
    "sorted (map bi_Index [sample_row ''10'', sample_row ''2''])" by blast
  with sample_instances show ?thesis by (intro exI conjI) (auto simp: sample_row_def)
qed

subsection \<open>credhub\<close>

lemma FindCredentialName_None:
  assumes "FindCredentialName q E p w = (name, None, w')"
  obtains out where "RunWithoutOutput E ''credhub'' [''find'', ''--name-like='' @ p, ''--output-json''] w = (None, out, w')"
    and "Unmarshal decode_credentials out [] = (None, [name])"
  using assms by (auto simp: FindCredentialName_def split: prod.splits option.splits list.splits)

text \<open>
  A certificate is returned without error only when the search found exactly one
  credential, and it is the value of that credential.
\<close>

theorem credhub_certificate_of_the_only_credential:
  assumes "GetCredhubCertificate q E p w = (cert, None, w')"
  shows "\<exists>name found w1 out.
    RunWithoutOutput E ''credhub'' [''find'', ''--name-like='' @ p, ''--output-json''] w = (None, found, w1)
    \<and> Unmarshal decode_credentials found [] = (None, [name])
    \<and> RunWithoutOutput E ''credhub'' [''get'', ''--name='' @ name, ''--output-json''] w1 = (None, out, w')
    \<and> Unmarshal decode_certificate out zero_certificate = (None, cert)"
proof -
  from assms obtain name w1 where n: "FindCredentialName q E p w = (name, None, w1)"
    by (auto simp: GetCredhubCertificate_def split: prod.splits option.splits)
  obtain e out w2 where r: "RunWithoutOutput E ''credhub'' [''get'', ''--name='' @ name, ''--output-json''] w1 = (e, out, w2)"
    by (rule prod_cases3)
  obtain e' v where u: "Unmarshal decode_certificate out zero_certificate = (e', v)" by (rule prod.exhaust)
  have "e = None \<and> e' = None \<and> v = cert \<and> w2 = w'"
    using assms unfolding GetCredhubCertificate_def n r u prod.case option.case
    by (cases e; cases e') auto
  then have eqs: "e = None" "e' = None" "v = cert" "w2 = w'" by (simp_all only:)
  obtain found where f: "RunWithoutOutput E ''credhub'' [''find'', ''--name-like='' @ p, ''--output-json''] w = (None, found, w1)"
    and c: "Unmarshal decode_credentials found [] = (None, [name])"
    by (rule FindCredentialName_None [OF n])
  show ?thesis by (intro exI conjI) (rule f, rule c, rule r [unfolded eqs], rule u [unfolded eqs])
qed

definition credhub_text :: "exec_cmd \<Rightarrow> string" where
  "credhub_text c =
     (if hd (cmd_args c) = ''find''
      then ''{'' @ dq @ ''credentials'' @ dq @ '':[{'' @ dq @ ''name'' @ dq @ '':'' @ dq @ ''/a/tls'' @ dq @ ''}]}''
      else ''{'' @ dq @ ''value'' @ dq @ '':{'' @ dq @ ''ca'' @ dq @ '':'' @ dq @ ''X'' @ dq @ ''}}'')"

lemma credhub_find:
  "Unmarshal decode_credentials (credhub_text (plain_cmd Buffer n (''find'' # a))) [] = (None, [''/a/tls''])"
  unfolding credhub_text_def plain_cmd_def by simp code_simp

lemma credhub_get:
  "Unmarshal decode_certificate (credhub_text (plain_cmd Buffer n (''get'' # a))) zero_certificate
    = (None, zero_certificate\<lparr>cc_CA := ''X''\<rparr>)"
  unfolding credhub_text_def plain_cmd_def by simp code_simp

lemma test_env_run:
  "\<exists>w'. RunWithoutOutput (test_env f) name args w = (None, f (plain_cmd Buffer name args), w')"
  by (simp add: RunWithoutOutput_outcome test_env_def prints_def Let_def)

lemma sample_certificate:
  obtains w' where "GetCredhubCertificate id (test_env credhub_text) ''tls'' test_world
    = (zero_certificate\<lparr>cc_CA := ''X''\<rparr>, None, w')"
proof -
  obtain w1 where f: "RunWithoutOutput (test_env credhub_text) ''credhub''
      [''find'', ''--name-like='' @ ''tls'', ''--output-json''] test_world
      = (None, credhub_text (plain_cmd Buffer ''credhub'' [''find'', ''--name-like='' @ ''tls'', ''--output-json'']), w1)"
    using test_env_run by blast
  then have n: "FindCredentialName id (test_env credhub_text) ''tls'' test_world = (''/a/tls'', None, w1)"
    unfolding FindCredentialName_def f by (simp add: credhub_find del: append.simps)
  obtain w2 where g: "RunWithoutOutput (test_env credhub_text) ''credhub''
      [''get'', ''--name='' @ ''/a/tls'', ''--output-json''] w1
      = (None, credhub_text (plain_cmd Buffer ''credhub'' [''get'', ''--name='' @ ''/a/tls'', ''--output-json'']), w2)"
    using test_env_run by blast
  have "GetCredhubCertificate id (test_env credhub_text) ''tls'' test_world = (zero_certificate\<lparr>cc_CA := ''X''\<rparr>, None, w2)"
    unfolding GetCredhubCertificate_def n by (simp add: g [simplified] credhub_get)
  then show thesis by (rule that)
qed

theorem credhub_certificate_of_the_only_credential_witness:
  "\<exists>w found w1 name. GetCredhubCertificate id (test_env credhub_text) ''tls'' test_world
      = (zero_certificate\<lparr>cc_CA := ''X''\<rparr>, None, w)
    \<and> RunWithoutOutput (test_env credhub_text) ''credhub'' [''find'', ''--name-like='' @ ''tls'', ''--output-json''] test_world
      = (None, found, w1)
    \<and> Unmarshal decode_credentials found [] = (None, [name])"
proof -
  obtain w where c: "GetCredhubCertificate id (test_env credhub_text) ''tls'' test_world
    = (zero_certificate\<lparr>cc_CA := ''X''\<rparr>, None, w)" by (rule sample_certificate)
  from credhub_certificate_of_the_only_credential [OF c] c show ?thesis by blast
qed

subsection \<open>docker\<close>

lemma last_colon_snoc: "CHR '':'' \<notin> set p \<Longrightarrow> last_colon (h @ CHR '':'' # p) = Some (h, p)"
  by (simp add: last_colon_def)

lemma SplitHostPort_plain:
  assumes "set h \<inter> set '':[]'' = {}" and "set p \<inter> set '':[]'' = {}"
  shows "SplitHostPort (h @ '':'' @ p) = Inr (h, p)"
proof -
  have "hd (h @ '':'' @ p) \<noteq> CHR ''[''" using assms(1) by (cases h) auto
  with assms last_colon_snoc [of p h] show ?thesis by (auto simp: SplitHostPort_def)
qed

lemma SplitHostPort_two:
  assumes "set p \<inter> set '':[]'' = {}" and "a \<noteq> []" and "hd a \<noteq> CHR ''[''"
  shows "SplitHostPort (a @ '':'' @ b @ '':'' @ p) = Inl (addr_error (a @ '':'' @ b @ '':'' @ p) ''too many colons in address'')"
proof -
  have "last_colon (a @ '':'' @ b @ '':'' @ p) = Some (a @ '':'' @ b, p)"
    using last_colon_snoc [of p "a @ '':'' @ b"] assms(1) by simp
  moreover have "hd (a @ '':'' @ b @ '':'' @ p) \<noteq> CHR ''[''" using assms(2,3) by simp
  ultimately show ?thesis by (simp add: SplitHostPort_def)
qed

text \<open>
  C38: ContainerPort returns the port when docker prints one address, and an error when it
  prints two (one for IPv6), because the whole output is split as one address.
\<close>

theorem ContainerPort_lines:
  assumes "oc_start (env_programs E (plain_cmd Buffer ''docker'' [''container'', ''port'', c, spec]) (ew_fs w)) = None"
    and "oc_exit (env_programs E (plain_cmd Buffer ''docker'' [''container'', ''port'', c, spec]) (ew_fs w)) = Exited 0"
    and "TrimSpace (concat (oc_out (env_programs E (plain_cmd Buffer ''docker'' [''container'', ''port'', c, spec]) (ew_fs w))))
      = h @ '':'' @ p @ rest"
    and "h \<noteq> []" and "set h \<inter> set '':[]'' = {}" and "set p \<inter> set '':[]'' = {}"
    and "rest = [] \<or> (\<exists>h2 p2. rest = nl # h2 @ '':'' @ p2 \<and> set p2 \<inter> set '':[]'' = {})"
  shows "\<exists>w'. ContainerPort E c spec w =
    (if rest = [] then (p, None, w')
     else ([], Some (addr_error (h @ '':'' @ p @ rest) ''too many colons in address''), w'))"
proof -
  have r: "\<exists>w1. docker_Command E [''container'', ''port'', c, spec] w = (h @ '':'' @ p @ rest, None, w1)"
    using assms(1-3) by (simp add: docker_Command_def run_command_def Let_def received_def plain_cmd_def)
  show ?thesis
  proof (cases "rest = []")
    case True
    with r SplitHostPort_plain [OF assms(5,6)] show ?thesis by (auto simp: ContainerPort_def)
  next
    case False
    with assms(7) obtain h2 p2 where q: "rest = nl # h2 @ '':'' @ p2" "set p2 \<inter> set '':[]'' = {}" by blast
    have "hd h \<noteq> CHR ''[''" using assms(4,5) by (cases h) auto
    from SplitHostPort_two [OF q(2) assms(4) this, of "p @ nl # h2"] r False q(1) show ?thesis
      by (auto simp: ContainerPort_def)
  qed
qed

lemma test_docker: "env_programs (test_env f) c fs = prints (f c) fs"
  by (simp add: test_env_def)

theorem ContainerPort_lines_witness:
  "(\<exists>w. ContainerPort (test_env (\<lambda>_. ''0.0.0.0:32768'' @ [nl])) ''db'' ''3306/tcp'' test_world = (''32768'', None, w))
   \<and> (\<exists>w e. ContainerPort (test_env (\<lambda>_. ''0.0.0.0:32768'' @ [nl] @ '':::32768'')) ''db'' ''3306/tcp'' test_world = ([], Some e, w))"
proof
  let ?E = "test_env (\<lambda>_. ''0.0.0.0:32768'' @ [nl])"
  have "TrimSpace (''0.0.0.0:32768'' @ [nl]) = ''0.0.0.0'' @ '':'' @ ''32768'' @ []" by code_simp
  then have "\<exists>w. ContainerPort ?E ''db'' ''3306/tcp'' test_world =
    (if [] = ([] :: string) then (''32768'', None, w)
     else ([], Some (addr_error (''0.0.0.0'' @ '':'' @ ''32768'' @ []) ''too many colons in address''), w))"
    by (intro ContainerPort_lines) (simp_all add: test_docker prints_def)
  then show "\<exists>w. ContainerPort ?E ''db'' ''3306/tcp'' test_world = (''32768'', None, w)" by simp
next
  let ?t = "''0.0.0.0:32768'' @ [nl] @ '':::32768''" and ?r = "nl # ''::'' @ '':'' @ ''32768''"
  let ?o = "env_programs (test_env (\<lambda>_. ?t)) (plain_cmd Buffer ''docker'' [''container'', ''port'', ''db'', ''3306/tcp'']) (ew_fs test_world)"
  have t: "TrimSpace ?t = ''0.0.0.0'' @ '':'' @ ''32768'' @ ?r" by code_simp
  have o: "oc_start ?o = None" "oc_exit ?o = Exited 0" by (simp_all add: test_docker prints_def)
  have "concat (oc_out ?o) = ?t" by (simp add: test_docker prints_def)
  with t have tr: "TrimSpace (concat (oc_out ?o)) = ''0.0.0.0'' @ '':'' @ ''32768'' @ ?r" by (simp only:)
  have h: "''0.0.0.0'' \<noteq> []" "set ''0.0.0.0'' \<inter> set '':[]'' = {}" "set ''32768'' \<inter> set '':[]'' = {}" by simp_all
  have "?r = nl # ''::'' @ '':'' @ ''32768''" ..
  with h(3) have r: "?r = [] \<or> (\<exists>h2 p2. ?r = nl # h2 @ '':'' @ p2 \<and> set p2 \<inter> set '':[]'' = {})" by blast
  have "\<exists>w. ContainerPort (test_env (\<lambda>_. ?t)) ''db'' ''3306/tcp'' test_world =
    (if ?r = [] then (''32768'', None, w)
     else ([], Some (addr_error (''0.0.0.0'' @ '':'' @ ''32768'' @ ?r) ''too many colons in address''), w))"
    by (rule ContainerPort_lines [OF o tr h r])
  then obtain w where "ContainerPort (test_env (\<lambda>_. ?t)) ''db'' ''3306/tcp'' test_world =
    ([], Some (addr_error (''0.0.0.0'' @ '':'' @ ''32768'' @ ?r) ''too many colons in address''), w)"
    unfolding if_not_P [OF list.distinct(2)] by blast
  then show "\<exists>w e. ContainerPort (test_env (\<lambda>_. ?t)) ''db'' ''3306/tcp'' test_world = ([], Some e, w)"
    by (intro exI)
qed

subsection \<open>The proxy\<close>

lemma parseProxyURL_Inr:
  assumes "parseProxyURL q E raw w = (Inr v, w')"
  obtains u key where "url_Parse raw = Inr u" and "pu_Scheme u = ''ssh+socks5''"
    and "os_ReadFile E (values_Get (url_Query (pu_RawQuery u)) ''private-key'') w = (Inr key, w')"
    and "pu_Host v = pu_Host u" and "proxy_user v = (if proxy_user u = [] then ''jumpbox'' else proxy_user u)"
    and "values_Get (url_Query (pu_RawQuery v)) ''private-key'' = key"
proof -
  from assms obtain u where u: "url_Parse raw = Inr u" "pu_Scheme u = ''ssh+socks5''"
    by (auto simp: parseProxyURL_def split: sum.splits if_splits)
  obtain r w1 where r: "os_ReadFile E (values_Get (url_Query (pu_RawQuery u)) ''private-key'') w = (r, w1)"
    by (rule prod.exhaust)
  from assms u r obtain key where k: "r = Inr key" "w1 = w'"
    and v: "v = default_user u\<lparr>pu_RawQuery := url_Encode (values_Set ''private-key'' key (url_Query (pu_RawQuery u)))\<rparr>"
    by (cases r) (auto simp: parseProxyURL_def Let_def)
  have n: "proxy_user (x\<lparr>pu_RawQuery := y\<rparr>) = proxy_user x" for x y by (simp add: proxy_user_def)
  show thesis
  proof (rule that [OF u])
    show "os_ReadFile E (values_Get (url_Query (pu_RawQuery u)) ''private-key'') w = (Inr key, w')"
      using r k by simp
    show "pu_Host v = pu_Host u" by (simp add: v)
    show "proxy_user v = (if proxy_user u = [] then ''jumpbox'' else proxy_user u)"
      by (simp add: v n)
    show "values_Get (url_Query (pu_RawQuery v)) ''private-key'' = key"
      by (simp add: v Get_Encode_Set distinct_Query)
  qed
qed

text \<open>
  C36: A dialer through a jump box is configured with exactly the private key that the file
  named in the URL holds, carried through the encoded query, and with the user of the URL or
  jumpbox.
\<close>

theorem proxy_key_from_file:
  assumes "NewDialerViaSSH L q E raw w = (Inr (conn, dial), w')"
  shows "\<exists>u key signer. url_Parse raw = Inr u \<and> pu_Scheme u = ''ssh+socks5''
    \<and> os_ReadFile E (values_Get (url_Query (pu_RawQuery u)) ''private-key'') w = (Inr key, w')
    \<and> ssh_ParsePrivateKey L key = Inr signer
    \<and> ssh_Dial L (pu_Host u) \<lparr>ssh_Timeout = 30,
        ssh_User = (if proxy_user u = [] then ''jumpbox'' else proxy_user u),
        ssh_HostKeyCallback = InsecureIgnoreHostKey, ssh_Auth = [signer]\<rparr> = Inr conn
    \<and> dial = conn_Dial L conn"
proof -
  from assms obtain v where v: "parseProxyURL q E raw w = (Inr v, w')"
    by (auto simp: NewDialerViaSSH_def split: sum.splits prod.splits)
  from assms v obtain cfg where c: "sshConfig (ssh_ParsePrivateKey L) v = Inr cfg"
    "ssh_Dial L (pu_Host v) cfg = Inr conn" "dial = conn_Dial L conn"
    by (auto simp: NewDialerViaSSH_def split: sum.splits)
  from c(1) obtain signer where s:
    "ssh_ParsePrivateKey L (values_Get (url_Query (pu_RawQuery v)) ''private-key'') = Inr signer"
    "cfg = \<lparr>ssh_Timeout = 30, ssh_User = proxy_user v,
       ssh_HostKeyCallback = InsecureIgnoreHostKey, ssh_Auth = [signer]\<rparr>"
    by (auto simp: sshConfig_def split: sum.splits)
  obtain u key where u: "url_Parse raw = Inr u" "pu_Scheme u = ''ssh+socks5''"
    "os_ReadFile E (values_Get (url_Query (pu_RawQuery u)) ''private-key'') w = (Inr key, w')"
    "pu_Host v = pu_Host u" "proxy_user v = (if proxy_user u = [] then ''jumpbox'' else proxy_user u)"
    "values_Get (url_Query (pu_RawQuery v)) ''private-key'' = key"
    by (rule parseProxyURL_Inr [OF v])
  from c(2) have d: "ssh_Dial L (pu_Host u) \<lparr>ssh_Timeout = 30,
      ssh_User = (if proxy_user u = [] then ''jumpbox'' else proxy_user u),
      ssh_HostKeyCallback = InsecureIgnoreHostKey, ssh_Auth = [signer]\<rparr> = Inr conn"
    unfolding s(2) u(4,5) .
  from s(1) have k: "ssh_ParsePrivateKey L key = Inr signer" unfolding u(6) .
  from u(1-3) k d c(3) show ?thesis by (intro exI conjI)
qed

definition key_world :: world where
  "key_world = new_world [([''k''], File 384 (''SECRET&='' @ [nl]))]"

definition key_os :: os_env where
  "key_os = \<lparr>os_fault = (\<lambda>_. None), os_partial = (\<lambda>_. 0), os_survives = (\<lambda>_ _. False),
     os_rand = (\<lambda>_. 0), os_now = (\<lambda>_. 0), os_tmp = ''/tmp''\<rparr>"

definition key_lib :: "(string, string ssh_config, string) ssh_lib" where
  "key_lib = \<lparr>ssh_ParsePrivateKey = Inr, ssh_Dial = (\<lambda>h c. Inr c), conn_Dial = (\<lambda>c n a. Inr a)\<rparr>"

theorem proxy_key_from_file_witness:
  "\<exists>conn dial w key w1. NewDialerViaSSH key_lib id key_os ''ssh+socks5://jb.example:22?private-key=/k'' key_world = (Inr (conn, dial), w)
    \<and> os_ReadFile key_os ''/k'' key_world = (Inr key, w1) \<and> ssh_User conn = ''jumpbox'' \<and> ssh_Auth conn = [key]"
proof -
  have u: "url_Parse ''ssh+socks5://jb.example:22?private-key=/k'' = Inr \<lparr>pu_Scheme = ''ssh+socks5'', pu_User = None,
      pu_Host = ''jb.example:22'', pu_Path = [], pu_RawQuery = ''private-key=/k''\<rparr>" by code_simp
  have g: "values_Get (url_Query ''private-key=/k'') ''private-key'' = ''/k''" by code_simp
  have p: "resolve ''/k'' = [''k'']" by code_simp
  obtain w1 where f: "os_ReadFile key_os ''/k'' key_world = (Inr (''SECRET&='' @ [nl]), w1)"
    by (simp add: os_ReadFile_def os_Open_def os_read_all_def open_err_def p key_world_def new_world_def
        fs_lookup_def fault_now_def key_os_def ticked_def)
  have "\<exists>conn dial w. NewDialerViaSSH key_lib id key_os ''ssh+socks5://jb.example:22?private-key=/k'' key_world
      = (Inr (conn, dial), w)"
    by (simp add: NewDialerViaSSH_def parseProxyURL_def u g f Let_def sshConfig_def key_lib_def)
  then obtain conn dial w where d: "NewDialerViaSSH key_lib id key_os ''ssh+socks5://jb.example:22?private-key=/k'' key_world
      = (Inr (conn, dial), w)" by blast
  from proxy_key_from_file [OF d] have "ssh_User conn = ''jumpbox'' \<and> ssh_Auth conn = [''SECRET&='' @ [nl]]"
    by (auto simp: u g f key_lib_def proxy_user_def)
  with d f show ?thesis by blast
qed

subsection \<open>The doubles\<close>

lemma fake_Invocations_as:
  "fake_as name zero ops f \<Longrightarrow> fake_Invocations f = (if invoked ops = [] then [] else [(name, invoked ops)])"
  by (simp add: fake_as_def fake_Invocations_def)

text \<open>
  C39: After any sequence of operations a generated double answers a call as the history
  says: the stub in force, else the result set for this call, else the result set for all;
  and it reports exactly the calls made.
\<close>

theorem fake_answers_history:
  assumes "fake_run name ops (new_fake zero, s) = (rs, f, s1)"
  shows "fst (fake_call name a f s1) = answer_after zero ops a s1
    \<and> fake_CallCount f = length (invoked ops)
    \<and> fake_Invocations f = (if invoked ops = [] then [] else [(name, invoked ops)])
    \<and> fake_ArgsForCall i f =
        (if 0 \<le> i \<and> i < int (length (invoked ops)) then Returned (invoked ops ! nat i) else Panicked index_out_of_range)"
proof -
  note f = fake_as_run [OF assms]
  obtain r f' s' where c: "fake_call name a f s1 = (r, f', s')" by (rule prod_cases3)
  then have "fake_step name (Invoke a) (f, s1) = (Result r, f', s')" by simp
  from fake_as_step(2) [OF f this refl] have "fst (fake_call name a f s1) = answer_after zero ops a s1"
    by (simp add: c)
  moreover have "fk_argsForCall f = invoked ops" using f by (simp add: fake_as_def)
  ultimately show ?thesis
    using fake_Invocations_as [OF f] by (simp add: fake_CallCount_def fake_ArgsForCall_def)
qed

text \<open>Three calls of the double of the agent caller: the second has a result of its own.\<close>

definition agent_history :: "(string, int \<times> err, unit) fake_op list" where
  "agent_history = [Calls (Some (\<lambda>a s. ((7, None), s))), Invoke ''a'', Returns (3, None), ReturnsOnCall 1 (5, None)]"

theorem fake_answers_history_witness:
  "\<exists>rs f s. fake_run ''WsrepLocalIndex'' agent_history (new_fake (0, None), ()) = (rs, f, s)
    \<and> rs = [Done, Result (7, None), Done, Done]
    \<and> fst (fake_call ''WsrepLocalIndex'' ''b'' f s) = (5, None) \<and> fake_CallCount f = 1"
proof -
  obtain rs f s where r: "fake_run ''WsrepLocalIndex'' agent_history (new_fake (0, None), ()) = (rs, f, s)"
    by (rule prod_cases3)
  then have "rs = [Done, Result (7, None), Done, Done]"
    by (auto simp: agent_history_def fake_call_def fake_Calls_def new_fake_def Let_def)
  moreover have h: "answer_after (0, None) agent_history ''b'' s = (5, None)" "length (invoked agent_history) = 1"
    by (simp_all add: answer_after_def stub_in_force_def result_for_def agent_history_def config_op_def
        List.map_filter_simps)
  moreover from fake_answers_history [OF r, of "''b''" 0, unfolded h]
  have "fst (fake_call ''WsrepLocalIndex'' ''b'' f s) = (5, None)" "fake_CallCount f = 1" by blast+
  ultimately show ?thesis using r by blast
qed

subsection \<open>The child that blocks interrupts\<close>



end
